(* ===== verification/Go_Prelude.thy ===== *)
theory Go_Prelude
  imports Main "HOL-Library.AList" "HOL-Library.Word"
begin

text \<open>
  What every component of the model shares: the outcome of a Go call (a value, an error or a
  panic), state-passing calls and their sequencing, Go maps as association lists, and the scan
  that keeps the best element seen so far, with the locale that states what such a scan returns.
  Nothing here is about the provider itself.
\<close>

section \<open>Machine types\<close>

type_synonym int64 = "64 word"
type_synonym go_time = int
type_synonym duration = int

text \<open>
  \<open>time.Time\<close> is a number of nanoseconds on one clock and \<open>time.Duration\<close> a difference of two;
  the constants of the \<open>time\<close> package follow.
\<close>

definition nanosecond :: duration where "nanosecond = 1"
definition microsecond :: duration where "microsecond = 1000 * nanosecond"
definition millisecond :: duration where "millisecond = 1000 * microsecond"
definition second :: duration where "second = 1000 * millisecond"
definition minute :: duration where "minute = 60 * second"
definition hour :: duration where "hour = 60 * minute"

named_theorems time_defs \<open>definitions of the durations\<close>

lemmas [time_defs] = nanosecond_def microsecond_def millisecond_def second_def minute_def hour_def

section \<open>Outcomes of calls\<close>

text \<open>
  A Go call with an error result returns a value or an error; a nil dereference or an index out of
  range is a third outcome that no caller of this program recovers from.
\<close>

datatype ('e, 'a) outcome = Ok 'a | Err 'e | Panic

fun is_ok :: "('e, 'a) outcome \<Rightarrow> bool" where
  "is_ok (Ok a) = True"
| "is_ok (Err e) = False"
| "is_ok Panic = False"

fun of_option :: "'e \<Rightarrow> 'a option \<Rightarrow> ('e, 'a) outcome" where
  "of_option e None = Err e"
| "of_option e (Some a) = Ok a"

fun deref :: "'a option \<Rightarrow> ('e, 'a) outcome" where
  "deref None = Panic"
| "deref (Some a) = Ok a"

lemma is_ok_iff: "is_ok r \<longleftrightarrow> (\<exists>a. r = Ok a)"
  by (cases r) auto

lemma deref_iff [simp]:
  "deref x = Ok a \<longleftrightarrow> x = Some a"
  "deref x = Panic \<longleftrightarrow> x = None"
  "deref x \<noteq> Err e"
  by (cases x; simp)+

section \<open>State-passing calls\<close>

text \<open>
  A method that has effects is a function from the state to its outcome and the new state.
  \<open>bind_call\<close> is the \<open>if err != nil { return err }\<close> that follows almost every call of the source,
  \<open>wrap_call\<close> the \<open>fmt.Errorf("...: %w", err)\<close> put around the error on the way out.
\<close>

type_synonym ('s, 'e, 'a) call = "'s \<Rightarrow> ('e, 'a) outcome \<times> 's"

definition return_call :: "'a \<Rightarrow> ('s, 'e, 'a) call" where
  "return_call a = (\<lambda>s. (Ok a, s))"

definition fail_call :: "'e \<Rightarrow> ('s, 'e, 'a) call" where
  "fail_call e = (\<lambda>s. (Err e, s))"

definition lift_outcome :: "('e, 'a) outcome \<Rightarrow> ('s, 'e, 'a) call" where
  "lift_outcome r = (\<lambda>s. (r, s))"

definition bind_call ::
  "('s, 'e, 'a) call \<Rightarrow> ('a \<Rightarrow> ('s, 'e, 'b) call) \<Rightarrow> ('s, 'e, 'b) call" where
  "bind_call m f = (\<lambda>s. case m s of
       (Ok a, s') \<Rightarrow> f a s'
     | (Err e, s') \<Rightarrow> (Err e, s')
     | (Panic, s') \<Rightarrow> (Panic, s'))"

definition wrap_call :: "('e \<Rightarrow> 'f) \<Rightarrow> ('s, 'e, 'a) call \<Rightarrow> ('s, 'f, 'a) call" where
  "wrap_call f m = (\<lambda>s. case m s of
       (Ok a, s') \<Rightarrow> (Ok a, s')
     | (Err e, s') \<Rightarrow> (Err (f e), s')
     | (Panic, s') \<Rightarrow> (Panic, s'))"

named_theorems call_simps \<open>rewriting of call sequences\<close>

lemma return_call_apply [call_simps]: "return_call a s = (Ok a, s)"
  by (simp add: return_call_def)

lemma fail_call_apply [call_simps]: "fail_call e s = (Err e, s)"
  by (simp add: fail_call_def)

lemma lift_outcome_apply [call_simps]: "lift_outcome r s = (r, s)"
  by (simp add: lift_outcome_def)

lemma bind_call_ok_iff [call_simps]:
  "bind_call m f s = (Ok b, s') \<longleftrightarrow> (\<exists>a s1. m s = (Ok a, s1) \<and> f a s1 = (Ok b, s'))"
  by (auto simp: bind_call_def split: prod.splits outcome.splits)

lemma bind_call_err_iff [call_simps]:
  "bind_call m f s = (Err e, s') \<longleftrightarrow>
     m s = (Err e, s') \<or> (\<exists>a s1. m s = (Ok a, s1) \<and> f a s1 = (Err e, s'))"
  by (auto simp: bind_call_def split: prod.splits outcome.splits)

lemma wrap_call_ok_iff [call_simps]: "wrap_call g m s = (Ok a, s') \<longleftrightarrow> m s = (Ok a, s')"
  by (auto simp: wrap_call_def split: prod.splits outcome.splits)

lemma wrap_call_err_iff [call_simps]:
  "wrap_call g m s = (Err e, s') \<longleftrightarrow> (\<exists>e'. m s = (Err e', s') \<and> e = g e')"
  by (auto simp: wrap_call_def split: prod.splits outcome.splits)

lemma bind_call_step:
  "m s = (Ok a, s') \<Longrightarrow> bind_call m f s = f a s'"
  "m s = (Err e, s') \<Longrightarrow> bind_call m f s = (Err e, s')"
  "m s = (Panic, s') \<Longrightarrow> bind_call m f s = (Panic, s')"
  by (simp_all add: bind_call_def)

lemma wrap_call_step:
  "m s = (Ok a, s') \<Longrightarrow> wrap_call g m s = (Ok a, s')"
  "m s = (Err e, s') \<Longrightarrow> wrap_call g m s = (Err (g e), s')"
  "m s = (Panic, s') \<Longrightarrow> wrap_call g m s = (Panic, s')"
  by (simp_all add: wrap_call_def)

lemmas call_step = bind_call_step wrap_call_step

lemma return_bind [call_simps]: "bind_call (return_call a) f s = f a s"
  by (simp add: bind_call_def return_call_def)

lemma fail_bind [call_simps]: "bind_call (fail_call e) f s = (Err e, s)"
  by (simp add: bind_call_def fail_call_def)

text \<open>A call that never changes one part of the state, whatever its outcome.\<close>

definition keeps :: "('s \<Rightarrow> 'x) \<Rightarrow> ('s, 'e, 'a) call \<Rightarrow> bool" where
  "keeps part m \<longleftrightarrow> (\<forall>s r s'. m s = (r, s') \<longrightarrow> part s' = part s)"

named_theorems frame_intros \<open>calls that keep a part of the state\<close>

lemma keepsI: "(\<And>s r s'. m s = (r, s') \<Longrightarrow> part s' = part s) \<Longrightarrow> keeps part m"
  by (simp add: keeps_def)

lemma keepsD: "keeps part m \<Longrightarrow> m s = (r, s') \<Longrightarrow> part s' = part s"
  by (simp add: keeps_def)

lemma keeps_pure [frame_intros]:
  "keeps part (return_call a)" "keeps part (fail_call e)" "keeps part (lift_outcome r)"
  by (simp_all add: keeps_def return_call_def fail_call_def lift_outcome_def)

lemma keeps_bind [frame_intros]:
  "keeps part m \<Longrightarrow> (\<And>a. keeps part (f a)) \<Longrightarrow> keeps part (bind_call m f)"
  unfolding keeps_def bind_call_def by (auto split: prod.splits outcome.splits)

lemma keeps_wrap [frame_intros]: "keeps part m \<Longrightarrow> keeps part (wrap_call g m)"
  unfolding keeps_def wrap_call_def by (auto split: prod.splits outcome.splits)

lemma keeps_option [frame_intros]:
  "keeps part a \<Longrightarrow> (\<And>x. keeps part (b x)) \<Longrightarrow> keeps part (case opt of None \<Rightarrow> a | Some x \<Rightarrow> b x)"
  by (cases opt) simp_all

lemma keeps_list [frame_intros]:
  "keeps part a \<Longrightarrow> (\<And>x xs. keeps part (b x xs)) \<Longrightarrow> keeps part (case ys of [] \<Rightarrow> a | x # xs \<Rightarrow> b x xs)"
  by (cases ys) simp_all

lemma keeps_if [frame_intros]: "keeps part a \<Longrightarrow> keeps part b \<Longrightarrow> keeps part (if c then a else b)"
  by simp

text \<open>A call that always has a value to return: its errors are handled, and it does not panic.\<close>

definition total_call :: "('s, 'e, 'a) call \<Rightarrow> bool" where
  "total_call m \<longleftrightarrow> (\<forall>s. is_ok (fst (m s)))"

lemma total_callI: "(\<And>s. \<exists>a s'. m s = (Ok a, s')) \<Longrightarrow> total_call m"
  unfolding total_call_def by (metis fst_conv is_ok.simps(1))

lemma total_callE:
  assumes "total_call m"
  obtains a s' where "m s = (Ok a, s')"
  using assms unfolding total_call_def is_ok_iff by (metis prod.collapse)

lemma total_call_iff: "total_call m \<longleftrightarrow> (\<forall>s. \<exists>a s'. m s = (Ok a, s'))"
  by (meson total_callE total_callI)

lemma total_return: "total_call (return_call a)"
  by (simp add: total_call_def return_call_def)

lemma total_bind: "total_call m \<Longrightarrow> (\<And>a. total_call (f a)) \<Longrightarrow> total_call (bind_call m f)"
  by (rule total_callI) (metis bind_call_ok_iff total_callE)

text \<open>A call that has no error to return.\<close>

definition never_fails :: "('s, 'e, 'a) call \<Rightarrow> bool" where
  "never_fails m \<longleftrightarrow> (\<forall>s e s'. m s \<noteq> (Err e, s'))"

lemma never_fails_pure: "never_fails (return_call a)"
  by (simp add: never_fails_def return_call_def)

lemma never_fails_bind: "never_fails m \<Longrightarrow> (\<And>a. never_fails (f a)) \<Longrightarrow> never_fails (bind_call m f)"
  by (auto simp: never_fails_def bind_call_err_iff)

section \<open>Go maps\<close>

text \<open>
  A Go map that the code ranges over is an association list: the list order is the iteration order
  the runtime happens to choose, the keys are distinct. Reading is \<open>map_of\<close>, storing is
  \<open>AList.update\<close>. Results that must not depend on the iteration order are proved so.
\<close>

type_synonym 'v go_map = "(string \<times> 'v) list"

definition go_map_ok :: "('k \<times> 'v) list \<Rightarrow> bool" where
  "go_map_ok m \<longleftrightarrow> distinct (map fst m)"

definition map_put :: "'k \<Rightarrow> 'v \<Rightarrow> ('k \<times> 'v) list \<Rightarrow> ('k \<times> 'v) list" where
  "map_put k v m = AList.update k v m"

fun map_put_all :: "('k \<times> 'v) list \<Rightarrow> ('k \<times> 'v) list \<Rightarrow> ('k \<times> 'v) list" where
  "map_put_all [] m = m"
| "map_put_all ((k, v) # kvs) m = map_put_all kvs (map_put k v m)"

lemma map_of_map_put [simp]: "map_of (map_put k v m) = (map_of m)(k \<mapsto> v)"
  by (simp add: map_put_def update_conv')

lemma map_put_ok [simp]: "go_map_ok m \<Longrightarrow> go_map_ok (map_put k v m)"
  by (simp add: map_put_def go_map_ok_def distinct_update)

lemma map_put_all_ok [simp]: "go_map_ok m \<Longrightarrow> go_map_ok (map_put_all kvs m)"
  by (induction kvs m rule: map_put_all.induct) auto

lemma go_map_ok_Nil [simp]: "go_map_ok []"
  by (simp add: go_map_ok_def)

lemma go_map_ok_Cons [simp]:
  "go_map_ok ((k, v) # m) \<longleftrightarrow> k \<notin> fst ` set m \<and> go_map_ok m"
  by (simp add: go_map_ok_def)

lemma map_of_map_put_all:
  "go_map_ok kvs \<Longrightarrow> map_of (map_put_all kvs m) = map_of m ++ map_of kvs"
proof (induction kvs m rule: map_put_all.induct)
  case (1 m)
  then show ?case by simp
next
  case (2 k v kvs m)
  then have "map_of kvs k = None" by (simp add: map_of_eq_None_iff)
  with 2 show ?case by (auto simp: fun_eq_iff map_add_def split: option.splits)
qed

lemma go_map_in_set_iff: "go_map_ok m \<Longrightarrow> (k, v) \<in> set m \<longleftrightarrow> map_of m k = Some v"
  by (simp add: go_map_ok_def)

lemma go_map_same_entries:
  "go_map_ok m \<Longrightarrow> go_map_ok n \<Longrightarrow> map_of m = map_of n \<Longrightarrow> set m = set n"
  by (auto simp: go_map_ok_def map_of_inject_set)

lemma go_map_empty_iff: "map_of m = Map.empty \<longleftrightarrow> m = []"
  by (cases m) (auto simp: fun_eq_iff)

section \<open>Scanning for the best element\<close>

text \<open>
  Two loops of the program keep the best element seen so far and replace it only by one that is
  strictly better: the newest snapshot of \<open>resolveTalos\<close> and the cheapest candidate of \<open>Create\<close>.
\<close>

fun scan_best :: "('a \<Rightarrow> 'a \<Rightarrow> bool) \<Rightarrow> 'a option \<Rightarrow> 'a list \<Rightarrow> 'a option" where
  "scan_best better best [] = best"
| "scan_best better None (x # xs) = scan_best better (Some x) xs"
| "scan_best better (Some b) (x # xs) = scan_best better (Some (if better x b then x else b)) xs"

locale best_scan =
  fixes better :: "'a \<Rightarrow> 'a \<Rightarrow> bool"
  assumes better_asym: "better x y \<Longrightarrow> \<not> better y x"
    and better_neg_trans: "\<not> better x y \<Longrightarrow> \<not> better y z \<Longrightarrow> \<not> better x z"
begin

lemma better_irrefl: "\<not> better x x"
  using better_asym by blast

lemma better_trans: "better x y \<Longrightarrow> better y z \<Longrightarrow> better x z"
  using better_asym better_neg_trans by blast

lemma scan_from_Some:
  "\<exists>b'. scan_best better (Some b) xs = Some b' \<and> b' \<in> insert b (set xs) \<and>
     (\<forall>x \<in> insert b (set xs). \<not> better x b')"
proof (induction xs arbitrary: b)
  case Nil
  then show ?case by (simp add: better_irrefl)
next
  case (Cons x xs)
  let ?c = "if better x b then x else b"
  obtain b' where b': "scan_best better (Some ?c) xs = Some b'"
      "b' \<in> insert ?c (set xs)" "\<forall>y \<in> insert ?c (set xs). \<not> better y b'"
    using Cons.IH [of ?c] by blast
  have "\<not> better x b'" and "\<not> better b b'"
    using b'(3) better_asym [of x b] better_neg_trans [of x b b'] better_neg_trans [of b x b']
    by (auto split: if_splits)
  with b' show ?case by (auto split: if_splits)
qed

lemma scan_None_iff: "scan_best better None xs = None \<longleftrightarrow> xs = []"
  using scan_from_Some by (cases xs) (auto, metis option.distinct(1))

lemma scan_best_is_best:
  "scan_best better None xs = Some b \<Longrightarrow> b \<in> set xs \<and> (\<forall>x \<in> set xs. \<not> better x b)"
  using scan_from_Some by (cases xs) (auto, (metis insert_iff option.inject)+)

text \<open>The first of the best: everything before the result is strictly worse.\<close>

lemma scan_from_Some_first:
  "scan_best better (Some b) xs = Some c \<Longrightarrow>
     c = b \<or> (\<exists>ys zs. xs = ys @ c # zs \<and> better c b \<and> (\<forall>y \<in> set ys. better c y))"
proof (induction xs arbitrary: b)
  case Nil
  then show ?case by simp
next
  case (Cons x xs)
  show ?case
  proof (cases "better x b")
    case True
    with Cons have "c = x \<or> (\<exists>ys zs. xs = ys @ c # zs \<and> better c x \<and> (\<forall>y \<in> set ys. better c y))"
      by simp
    then show ?thesis
    proof
      assume "c = x"
      with True have "x # xs = [] @ c # xs \<and> better c b \<and> (\<forall>y \<in> set []. better c y)" by simp
      then show ?thesis by blast
    next
      assume "\<exists>ys zs. xs = ys @ c # zs \<and> better c x \<and> (\<forall>y \<in> set ys. better c y)"
      then obtain ys zs where "xs = ys @ c # zs" "better c x" "\<forall>y \<in> set ys. better c y" by blast
      moreover have "better c b" using \<open>better c x\<close> True by (rule better_trans)
      ultimately have "x # xs = (x # ys) @ c # zs \<and> better c b \<and> (\<forall>y \<in> set (x # ys). better c y)"
        by simp
      then show ?thesis by blast
    qed
  next
    case False
    with Cons have "c = b \<or> (\<exists>ys zs. xs = ys @ c # zs \<and> better c b \<and> (\<forall>y \<in> set ys. better c y))"
      by simp
    then show ?thesis
    proof
      assume "\<exists>ys zs. xs = ys @ c # zs \<and> better c b \<and> (\<forall>y \<in> set ys. better c y)"
      then obtain ys zs where "xs = ys @ c # zs" "better c b" "\<forall>y \<in> set ys. better c y" by blast
      moreover have "better c x"
        using False \<open>better c b\<close> better_neg_trans better_asym by blast
      ultimately have "x # xs = (x # ys) @ c # zs \<and> better c b \<and> (\<forall>y \<in> set (x # ys). better c y)"
        by simp
      then show ?thesis by blast
    qed simp
  qed
qed

lemma scan_best_first:
  assumes "scan_best better None xs = Some c"
  shows "\<exists>ys zs. xs = ys @ c # zs \<and> (\<forall>y \<in> set ys. better c y)"
proof (cases xs)
  case Nil
  with assms show ?thesis by simp
next
  case (Cons x xs')
  with assms have "c = x \<or> (\<exists>ys zs. xs' = ys @ c # zs \<and> better c x \<and> (\<forall>y \<in> set ys. better c y))"
    using scan_from_Some_first by simp
  then show ?thesis
  proof
    assume "c = x"
    with Cons have "xs = [] @ c # xs' \<and> (\<forall>y \<in> set []. better c y)" by simp
    then show ?thesis by blast
  next
    assume "\<exists>ys zs. xs' = ys @ c # zs \<and> better c x \<and> (\<forall>y \<in> set ys. better c y)"
    then obtain ys zs where "xs' = ys @ c # zs" "better c x" "\<forall>y \<in> set ys. better c y" by blast
    with Cons have "xs = (x # ys) @ c # zs \<and> (\<forall>y \<in> set (x # ys). better c y)" by simp
    then show ?thesis by blast
  qed
qed

text \<open>The order of the list decides only between ties.\<close>

lemma scan_best_same_set:
  "set xs = set ys \<Longrightarrow> scan_best better None xs = Some a \<Longrightarrow> scan_best better None ys = Some b \<Longrightarrow>
     \<not> better a b \<and> \<not> better b a"
  by (metis scan_best_is_best)

end

text \<open>Both comparisons of the program compare a rank; that alone makes the scan one of the above.\<close>

locale ranked_scan =
  fixes better :: "'a \<Rightarrow> 'a \<Rightarrow> bool" and rank :: "'a \<Rightarrow> 'r :: linorder"
  assumes better_iff: "better x y \<longleftrightarrow> rank x < rank y"

sublocale ranked_scan \<subseteq> best_scan better
  by unfold_locales (auto simp: better_iff)

context ranked_scan
begin

lemma scan_best_least: "scan_best better None xs = Some b \<Longrightarrow> x \<in> set xs \<Longrightarrow> rank b \<le> rank x"
  using scan_best_is_best by (auto simp: better_iff not_less)

lemma scan_best_same_rank:
  "set xs = set ys \<Longrightarrow> scan_best better None xs = Some a \<Longrightarrow> scan_best better None ys = Some b \<Longrightarrow> rank a = rank b"
  using scan_best_same_set by (auto simp: better_iff not_less intro: antisym)

end

section \<open>Transition systems\<close>

text \<open>
  The interleaved models are step relations; what is proved of them is an invariant that every initial
  state has and every step keeps.
\<close>

locale transition_system =
  fixes initial :: "'s \<Rightarrow> bool" and step :: "'s \<Rightarrow> 's \<Rightarrow> bool" and inv :: "'s \<Rightarrow> bool"
  assumes initial_inv: "initial s \<Longrightarrow> inv s"
    and step_inv: "inv s \<Longrightarrow> step s s' \<Longrightarrow> inv s'"
begin

lemma steps_inv:
  assumes "step\<^sup>*\<^sup>* s s'" and "inv s"
  shows "inv s'"
  using assms by (induction rule: rtranclp_induct) (auto intro: step_inv)

lemma reachable_inv: "initial s0 \<Longrightarrow> step\<^sup>*\<^sup>* s0 s \<Longrightarrow> inv s"
  using steps_inv initial_inv by blast

text \<open>An invariant that holds now still holds after any more steps.\<close>

lemma reachable_steps_inv: "initial s0 \<Longrightarrow> step\<^sup>*\<^sup>* s0 s \<Longrightarrow> step\<^sup>*\<^sup>* s s' \<Longrightarrow> inv s'"
  using reachable_inv steps_inv by blast

end

text \<open>
  A call that takes the state only along a relation, whatever its outcome: what may happen to the outside
  while the call runs. For a relation that holds of nothing happening and of one change after another, a
  sequence of such calls is one.
\<close>

definition moves :: "('s \<Rightarrow> 's \<Rightarrow> bool) \<Rightarrow> ('s, 'e, 'a) call \<Rightarrow> bool" where
  "moves R m \<longleftrightarrow> (\<forall>s r s'. m s = (r, s') \<longrightarrow> R s s')"

lemma movesI: "(\<And>s r s'. m s = (r, s') \<Longrightarrow> R s s') \<Longrightarrow> moves R m"
  by (simp add: moves_def)

lemma movesD: "moves R m \<Longrightarrow> m s = (r, s') \<Longrightarrow> R s s'"
  by (simp add: moves_def)

locale evolution =
  fixes R :: "'s \<Rightarrow> 's \<Rightarrow> bool"
  assumes stays: "R s s"
    and goes_on: "R s t \<Longrightarrow> R t u \<Longrightarrow> R s u"
begin

lemma pure: "moves R (return_call a)" "moves R (fail_call e)" "moves R (lift_outcome r)"
  by (simp_all add: moves_def return_call_def fail_call_def lift_outcome_def stays)

lemma bind:
  assumes "moves R m" and "\<And>a. moves R (f a)"
  shows "moves R (bind_call m f)"
proof (rule movesI)
  fix s r s'
  assume b: "bind_call m f s = (r, s')"
  obtain q t where m: "m s = (q, t)" by fastforce
  have "R s t" using assms(1) m by (rule movesD)
  moreover have "R t s'"
  proof (cases q)
    case (Ok a)
    with b m have "f a t = (r, s')" by (simp add: bind_call_step)
    with assms(2) show ?thesis by (rule movesD)
  qed (use b m stays in \<open>auto simp: bind_call_step\<close>)
  ultimately show "R s s'" by (rule goes_on)
qed

lemma wrap: "moves R m \<Longrightarrow> moves R (wrap_call g m)"
  unfolding moves_def wrap_call_def by (auto split: prod.splits outcome.splits)

lemma option: "moves R a \<Longrightarrow> (\<And>x. moves R (b x)) \<Longrightarrow> moves R (case opt of None \<Rightarrow> a | Some x \<Rightarrow> b x)"
  by (cases opt) simp_all

lemma list: "moves R a \<Longrightarrow> (\<And>x xs. moves R (b x xs)) \<Longrightarrow> moves R (case ys of [] \<Rightarrow> a | x # xs \<Rightarrow> b x xs)"
  by (cases ys) simp_all

lemma branch: "moves R a \<Longrightarrow> moves R b \<Longrightarrow> moves R (if c then a else b)"
  by simp

lemmas intros = pure bind wrap option list branch

end

end
