(* ===== verification/Go_Strings.thy ===== *)
theory Go_Strings
  imports Go_Prelude "HOL-Library.Char_ord" "HOL-Library.List_Lexorder" "HOL-Library.Sublist"
begin

text \<open>
  The functions of Go's \<open>strings\<close>, \<open>sort\<close> and \<open>strconv\<close> packages that the provider uses. A Go
  string is a sequence of bytes, here a \<open>string\<close>; strings are compared byte by byte, which is the
  lexicographic order of \<open>HOL-Library.List_Lexorder\<close>. Case mapping and trimming are those of ASCII
  bytes.
\<close>

section \<open>Package strings\<close>

definition HasPrefix :: "string \<Rightarrow> string \<Rightarrow> bool" where
  "HasPrefix s p \<longleftrightarrow> take (length p) s = p"

definition TrimPrefix :: "string \<Rightarrow> string \<Rightarrow> string" where
  "TrimPrefix s p = (if HasPrefix s p then drop (length p) s else s)"

fun Contains :: "string \<Rightarrow> string \<Rightarrow> bool" where
  "Contains [] sub = (sub = [])"
| "Contains (c # s) sub = (HasPrefix (c # s) sub \<or> Contains s sub)"

definition ascii_upper :: "char \<Rightarrow> bool" where
  "ascii_upper c \<longleftrightarrow> 65 \<le> (of_char c :: nat) \<and> (of_char c :: nat) \<le> 90"

definition lower_char :: "char \<Rightarrow> char" where
  "lower_char c = (if ascii_upper c then char_of (of_char c + (32 :: nat)) else c)"

definition ToLower :: "string \<Rightarrow> string" where
  "ToLower s = map lower_char s"

definition is_space :: "char \<Rightarrow> bool" where
  "is_space c \<longleftrightarrow> (of_char c :: nat) \<in> {9, 10, 11, 12, 13, 32}"

definition TrimSpace :: "string \<Rightarrow> string" where
  "TrimSpace s = rev (dropWhile is_space (rev (dropWhile is_space s)))"

fun Join :: "string list \<Rightarrow> string \<Rightarrow> string" where
  "Join [] sep = []"
| "Join [s] sep = s"
| "Join (s # t # ss) sep = s @ sep @ Join (t # ss) sep"

lemma HasPrefix_append [simp]: "HasPrefix (p @ s) p"
  by (simp add: HasPrefix_def)

lemma HasPrefix_iff: "HasPrefix s p \<longleftrightarrow> (\<exists>t. s = p @ t)"
  by (metis HasPrefix_append HasPrefix_def append_take_drop_id)

lemma TrimPrefix_append [simp]: "TrimPrefix (p @ s) p = s"
  by (simp add: TrimPrefix_def)

lemma Contains_iff: "Contains s sub \<longleftrightarrow> (\<exists>xs ys. s = xs @ sub @ ys)"
proof (induction s sub rule: Contains.induct)
  case (1 sub)
  then show ?case by auto
next
  case (2 c s sub)
  show ?case
  proof
    assume "Contains (c # s) sub"
    then have "HasPrefix (c # s) sub \<or> Contains s sub" by simp
    then show "\<exists>xs ys. c # s = xs @ sub @ ys"
    proof
      assume "HasPrefix (c # s) sub"
      then obtain ys where "c # s = [] @ sub @ ys" by (auto simp: HasPrefix_iff)
      then show ?thesis by blast
    next
      assume "Contains s sub"
      with 2 obtain xs ys where "s = xs @ sub @ ys" by blast
      then have "c # s = (c # xs) @ sub @ ys" by simp
      then show ?thesis by blast
    qed
  next
    assume "\<exists>xs ys. c # s = xs @ sub @ ys"
    then obtain xs ys where eq: "c # s = xs @ sub @ ys" by blast
    then show "Contains (c # s) sub"
    proof (cases xs)
      case Nil
      with eq have "HasPrefix (c # s) sub" unfolding HasPrefix_iff by auto
      then show ?thesis by simp
    next
      case (Cons x xs')
      with eq have "s = xs' @ sub @ ys" by simp
      with 2 show ?thesis by auto
    qed
  qed
qed

lemma Contains_set: "Contains s sub \<Longrightarrow> set sub \<subseteq> set s"
  by (auto simp: Contains_iff)

lemma lower_char_not_upper [simp]: "\<not> ascii_upper (lower_char c)"
  by (auto simp: lower_char_def ascii_upper_def of_char_of)

lemma ToLower_no_upper: "c \<in> set (ToLower s) \<Longrightarrow> \<not> ascii_upper c"
  by (auto simp: ToLower_def)

lemma ToLower_idem [simp]: "ToLower (ToLower s) = ToLower s"
  by (simp add: ToLower_def lower_char_def [of "lower_char _"])

lemma TrimSpace_not_space_ends:
  "TrimSpace s \<noteq> [] \<Longrightarrow> \<not> is_space (hd (TrimSpace s)) \<and> \<not> is_space (last (TrimSpace s))"
proof -
  let ?t = "dropWhile is_space s"
  assume ne: "TrimSpace s \<noteq> []"
  have t: "?t \<noteq> []"
  proof
    assume "?t = []"
    then have "TrimSpace s = []" by (simp only: TrimSpace_def) simp
    with ne show False ..
  qed
  have r: "TrimSpace s = rev (dropWhile is_space (rev ?t))" by (simp add: TrimSpace_def)
  with ne have dw: "dropWhile is_space (rev ?t) \<noteq> []" by auto
  have "last (TrimSpace s) = hd (dropWhile is_space (rev ?t))"
    using dw r by (simp add: last_rev)
  moreover obtain k where "rev ?t = k @ dropWhile is_space (rev ?t)"
    by (metis takeWhile_dropWhile_id)
  then have "?t = TrimSpace s @ rev k"
    using r by (metis rev_append rev_rev_ident)
  then have "hd (TrimSpace s) = hd ?t" using ne by (metis hd_append2)
  ultimately show ?thesis
    using hd_dropWhile [OF dw] hd_dropWhile [OF t] by simp
qed

section \<open>Sorting and map keys\<close>

text \<open>\<open>sort.Strings\<close> on the keys of a map: the same keys give the same list, whatever their order.\<close>

lemma sort_keys_unique:
  fixes m n :: "(string \<times> 'v) list"
  assumes "go_map_ok m" "go_map_ok n" "map_of m = map_of n"
  shows "sort (map fst m) = sort (map fst n)"
proof -
  have "set m = set n" by (rule go_map_same_entries [OF assms])
  then have "set (map fst m) = set (map fst n)" by simp
  with assms show ?thesis
    by (intro sorted_distinct_set_unique) (auto simp: go_map_ok_def)
qed

section \<open>Decimal integers\<close>

definition digit_char :: "int \<Rightarrow> char" where
  "digit_char d = char_of (48 + d)"

definition is_digit :: "char \<Rightarrow> bool" where
  "is_digit c \<longleftrightarrow> 48 \<le> (of_char c :: int) \<and> (of_char c :: int) \<le> 57"

definition digit_val :: "char \<Rightarrow> int" where
  "digit_val c = of_char c - 48"

function int_digits :: "int \<Rightarrow> string" where
  "int_digits n = (if n < 10 then [digit_char n] else int_digits (n div 10) @ [digit_char (n mod 10)])"
  by pat_completeness auto
termination
  by (relation "measure nat") auto

declare int_digits.simps [simp del]

text \<open>\<open>strconv.FormatInt(i, 10)\<close> on an \<open>int64\<close>.\<close>

definition FormatInt :: "int64 \<Rightarrow> string" where
  "FormatInt i = (if sint i < 0 then ''-'' @ int_digits (- sint i) else int_digits (sint i))"

text \<open>
  \<open>strconv.ParseInt(s, 10, 64)\<close>: an optional sign, then at least one decimal digit. Digits are read
  into a \<open>uint64\<close>, and a number that leaves its range is reported before a later syntax error.
\<close>

datatype num_error = ErrSyntax | ErrRange

fun parse_digits :: "string \<Rightarrow> int \<Rightarrow> (num_error, int) outcome" where
  "parse_digits [] n = Ok n"
| "parse_digits (c # cs) n =
     (if \<not> is_digit c then Err ErrSyntax
      else if 2 ^ 64 \<le> n * 10 + digit_val c then Err ErrRange
      else parse_digits cs (n * 10 + digit_val c))"

definition ParseUint :: "string \<Rightarrow> (num_error, int) outcome" where
  "ParseUint s = (if s = [] then Err ErrSyntax else parse_digits s 0)"

definition sign_rest :: "string \<Rightarrow> bool \<times> string" where
  "sign_rest s = (case s of
       [] \<Rightarrow> (False, [])
     | c # cs \<Rightarrow> if c = CHR ''+'' then (False, cs) else if c = CHR ''-'' then (True, cs) else (False, s))"

definition ParseInt :: "string \<Rightarrow> (num_error, int64) outcome" where
  "ParseInt s = (case sign_rest s of (neg, ds) \<Rightarrow>
     (case ParseUint ds of
        Err e \<Rightarrow> Err e
      | Panic \<Rightarrow> Panic
      | Ok un \<Rightarrow>
          if \<not> neg \<and> 2 ^ 63 \<le> un then Err ErrRange
          else if neg \<and> 2 ^ 63 < un then Err ErrRange
          else Ok (word_of_int (if neg then - un else un))))"

lemma digit_char_val: "0 \<le> d \<Longrightarrow> d < 10 \<Longrightarrow> digit_val (digit_char d) = d"
  by (simp add: digit_val_def digit_char_def of_char_of)

lemma digit_char_is_digit: "0 \<le> d \<Longrightarrow> d < 10 \<Longrightarrow> is_digit (digit_char d)"
  by (simp add: is_digit_def digit_char_def of_char_of)

lemma int_digits_ne: "int_digits n \<noteq> []"
  by (subst int_digits.simps) simp

lemma int_digits_all_digits: "0 \<le> n \<Longrightarrow> \<forall>c \<in> set (int_digits n). is_digit c"
proof (induction n rule: int_digits.induct)
  case (1 n)
  show ?case
  proof (cases "n < 10")
    case True
    with 1 show ?thesis by (simp add: int_digits.simps [of n] digit_char_is_digit)
  next
    case False
    with 1 show ?thesis by (simp add: int_digits.simps [of n] digit_char_is_digit)
  qed
qed

lemma parse_int_digits:
  "0 \<le> n \<Longrightarrow> n < 2 ^ 64 \<Longrightarrow> parse_digits (int_digits n @ cs) 0 = parse_digits cs n"
proof (induction n arbitrary: cs rule: int_digits.induct)
  case (1 n)
  show ?case
  proof (cases "n < 10")
    case True
    with 1 show ?thesis
      by (simp add: int_digits.simps [of n] digit_char_is_digit digit_char_val)
  next
    case False
    have lt: "0 \<le> n div 10" "n div 10 < 2 ^ 64" using False "1.prems" by simp_all
    have "n div 10 * 10 + n mod 10 = n" by simp
    with False "1.IH" [OF _ lt] "1.prems" show ?thesis
      by (simp add: int_digits.simps [of n] digit_char_is_digit digit_char_val)
  qed
qed

lemma ParseUint_int_digits: "0 \<le> n \<Longrightarrow> n < 2 ^ 64 \<Longrightarrow> ParseUint (int_digits n) = Ok n"
  using parse_int_digits [of n "[]"] by (simp add: ParseUint_def int_digits_ne)

lemma sign_rest_digits: "\<forall>c \<in> set s. is_digit c \<Longrightarrow> sign_rest s = (False, s)"
  by (cases s) (auto simp: sign_rest_def is_digit_def)

lemma sint64_range:
  "- 9223372036854775808 \<le> sint (i :: int64)" "sint (i :: int64) < 9223372036854775808"
  using sint_ge [of i] sint_lt [of i] by simp_all

text \<open>Parsing what was formatted gives the same 64-bit integer, the most negative one included.\<close>

lemma ParseInt_FormatInt: "ParseInt (FormatInt i) = Ok i"
proof (cases "sint i < 0")
  case True
  then have "ParseUint (int_digits (- sint i)) = Ok (- sint i)"
    using sint64_range [of i] by (intro ParseUint_int_digits) auto
  with True sint64_range [of i] show ?thesis
    by (simp add: ParseInt_def FormatInt_def sign_rest_def)
next
  case False
  then have "ParseUint (int_digits (sint i)) = Ok (sint i)"
    using sint64_range [of i] by (intro ParseUint_int_digits) auto
  moreover have "sign_rest (int_digits (sint i)) = (False, int_digits (sint i))"
    using False by (intro sign_rest_digits int_digits_all_digits) simp
  ultimately show ?thesis using False sint64_range [of i]
    by (simp add: ParseInt_def FormatInt_def)
qed

lemma FormatInt_inj: "FormatInt i = FormatInt j \<Longrightarrow> i = j"
  by (metis ParseInt_FormatInt outcome.inject(1))

text \<open>A string is accepted only if it is an optional sign and a nonempty run of digits.\<close>

lemma parse_digits_ok: "parse_digits s n = Ok m \<Longrightarrow> \<forall>c \<in> set s. is_digit c"
proof (induction s arbitrary: n)
  case Nil
  then show ?case by simp
next
  case (Cons c cs)
  from Cons.prems have "is_digit c" by (cases "is_digit c") simp_all
  moreover from Cons.prems this have "parse_digits cs (n * 10 + digit_val c) = Ok m"
    by (cases "2 ^ 64 \<le> n * 10 + digit_val c") simp_all
  then have "\<forall>c \<in> set cs. is_digit c" by (rule Cons.IH)
  ultimately show ?case by simp
qed

lemma ParseInt_ok:
  assumes "ParseInt s = Ok i"
  shows "\<exists>neg ds. sign_rest s = (neg, ds) \<and> ds \<noteq> [] \<and> (\<forall>c \<in> set ds. is_digit c)"
proof -
  obtain neg ds where sr: "sign_rest s = (neg, ds)" by (cases "sign_rest s")
  with assms obtain un where un: "ParseUint ds = Ok un"
    by (auto simp: ParseInt_def split: outcome.splits)
  then have "ds \<noteq> []" and "parse_digits ds 0 = Ok un"
    by (auto simp: ParseUint_def split: if_splits)
  with parse_digits_ok [of ds 0 un] sr show ?thesis by auto
qed

end
