(* ===== verification/Go_Numbers.thy ===== *)
theory Go_Numbers
  imports Complex_Main Go_Strings "HOL-Library.Log_Nat"
begin

text \<open>
  Go's \<open>float64\<close> arithmetic, and \<open>strconv.ParseFloat\<close> and \<open>time.ParseDuration\<close> on top of it. A
  finite \<open>float64\<close> is the rational number it stands for; every operation computes the exact result
  and rounds it to the nearest binary64 value, ties to even, with gradual underflow. The two zeros
  are one value, since nothing in the provider tells them apart.
\<close>

section \<open>IEEE 754 binary64\<close>

datatype f64 = F64_NaN | F64_Inf bool | F64_Fin rat

definition pow2 :: "int \<Rightarrow> rat" where
  "pow2 k = (if 0 \<le> k then 2 ^ nat k else 1 / 2 ^ nat (- k))"

definition floor_log2 :: "rat \<Rightarrow> int" where
  "floor_log2 q = (case quotient_of q of (n, d) \<Rightarrow>
     (let k = bitlen n - bitlen d in if pow2 k \<le> q then k else k - 1))"

definition round_half_even :: "rat \<Rightarrow> int" where
  "round_half_even q = (let f = \<lfloor>q\<rfloor>; r = q - of_int f in
     if r < 1 / 2 then f else if 1 / 2 < r then f + 1 else if even f then f else f + 1)"

text \<open>The exponent of the unit in the last place: 53 bits of precision, subnormals below \<open>2^-1022\<close>.\<close>

definition ulp_exp :: "rat \<Rightarrow> int" where
  "ulp_exp a = max (floor_log2 a) (- 1022) - 52"

definition f64_round :: "rat \<Rightarrow> f64" where
  "f64_round q =
     (if q = 0 then F64_Fin 0
      else (let a = \<bar>q\<bar>;
                e = ulp_exp a;
                v = of_int (round_half_even (a / pow2 e)) * pow2 e
            in if pow2 1024 \<le> v then F64_Inf (q < 0) else F64_Fin (if q < 0 then - v else v)))"

fun f64_mul :: "f64 \<Rightarrow> f64 \<Rightarrow> f64" where
  "f64_mul F64_NaN b = F64_NaN"
| "f64_mul a F64_NaN = F64_NaN"
| "f64_mul (F64_Inf n) (F64_Inf m) = F64_Inf (n \<noteq> m)"
| "f64_mul (F64_Inf n) (F64_Fin q) = (if q = 0 then F64_NaN else F64_Inf (n \<noteq> (q < 0)))"
| "f64_mul (F64_Fin q) (F64_Inf n) = (if q = 0 then F64_NaN else F64_Inf (n \<noteq> (q < 0)))"
| "f64_mul (F64_Fin p) (F64_Fin q) = f64_round (p * q)"

fun f64_div :: "f64 \<Rightarrow> f64 \<Rightarrow> f64" where
  "f64_div F64_NaN b = F64_NaN"
| "f64_div a F64_NaN = F64_NaN"
| "f64_div (F64_Inf n) (F64_Inf m) = F64_NaN"
| "f64_div (F64_Inf n) (F64_Fin q) = F64_Inf (n \<noteq> (q < 0))"
| "f64_div (F64_Fin q) (F64_Inf n) = F64_Fin 0"
| "f64_div (F64_Fin p) (F64_Fin q) =
     (if q = 0 then (if p = 0 then F64_NaN else F64_Inf (p < 0)) else f64_round (p / q))"

fun f64_pos :: "f64 \<Rightarrow> bool" where
  "f64_pos F64_NaN = False"
| "f64_pos (F64_Inf n) = (\<not> n)"
| "f64_pos (F64_Fin q) = (0 < q)"

fun f64_is_inf :: "f64 \<Rightarrow> bool" where
  "f64_is_inf F64_NaN = False"
| "f64_is_inf (F64_Inf n) = True"
| "f64_is_inf (F64_Fin q) = False"

lemma pow2_pos [simp]: "0 < pow2 k"
  by (simp add: pow2_def)

lemma pow2_nonneg [simp]: "0 \<le> pow2 k"
  using pow2_pos [of k] by linarith

lemma pow2_double: "k < 0 \<Longrightarrow> pow2 (k + 1) = 2 * pow2 k"
proof -
  assume "k < 0"
  then have "nat (- k) = Suc (nat (- (k + 1)))" by simp
  with \<open>k < 0\<close> show ?thesis by (auto simp: pow2_def)
qed

lemma pow2_mono: "k \<le> l \<Longrightarrow> pow2 k \<le> pow2 l"
proof -
  assume "k \<le> l"
  consider "0 \<le> k" | "k < 0" "0 \<le> l" | "l < 0" by linarith
  then show ?thesis
  proof cases
    case 1
    with \<open>k \<le> l\<close> show ?thesis by (simp add: pow2_def power_increasing)
  next
    case 2
    have "1 / 2 ^ nat (- k) \<le> (1 :: rat)" by simp
    also have "\<dots> \<le> 2 ^ nat l" by simp
    finally show ?thesis using 2 by (simp add: pow2_def)
  next
    case 3
    with \<open>k \<le> l\<close> have "(2 :: rat) ^ nat (- l) \<le> 2 ^ nat (- k)"
      by (intro power_increasing) auto
    with 3 \<open>k \<le> l\<close> show ?thesis by (simp add: pow2_def frac_le)
  qed
qed

lemma round_half_even_ge_floor: "\<lfloor>q\<rfloor> \<le> round_half_even q"
  by (simp add: round_half_even_def Let_def)

lemma round_half_even_le: "of_int (round_half_even q) \<le> q + 1"
proof -
  have "round_half_even q \<le> \<lfloor>q\<rfloor> + 1" by (simp add: round_half_even_def Let_def)
  then have "(of_int (round_half_even q) :: rat) \<le> of_int (\<lfloor>q\<rfloor> + 1)" by (simp only: of_int_le_iff)
  also have "\<dots> \<le> q + 1" by simp
  finally show ?thesis .
qed

lemma round_half_even_pos: "1 / 2 < q \<Longrightarrow> 0 < round_half_even q"
proof -
  assume q: "1 / 2 < q"
  show ?thesis
  proof (cases "1 \<le> q")
    case True
    then have "1 \<le> \<lfloor>q\<rfloor>" by simp
    with round_half_even_ge_floor [of q] show ?thesis by linarith
  next
    case False
    with q have "\<lfloor>q\<rfloor> = 0" by (simp add: floor_eq_iff)
    with q show ?thesis by (simp add: round_half_even_def Let_def)
  qed
qed

lemma round_half_even_of_int [simp]: "round_half_even (of_int z) = z"
  by (simp add: round_half_even_def)

lemma f64_round_eq:
  "0 < q \<Longrightarrow> f64_round q = F64_Fin v \<Longrightarrow> v = of_int (round_half_even (q / pow2 (ulp_exp q))) * pow2 (ulp_exp q)"
  by (simp add: f64_round_def Let_def split: if_splits)

text \<open>Rounding keeps the sign of a nonnegative number.\<close>

lemma f64_round_nonneg: "0 \<le> q \<Longrightarrow> f64_round q = F64_Fin v \<Longrightarrow> 0 \<le> v"
proof (cases "q = 0")
  case True
  then show "f64_round q = F64_Fin v \<Longrightarrow> 0 \<le> v" by (simp add: f64_round_def)
next
  case False
  assume "0 \<le> q" and r: "f64_round q = F64_Fin v"
  with False have q: "0 < q" by simp
  then have "0 \<le> \<lfloor>q / pow2 (ulp_exp q)\<rfloor>" by simp
  also have "\<dots> \<le> round_half_even (q / pow2 (ulp_exp q))" by (rule round_half_even_ge_floor)
  finally have "0 \<le> round_half_even (q / pow2 (ulp_exp q))" .
  with f64_round_eq [OF q r] show ?thesis by simp
qed

text \<open>\<open>floor_log2\<close> is a lower bound: \<open>2^floor_log2 q \<le> q\<close>.\<close>

lemma bitlen_pos_bounds:
  assumes "0 < (n :: int)"
  shows "2 ^ nat (bitlen n - 1) \<le> n" "n < 2 ^ nat (bitlen n)" "1 \<le> bitlen n"
  using bitlen_bounds [OF assms] bitlen_ge_iff_power [of 1 n] assms by auto

lemma floor_log2_le:
  assumes "0 < q"
  shows "pow2 (floor_log2 q) \<le> q"
proof -
  obtain n d where nd: "quotient_of q = (n, d)" by (cases "quotient_of q")
  then have d: "0 < d" and q: "q = of_int n / of_int d"
    using quotient_of_denom_pos quotient_of_div by auto
  with assms have n: "0 < n" by (simp add: zero_less_divide_iff)
  let ?k = "bitlen n - bitlen d"
  have "pow2 (?k - 1) \<le> q"
  proof -
    have "(2 :: rat) ^ nat (bitlen n - 1) \<le> of_int n"
      using bitlen_pos_bounds(1) [OF n] by (metis of_int_le_iff of_int_numeral of_int_power)
    moreover have "(of_int d :: rat) \<le> 2 ^ nat (bitlen d)"
      using bitlen_pos_bounds(2) [OF d] by (metis less_imp_le of_int_le_iff of_int_numeral of_int_power)
    ultimately have "2 ^ nat (bitlen n - 1) / 2 ^ nat (bitlen d) \<le> q"
      unfolding q using d n by (intro frac_le) auto
    moreover have "pow2 (?k - 1) = 2 ^ nat (bitlen n - 1) / 2 ^ nat (bitlen d)"
      using bitlen_pos_bounds(3) [OF n] bitlen_pos_bounds(3) [OF d]
      by (auto simp: pow2_def nat_diff_distrib divide_simps power_add [symmetric])
    ultimately show ?thesis by simp
  qed
  with nd show ?thesis by (simp add: floor_log2_def Let_def)
qed

text \<open>
  A number of at least half the smallest subnormal, \<open>2^-1075\<close>, does not round to zero unless it is
  that half exactly (which rounds to the even neighbour, zero).
\<close>

lemma f64_round_pos:
  assumes "pow2 (- 1075) < q" and r: "f64_round q = F64_Fin v"
  shows "0 < v"
proof -
  have q: "0 < q" using assms(1) pow2_pos [of "- 1075"] by linarith
  have "1 / 2 < q / pow2 (ulp_exp q)"
  proof (cases "- 1022 \<le> floor_log2 q")
    case True
    have "pow2 (ulp_exp q) < 2 * q"
    proof -
      have "pow2 (ulp_exp q) \<le> pow2 (floor_log2 q)" using True by (intro pow2_mono) (simp add: ulp_exp_def)
      also have "\<dots> \<le> q" by (rule floor_log2_le [OF q])
      finally show ?thesis using q by linarith
    qed
    then show ?thesis by (simp add: field_simps)
  next
    case False
    then have "ulp_exp q = - 1074" by (simp add: ulp_exp_def)
    moreover have "pow2 (- 1074) = 2 * pow2 (- 1075)" using pow2_double [of "- 1075"] by simp
    ultimately show ?thesis using assms(1) by (simp add: field_simps)
  qed
  then have "0 < round_half_even (q / pow2 (ulp_exp q))" by (rule round_half_even_pos)
  then show ?thesis using f64_round_eq [OF q r] by simp
qed

lemma pow2_add: "pow2 (a + b) = pow2 a * pow2 b"
proof -
  have "pow2 k = 2 powi k" for k
    by (simp add: pow2_def power_int_def field_simps)
  then show ?thesis by (simp add: power_int_add)
qed

text \<open>A number that binary64 can represent is not changed by rounding.\<close>

lemma f64_round_exact:
  assumes q: "0 < q" "q = of_int k * pow2 e" and k: "k < 2 ^ 53" and e: "- 1074 \<le> e" and big: "q < pow2 1024"
  shows "f64_round q = F64_Fin q"
proof -
  have "q < 2 ^ 53 * pow2 e"
    unfolding q(2) using k by (intro mult_strict_right_mono) (simp_all)
  also have "\<dots> = pow2 (53 + e)" by (simp add: pow2_add) (simp add: pow2_def)
  finally have "pow2 (floor_log2 q) < pow2 (53 + e)"
    using floor_log2_le [OF q(1)] by linarith
  then have "floor_log2 q < 53 + e" using pow2_mono [of "53 + e" "floor_log2 q"] by linarith
  with e have u: "ulp_exp q \<le> e" by (simp add: ulp_exp_def)
  have "pow2 e = pow2 (e - ulp_exp q) * pow2 (ulp_exp q)" by (simp add: pow2_add [symmetric])
  moreover have "pow2 (e - ulp_exp q) = of_int (2 ^ nat (e - ulp_exp q))" using u by (simp add: pow2_def)
  moreover define j where "j = k * 2 ^ nat (e - ulp_exp q)"
  ultimately have j: "q = of_int j * pow2 (ulp_exp q)" using q(2) by simp
  then have "q / pow2 (ulp_exp q) = of_int j"
    using less_imp_neq [OF pow2_pos [of "ulp_exp q"]] by (simp add: field_simps)
  then have "of_int (round_half_even (q / pow2 (ulp_exp q))) * pow2 (ulp_exp q) = q"
    using j by simp
  with q(1) big show ?thesis by (simp add: f64_round_def Let_def)
qed

end
