(* ===== verification/Go_Parse.thy ===== *)
theory Go_Parse
  imports Go_Numbers
begin

text \<open>
  \<open>strconv.ParseFloat(s, 64)\<close> and \<open>time.ParseDuration(s)\<close>, as the Go standard library reads their
  input. Both results keep only what the provider looks at: the value, or that there was an error.
\<close>

section \<open>strconv.ParseFloat\<close>

definition hex_letter :: "char \<Rightarrow> bool" where
  "hex_letter c \<longleftrightarrow> 97 \<le> (of_char (lower_char c) :: int) \<and> (of_char (lower_char c) :: int) \<le> 102"

definition mant_digit :: "bool \<Rightarrow> char \<Rightarrow> int option" where
  "mant_digit hex c =
     (if is_digit c then Some (digit_val c)
      else if hex \<and> hex_letter c then Some (of_char (lower_char c) - 87) else None)"

text \<open>
  The mantissa: digits with at most one point, underscores skipped. The result is the number read
  without the point, the count of digits after the point, whether any digit was seen, and the rest.
\<close>

fun scan_mant :: "bool \<Rightarrow> bool \<Rightarrow> int \<Rightarrow> nat \<Rightarrow> bool \<Rightarrow> string \<Rightarrow> int \<times> nat \<times> bool \<times> string" where
  "scan_mant hex dot m fr seen [] = (m, fr, seen, [])"
| "scan_mant hex dot m fr seen (c # cs) =
     (if c = CHR ''_'' then scan_mant hex dot m fr seen cs
      else if c = CHR ''.'' then
        (if dot then (m, fr, seen, c # cs) else scan_mant hex True m fr seen cs)
      else (case mant_digit hex c of
          None \<Rightarrow> (m, fr, seen, c # cs)
        | Some d \<Rightarrow> scan_mant hex dot ((if hex then 16 else 10) * m + d)
                     (if dot then Suc fr else fr) True cs))"

fun scan_exp_digits :: "int \<Rightarrow> string \<Rightarrow> int \<times> string" where
  "scan_exp_digits e [] = (e, [])"
| "scan_exp_digits e (c # cs) =
     (if c = CHR ''_'' then scan_exp_digits e cs
      else if is_digit c then scan_exp_digits (if e < 10000 then e * 10 + digit_val c else e) cs
      else (e, c # cs))"

definition scan_exp :: "string \<Rightarrow> (int \<times> string) option" where
  "scan_exp s = (case sign_rest s of (neg, ds) \<Rightarrow>
     (case ds of
        [] \<Rightarrow> None
      | c # cs \<Rightarrow>
          if is_digit c
          then (case scan_exp_digits 0 ds of (e, rest) \<Rightarrow> Some (if neg then - e else e, rest))
          else None))"

datatype underscore_state = Us_Start | Us_Digit | Us_Underscore | Us_Other

fun underscores_from :: "bool \<Rightarrow> underscore_state \<Rightarrow> string \<Rightarrow> bool" where
  "underscores_from hex st [] = (st \<noteq> Us_Underscore)"
| "underscores_from hex st (c # cs) =
     (if is_digit c \<or> hex \<and> hex_letter c then underscores_from hex Us_Digit cs
      else if c = CHR ''_'' then st = Us_Digit \<and> underscores_from hex Us_Underscore cs
      else st \<noteq> Us_Underscore \<and> underscores_from hex Us_Other cs)"

definition underscoreOK :: "string \<Rightarrow> bool" where
  "underscoreOK s = (let t = snd (sign_rest s) in
     (case t of
        z # p # cs \<Rightarrow>
          if z = CHR ''0'' \<and> lower_char p \<in> {CHR ''b'', CHR ''o'', CHR ''x''}
          then underscores_from (lower_char p = CHR ''x'') Us_Digit cs
          else underscores_from False Us_Start t
      | _ \<Rightarrow> underscores_from False Us_Start t))"

definition float_special :: "string \<Rightarrow> f64 option" where
  "float_special s =
     (let l = ToLower s; (neg, r) = sign_rest l in
      if l = ''nan'' then Some F64_NaN
      else if r = ''inf'' \<or> r = ''infinity'' then Some (F64_Inf neg) else None)"

text \<open>The exact number a well-formed literal denotes.\<close>

definition read_float :: "string \<Rightarrow> rat option" where
  "read_float s =
     (let (neg, t) = sign_rest s;
          hex = (case t of z # x # _ # _ \<Rightarrow> z = CHR ''0'' \<and> lower_char x = CHR ''x'' | _ \<Rightarrow> False);
          (m, fr, seen, rest) = scan_mant hex False 0 0 False (if hex then drop 2 t else t);
          expchar = (if hex then CHR ''p'' else CHR ''e'');
          tail = (case rest of
                    [] \<Rightarrow> if hex then None else Some 0
                  | c # cs \<Rightarrow>
                      if lower_char c = expchar
                      then (case scan_exp cs of Some (e, []) \<Rightarrow> Some e | _ \<Rightarrow> None) else None)
      in if \<not> seen \<or> CHR ''_'' \<in> set s \<and> \<not> underscoreOK s then None
         else map_option (\<lambda>e.
           (if neg then - 1 else 1) * of_int m *
             (if hex then pow2 (e - 4 * int fr)
              else (if int fr \<le> e then 10 ^ nat (e - int fr) else 1 / 10 ^ nat (int fr - e)))) tail)"

text \<open>An overflow to infinity of a literal is an error too (\<open>ErrRange\<close>).\<close>

definition ParseFloat :: "string \<Rightarrow> f64 option" where
  "ParseFloat s =
     (case float_special s of
        Some v \<Rightarrow> Some v
      | None \<Rightarrow>
          (case read_float s of
             None \<Rightarrow> None
           | Some q \<Rightarrow> (let v = f64_round q in if f64_is_inf v then None else Some v)))"

section \<open>time.ParseDuration\<close>

text \<open>\<open>leadingInt\<close>: the decimal prefix, \<open>None\<close> when it exceeds \<open>2^63\<close>.\<close>

fun leading_int :: "int \<Rightarrow> string \<Rightarrow> (int \<times> string) option" where
  "leading_int x [] = Some (x, [])"
| "leading_int x (c # cs) =
     (if \<not> is_digit c then Some (x, c # cs)
      else if 2 ^ 63 div 10 < x then None
      else if 2 ^ 63 < x * 10 + digit_val c then None
      else leading_int (x * 10 + digit_val c) cs)"

text \<open>\<open>leadingFraction\<close>: digits beyond the range are dropped, the scale is a \<open>float64\<close>.\<close>

fun leading_fraction :: "int \<Rightarrow> f64 \<Rightarrow> bool \<Rightarrow> string \<Rightarrow> int \<times> f64 \<times> string" where
  "leading_fraction x sc over [] = (x, sc, [])"
| "leading_fraction x sc over (c # cs) =
     (if \<not> is_digit c then (x, sc, c # cs)
      else if over \<or> (2 ^ 63 - 1) div 10 < x \<or> 2 ^ 63 < x * 10 + digit_val c
           then leading_fraction x sc True cs
      else leading_fraction (x * 10 + digit_val c) (f64_mul sc (F64_Fin 10)) False cs)"

definition unit_map :: "string \<Rightarrow> int option" where
  "unit_map u =
     (if u = ''ns'' then Some 1
      else if u = ''us'' \<or> u = [CHR 0xC2, CHR 0xB5, CHR ''s''] \<or> u = [CHR 0xCE, CHR 0xBC, CHR ''s'']
           then Some 1000
      else if u = ''ms'' then Some 1000000
      else if u = ''s'' then Some 1000000000
      else if u = ''m'' then Some 60000000000
      else if u = ''h'' then Some 3600000000000 else None)"

definition num_start :: "char \<Rightarrow> bool" where
  "num_start c \<longleftrightarrow> c = CHR ''.'' \<or> is_digit c"

text \<open>\<open>uint64(float64(f) * (float64(unit) / scale))\<close>, truncated towards zero.\<close>

definition fraction_part :: "int \<Rightarrow> int \<Rightarrow> f64 \<Rightarrow> int" where
  "fraction_part f u sc =
     (case f64_mul (f64_round (of_int f)) (f64_div (f64_round (of_int u)) sc) of
        F64_Fin q \<Rightarrow> \<lfloor>q\<rfloor>
      | _ \<Rightarrow> 0)"

text \<open>
  One number and its unit: the value in nanoseconds and the rest of the string. The intermediate
  values never exceed \<open>2^63\<close> and a few hours of nanoseconds, so only the final sum can wrap.
\<close>

definition duration_term :: "string \<Rightarrow> (int \<times> string) option" where
  "duration_term s =
     (if s = [] \<or> \<not> num_start (hd s) then None
      else case leading_int 0 s of
        None \<Rightarrow> None
      | Some (v, s1) \<Rightarrow>
          (let pre = (length s1 \<noteq> length s);
               dot = (s1 \<noteq> [] \<and> hd s1 = CHR ''.'');
               (f, sc, s2) = (if dot then leading_fraction 0 (F64_Fin 1) False (tl s1)
                              else (0, F64_Fin 1, s1));
               post = (dot \<and> length s2 \<noteq> length (tl s1));
               u = takeWhile (\<lambda>c. \<not> num_start c) s2
           in if \<not> pre \<and> \<not> post then None
              else if u = [] then None
              else case unit_map u of
                None \<Rightarrow> None
              | Some unit \<Rightarrow>
                  if 2 ^ 63 div unit < v then None
                  else (let v' = v * unit + (if 0 < f then fraction_part f unit sc else 0)
                        in if 2 ^ 63 < v' then None else Some (v', drop (length u) s2))))"

lemma leading_int_shorter: "leading_int x s = Some (v, r) \<Longrightarrow> length r \<le> length s"
  by (induction x s rule: leading_int.induct) (force split: if_splits)+

lemma leading_fraction_shorter: "leading_fraction x sc b s = (f, sc', r) \<Longrightarrow> length r \<le> length s"
  by (induction x sc b s rule: leading_fraction.induct) (force split: if_splits)+

lemma duration_term_shorter:
  assumes "duration_term s = Some (v, r)"
  shows "length r < length s"
proof -
  obtain w s1 where li: "leading_int 0 s = Some (w, s1)"
    using assms by (auto simp: duration_term_def split: if_splits option.splits)
  obtain f sc s2 where fr: "(if s1 \<noteq> [] \<and> hd s1 = CHR ''.''
      then leading_fraction 0 (F64_Fin 1) False (tl s1) else (0, F64_Fin 1, s1)) = (f, sc, s2)"
    by (cases "if s1 \<noteq> [] \<and> hd s1 = CHR ''.''
      then leading_fraction 0 (F64_Fin 1) False (tl s1) else (0, F64_Fin 1, s1)")
  let ?u = "takeWhile (\<lambda>c. \<not> num_start c) s2"
  have r: "?u \<noteq> []" "r = drop (length ?u) s2"
    using assms li fr
    by (auto simp: duration_term_def Let_def split: if_splits option.splits)
  have "length s1 \<le> length s" by (rule leading_int_shorter [OF li])
  moreover have "length s2 \<le> length s1"
    using fr leading_fraction_shorter [of 0 "F64_Fin 1" False "tl s1" f sc s2]
    by (auto split: if_splits)
  moreover have "length s2 - length ?u < length s2" using r(1) by (cases s2) auto
  ultimately show ?thesis using r(2) by simp
qed

function duration_sum :: "string \<Rightarrow> int \<Rightarrow> int option" where
  "duration_sum s d =
     (if s = [] then Some d
      else case duration_term s of
        None \<Rightarrow> None
      | Some (v, r) \<Rightarrow>
          (let d' = (d + v) mod 2 ^ 64 in if 2 ^ 63 < d' then None else duration_sum r d'))"
  by pat_completeness auto
termination
  by (relation "measure (\<lambda>(s, d). length s)") (auto dest: duration_term_shorter)

declare duration_sum.simps [simp del]

definition ParseDuration :: "string \<Rightarrow> duration option" where
  "ParseDuration s =
     (case sign_rest s of (neg, t) \<Rightarrow>
        if t = ''0'' then Some 0
        else if t = [] then None
        else case duration_sum t 0 of
          None \<Rightarrow> None
        | Some d \<Rightarrow>
            if neg then Some (- d) else if 2 ^ 63 - 1 < d then None else Some d)"

end
