(* ===== verification/Errors.thy ===== *)
theory Errors
  imports Go_Strings
begin

text \<open>
  The errors of the program as values: those the SDK and the API server return, those
  \<open>fmt.Errorf\<close> builds (the format string with its arguments, rendering is not modelled), the typed
  errors karpenter core and the image provider act on, and \<open>errors.Join\<close>. \<open>errors.As\<close> walks the
  chain of \<open>%w\<close> wraps and joins.
\<close>

section \<open>Errors of the libraries\<close>

text \<open>The hcloud error codes the provider tells apart.\<close>

datatype hcloud_code =
    ErrorCodeNotFound
  | ErrorCodeResourceUnavailable
  | ErrorCodeResourceLimitExceeded
  | ErrorCodeInvalidInput
  | ErrorCodeOther string

record hcloud_error =
  he_Code :: hcloud_code
  he_Message :: string

text \<open>
  An error returned by the hcloud SDK: the \<open>hcloud.Error\<close> that \<open>errors.As\<close> finds in it, if there is
  one (a network failure or an expired context holds none), and its text.
\<close>

datatype sdk_error = SdkError (sdk_as_hcloud: "hcloud_error option") (sdk_text: string)

definition hcloud_IsError :: "sdk_error \<Rightarrow> hcloud_code \<Rightarrow> bool" where
  "hcloud_IsError e c \<longleftrightarrow> (case sdk_as_hcloud e of None \<Rightarrow> False | Some h \<Rightarrow> he_Code h = c)"

text \<open>An error of the API server's client; only \<open>apierrors.IsNotFound\<close> is ever asked of it.\<close>

datatype kube_error = KubeNotFound string | KubeOther string

fun kube_IsNotFound :: "kube_error \<Rightarrow> bool" where
  "kube_IsNotFound (KubeNotFound t) = True"
| "kube_IsNotFound (KubeOther t) = False"

section \<open>Errors of the program\<close>

text \<open>
  \<open>ErrNum\<close> is the error of \<open>strconv.ParseInt\<close> and \<open>ErrDuration\<close> that of \<open>time.ParseDuration\<close> on the given
  string; neither text is ever looked at.
\<close>

datatype fmt_arg = AStr string | AInt int64

datatype err =
    ErrText string "fmt_arg list"
  | ErrWrap string "fmt_arg list" err
  | ErrSdk sdk_error
  | ErrKube kube_error
  | ErrNum num_error
  | ErrDuration string
  | ErrPermanent err
  | ErrNodeClaimNotFound err
  | ErrInsufficientCapacity err
  | ErrNodeClassNotReady err
  | ErrJoin "err list"

text \<open>
  The error itself and what \<open>Unwrap\<close> reaches. The typed errors embed the \<open>error\<close> interface, which
  has no \<open>Unwrap\<close> method to promote, so the walk stops at them.
\<close>

fun err_chain :: "err \<Rightarrow> err list" where
  "err_chain (ErrWrap f args e) = ErrWrap f args e # err_chain e"
| "err_chain (ErrJoin es) = ErrJoin es # concat (map err_chain es)"
| "err_chain e = [e]"

fun is_ErrPermanent :: "err \<Rightarrow> bool" where
  "is_ErrPermanent (ErrPermanent e) = True"
| "is_ErrPermanent _ = False"

fun is_ErrNodeClaimNotFound :: "err \<Rightarrow> bool" where
  "is_ErrNodeClaimNotFound (ErrNodeClaimNotFound e) = True"
| "is_ErrNodeClaimNotFound _ = False"

fun is_ErrInsufficientCapacity :: "err \<Rightarrow> bool" where
  "is_ErrInsufficientCapacity (ErrInsufficientCapacity e) = True"
| "is_ErrInsufficientCapacity _ = False"

fun is_ErrNodeClassNotReady :: "err \<Rightarrow> bool" where
  "is_ErrNodeClassNotReady (ErrNodeClassNotReady e) = True"
| "is_ErrNodeClassNotReady _ = False"

definition errors_As :: "(err \<Rightarrow> bool) \<Rightarrow> err \<Rightarrow> bool" where
  "errors_As p e \<longleftrightarrow> list_ex p (err_chain e)"

text \<open>Karpenter's classifiers of the errors a provider returns.\<close>

definition IsNodeClaimNotFoundError :: "err \<Rightarrow> bool" where
  "IsNodeClaimNotFoundError e = errors_As is_ErrNodeClaimNotFound e"

definition IsInsufficientCapacityError :: "err \<Rightarrow> bool" where
  "IsInsufficientCapacityError e = errors_As is_ErrInsufficientCapacity e"

definition IsNodeClassNotReadyError :: "err \<Rightarrow> bool" where
  "IsNodeClassNotReadyError e = errors_As is_ErrNodeClassNotReady e"

text \<open>\<open>errors.Join\<close> drops nil errors and is nil when nothing is left.\<close>

definition errors_Join :: "err option list \<Rightarrow> err option" where
  "errors_Join es = (case List.map_filter id es of [] \<Rightarrow> None | xs \<Rightarrow> Some (ErrJoin xs))"

section \<open>Facts about classification\<close>

named_theorems err_simps \<open>classification of errors\<close>

lemma errors_As_wrap [err_simps]: "errors_As p (ErrWrap f args e) \<longleftrightarrow> p (ErrWrap f args e) \<or> errors_As p e"
  by (simp add: errors_As_def)

lemma IsNodeClaimNotFoundError_simps [err_simps]:
  "IsNodeClaimNotFoundError (ErrWrap f args e) = IsNodeClaimNotFoundError e"
  "IsNodeClaimNotFoundError (ErrNodeClaimNotFound e) = True"
  "IsNodeClaimNotFoundError (ErrText f args) = False"
  "IsNodeClaimNotFoundError (ErrSdk s) = False"
  "IsNodeClaimNotFoundError (ErrKube k) = False"
  "IsNodeClaimNotFoundError (ErrNum n) = False"
  "IsNodeClaimNotFoundError (ErrInsufficientCapacity e) = False"
  "IsNodeClaimNotFoundError (ErrNodeClassNotReady e) = False"
  "IsNodeClaimNotFoundError (ErrPermanent e) = False"
  by (simp_all add: IsNodeClaimNotFoundError_def errors_As_def)

lemma IsInsufficientCapacityError_simps [err_simps]:
  "IsInsufficientCapacityError (ErrWrap f args e) = IsInsufficientCapacityError e"
  "IsInsufficientCapacityError (ErrNodeClaimNotFound e) = False"
  "IsInsufficientCapacityError (ErrText f args) = False"
  "IsInsufficientCapacityError (ErrSdk s) = False"
  "IsInsufficientCapacityError (ErrKube k) = False"
  "IsInsufficientCapacityError (ErrNum n) = False"
  "IsInsufficientCapacityError (ErrInsufficientCapacity e) = True"
  "IsInsufficientCapacityError (ErrNodeClassNotReady e) = False"
  "IsInsufficientCapacityError (ErrPermanent e) = False"
  by (simp_all add: IsInsufficientCapacityError_def errors_As_def)

lemma IsNodeClassNotReadyError_simps [err_simps]:
  "IsNodeClassNotReadyError (ErrWrap f args e) = IsNodeClassNotReadyError e"
  "IsNodeClassNotReadyError (ErrNodeClaimNotFound e) = False"
  "IsNodeClassNotReadyError (ErrText f args) = False"
  "IsNodeClassNotReadyError (ErrSdk s) = False"
  "IsNodeClassNotReadyError (ErrKube k) = False"
  "IsNodeClassNotReadyError (ErrNum n) = False"
  "IsNodeClassNotReadyError (ErrInsufficientCapacity e) = False"
  "IsNodeClassNotReadyError (ErrNodeClassNotReady e) = True"
  "IsNodeClassNotReadyError (ErrPermanent e) = False"
  by (simp_all add: IsNodeClassNotReadyError_def errors_As_def)

lemma errors_Join_eq_None_iff: "errors_Join es = None \<longleftrightarrow> (\<forall>e \<in> set es. e = None)"
  by (induction es) (auto simp: errors_Join_def List.map_filter_def split: list.splits)

lemma errors_Join_Somes: "es \<noteq> [] \<Longrightarrow> errors_Join (map Some es) = Some (ErrJoin es)"
  by (cases es) (simp_all add: errors_Join_def List.map_filter_def comp_def)

lemma errors_Join_pair: "errors_Join [Some e, d] = Some (ErrJoin (e # (case d of None \<Rightarrow> [] | Some x \<Rightarrow> [x])))"
  by (simp add: errors_Join_def List.map_filter_def split: option.splits)

end
