(* ===== verification/Apis_V1.thy ===== *)
theory Apis_V1
  imports Errors
begin

text \<open>
  Package \<open>pkg/apis/v1\<close>: the constants, the \<open>HCloudNodeClass\<close> object with its spec and status, and
  the accessors that decide which recorded images may be used. Status conditions carry the fields the
  program reads or writes; timestamps belong to operatorpkg and are left out. A message is kept as
  the error or the format it is rendered from.
\<close>

section \<open>Constants\<close>

definition Group :: string where "Group = ''karpenter.hetzner.cloud''"
definition Version :: string where "Version = ''v1''"

definition ProviderIDPrefix :: string where "ProviderIDPrefix = ''hcloud://''"

definition LabelCPUType :: string where "LabelCPUType = ''karpenter.hetzner.cloud/cpu-type''"
definition LabelServerFamily :: string where "LabelServerFamily = ''karpenter.hetzner.cloud/server-family''"
definition LabelLocation :: string where "LabelLocation = ''karpenter.hetzner.cloud/location''"
definition LabelCSILocation :: string where "LabelCSILocation = ''csi.hetzner.cloud/location''"

lemma labels_in_group:
  "LabelCPUType = Group @ ''/cpu-type''" "LabelServerFamily = Group @ ''/server-family''"
  "LabelLocation = Group @ ''/location''"
  by (simp_all add: Group_def LabelCPUType_def LabelServerFamily_def LabelLocation_def)

definition ServerLabelManagedBy :: string where "ServerLabelManagedBy = ''karpenter.sh/managed-by''"
definition ServerLabelCluster :: string where "ServerLabelCluster = ''karpenter.sh/cluster''"
definition ServerLabelNodeClaim :: string where "ServerLabelNodeClaim = ''karpenter.sh/nodeclaim''"
definition ServerLabelNodePool :: string where "ServerLabelNodePool = ''karpenter.sh/nodepool''"
definition ServerValueManagedBy :: string where "ServerValueManagedBy = ''karpenter''"

lemmas server_label_defs =
  ServerLabelManagedBy_def ServerLabelCluster_def ServerLabelNodeClaim_def ServerLabelNodePool_def

text \<open>The labels of Kubernetes and karpenter core the provider stamps.\<close>

definition LabelTopologyZone :: string where "LabelTopologyZone = ''topology.kubernetes.io/zone''"
definition LabelInstanceTypeStable :: string where
  "LabelInstanceTypeStable = ''node.kubernetes.io/instance-type''"
definition LabelArchStable :: string where "LabelArchStable = ''kubernetes.io/arch''"
definition CapacityTypeLabelKey :: string where "CapacityTypeLabelKey = ''karpenter.sh/capacity-type''"
definition CapacityTypeOnDemand :: string where "CapacityTypeOnDemand = ''on-demand''"
definition NodePoolLabelKey :: string where "NodePoolLabelKey = ''karpenter.sh/nodepool''"

lemmas node_label_defs =
  LabelTopologyZone_def LabelInstanceTypeStable_def LabelArchStable_def CapacityTypeLabelKey_def
  LabelCPUType_def LabelServerFamily_def NodePoolLabelKey_def

lemma node_label_keys_distinct:
  "distinct [LabelInstanceTypeStable, LabelArchStable, CapacityTypeLabelKey, LabelCPUType,
     LabelServerFamily, LabelTopologyZone]"
  by (simp add: node_label_defs)

text \<open>
  The two package initialisers: the provider's own node labels become well known to karpenter, and
  the CSI driver's topology key is an alias of the zone label.
\<close>

definition register_well_known :: "string set \<Rightarrow> string set" where
  "register_well_known wk = wk \<union> {LabelCPUType, LabelServerFamily}"

definition register_normalized :: "(string \<rightharpoonup> string) \<Rightarrow> (string \<rightharpoonup> string)" where
  "register_normalized m = m(LabelCSILocation \<mapsto> LabelTopologyZone)"

section \<open>The HCloudNodeClass\<close>

record user_data_secret_ref =
  ref_Namespace :: string
  ref_Name :: string
  ref_Key :: string

record image_selector =
  sel_Family :: string
  sel_Version :: string
  sel_Selector :: "string go_map"

record node_class_spec =
  spec_Locations :: "string list"
  spec_ImageSelector :: image_selector
  spec_NetworkID :: int64
  spec_FirewallIDs :: "int64 list"
  spec_SSHKeyIDs :: "int64 list"
  spec_PlacementGroupStrategy :: string
  spec_Labels :: "string go_map"
  spec_UserData :: string
  spec_UserDataSecretRef :: "user_data_secret_ref option"
  spec_EnablePublicIPv4 :: "bool option"
  spec_EnablePublicIPv6 :: "bool option"

record resolved_image =
  ri_Architecture :: string
  ri_ImageID :: int64

datatype cond_status = CondTrue | CondFalse | CondUnknown

datatype cond_message = MsgNone | MsgFmt string "fmt_arg list" | MsgErr err

datatype cond_type =
    ConditionTypeImagesReady
  | ConditionTypeNetworkReady
  | ConditionTypeResourcesReady
  | ConditionTypeUserDataReady
  | ConditionTypeOther string

record condition =
  cond_Type :: cond_type
  cond_Status :: cond_status
  cond_Reason :: string
  cond_Message :: cond_message
  cond_ObservedGeneration :: int64

record node_class =
  nc_Name :: string
  nc_Generation :: int64
  nc_Spec :: node_class_spec
  nc_Conditions :: "condition list"
  nc_ResolvedImages :: "resolved_image list"

section \<open>Accessors\<close>

definition GetConditions :: "node_class \<Rightarrow> condition list" where
  "GetConditions nc = nc_Conditions nc"

definition SetConditions :: "condition list \<Rightarrow> node_class \<Rightarrow> node_class" where
  "SetConditions conditions nc = nc\<lparr>nc_Conditions := conditions\<rparr>"

lemma conditions_get_set [simp]:
  "GetConditions (SetConditions cs nc) = cs" "SetConditions (GetConditions nc) nc = nc"
  "SetConditions cs' (SetConditions cs nc) = SetConditions cs' nc"
  by (simp_all add: GetConditions_def SetConditions_def)

definition PublicIPv4Enabled :: "node_class_spec \<Rightarrow> bool" where
  "PublicIPv4Enabled s \<longleftrightarrow>
     (case spec_EnablePublicIPv4 s of None \<Rightarrow> True | Some b \<Rightarrow> b)"

definition PublicIPv6Enabled :: "node_class_spec \<Rightarrow> bool" where
  "PublicIPv6Enabled s \<longleftrightarrow>
     (case spec_EnablePublicIPv6 s of None \<Rightarrow> True | Some b \<Rightarrow> b)"

fun images_ready_generation :: "condition list \<Rightarrow> int64" where
  "images_ready_generation [] = 0"
| "images_ready_generation (c # cs) =
     (if cond_Type c = ConditionTypeImagesReady then cond_ObservedGeneration c
      else images_ready_generation cs)"

definition ResolvedImagesGeneration :: "node_class \<Rightarrow> int64" where
  "ResolvedImagesGeneration nc = images_ready_generation (nc_Conditions nc)"

definition CurrentResolvedImages :: "node_class \<Rightarrow> resolved_image list" where
  "CurrentResolvedImages nc =
     (if ResolvedImagesGeneration nc \<noteq> nc_Generation nc then [] else nc_ResolvedImages nc)"

definition find_cond :: "cond_type \<Rightarrow> condition list \<Rightarrow> condition option" where
  "find_cond t cs = find (\<lambda>c. cond_Type c = t) cs"

lemma images_ready_generation_find:
  "images_ready_generation cs =
     (case find_cond ConditionTypeImagesReady cs of None \<Rightarrow> 0 | Some c \<Rightarrow> cond_ObservedGeneration c)"
  by (induction cs) (auto simp: find_cond_def)

text \<open>Recorded images are usable only when the \<open>ImagesReady\<close> condition was written for the
  object's current generation; an absent condition reads as generation 0 and hides every entry of an
  object the API server has stored (generations start at 1).\<close>

lemma stale_images_hidden:
  assumes "ri \<in> set (CurrentResolvedImages nc)" and "nc_Generation nc \<noteq> 0"
  shows "\<exists>c. find_cond ConditionTypeImagesReady (nc_Conditions nc) = Some c \<and>
           cond_ObservedGeneration c = nc_Generation nc"
  using assms
  by (auto simp: CurrentResolvedImages_def ResolvedImagesGeneration_def images_ready_generation_find
      split: if_splits option.splits)

end
