(* ===== verification/Metrics.thy ===== *)
theory Metrics
  imports Apis_V1
begin

text \<open>
  Package \<open>pkg/metrics\<close>: the Prometheus collectors as counters, the recording functions that change
  them, and the environment every effectful operation of the program runs in: the outside world
  (the hcloud API, the API server, the clock), which the model leaves open as a type parameter, and
  the metrics.
\<close>

definition ResultSuccess :: string where "ResultSuccess = ''success''"
definition ResultError :: string where "ResultError = ''error''"

record metrics =
  serverCreateTotal :: "string \<Rightarrow> nat"
  serverCreateDurationSeconds :: "duration list"
  serverDeleteTotal :: "string \<Rightarrow> nat"
  hcloudAPICallsTotal :: "string \<times> string \<Rightarrow> nat"
  driftDetectedTotal :: "string \<Rightarrow> nat"
  selectionSkippedTotal :: "string \<times> string \<Rightarrow> nat"
  imageResolutionErrorsTotal :: nat
  instanceTypeCacheTotal :: "string \<Rightarrow> nat"

definition inc :: "'k \<Rightarrow> ('k \<Rightarrow> nat) \<Rightarrow> 'k \<Rightarrow> nat" where
  "inc k c = c(k := Suc (c k))"

definition initial_metrics :: metrics where
  "initial_metrics =
     \<lparr>serverCreateTotal = (\<lambda>_. 0), serverCreateDurationSeconds = [], serverDeleteTotal = (\<lambda>_. 0),
      hcloudAPICallsTotal = (\<lambda>_. 0), driftDetectedTotal = (\<lambda>_. 0), selectionSkippedTotal = (\<lambda>_. 0),
      imageResolutionErrorsTotal = 0, instanceTypeCacheTotal = (\<lambda>_. 0)\<rparr>"

definition RecordServerCreate :: "string \<Rightarrow> duration \<Rightarrow> metrics \<Rightarrow> metrics" where
  "RecordServerCreate result dur m =
     m\<lparr>serverCreateTotal := inc result (serverCreateTotal m),
       serverCreateDurationSeconds := serverCreateDurationSeconds m @ [dur],
       hcloudAPICallsTotal := inc (''server_create'', result) (hcloudAPICallsTotal m)\<rparr>"

definition RecordServerDelete :: "string \<Rightarrow> metrics \<Rightarrow> metrics" where
  "RecordServerDelete result m =
     m\<lparr>serverDeleteTotal := inc result (serverDeleteTotal m),
       hcloudAPICallsTotal := inc (''server_delete'', result) (hcloudAPICallsTotal m)\<rparr>"

definition RecordDrift :: "string \<Rightarrow> metrics \<Rightarrow> metrics" where
  "RecordDrift reason m = m\<lparr>driftDetectedTotal := inc reason (driftDetectedTotal m)\<rparr>"

definition RecordSelectionSkipped :: "string \<Rightarrow> string \<Rightarrow> metrics \<Rightarrow> metrics" where
  "RecordSelectionSkipped arch reason m =
     m\<lparr>selectionSkippedTotal := inc (arch, reason) (selectionSkippedTotal m)\<rparr>"

definition RecordImageResolutionError :: "metrics \<Rightarrow> metrics" where
  "RecordImageResolutionError m =
     m\<lparr>imageResolutionErrorsTotal := Suc (imageResolutionErrorsTotal m)\<rparr>"

definition RecordCacheHit :: "metrics \<Rightarrow> metrics" where
  "RecordCacheHit m = m\<lparr>instanceTypeCacheTotal := inc ''hit'' (instanceTypeCacheTotal m)\<rparr>"

definition RecordCacheMiss :: "metrics \<Rightarrow> metrics" where
  "RecordCacheMiss m = m\<lparr>instanceTypeCacheTotal := inc ''miss'' (instanceTypeCacheTotal m)\<rparr>"

definition RecordCacheStale :: "metrics \<Rightarrow> metrics" where
  "RecordCacheStale m = m\<lparr>instanceTypeCacheTotal := inc ''stale'' (instanceTypeCacheTotal m)\<rparr>"

lemmas record_defs =
  RecordServerCreate_def RecordServerDelete_def RecordDrift_def RecordSelectionSkipped_def
  RecordImageResolutionError_def RecordCacheHit_def RecordCacheMiss_def RecordCacheStale_def inc_def

section \<open>The environment\<close>

record 'w env =
  env_world :: 'w
  env_metrics :: metrics

text \<open>A call of an outside service changes the world and nothing else.\<close>

definition on_world :: "('w, 'e, 'a) call \<Rightarrow> (('w, 'z) env_scheme, 'e, 'a) call" where
  "on_world f = (\<lambda>s. case f (env_world s) of (r, w) \<Rightarrow> (r, s\<lparr>env_world := w\<rparr>))"

definition record_metric :: "(metrics \<Rightarrow> metrics) \<Rightarrow> ('w, 'z) env_scheme \<Rightarrow> ('w, 'z) env_scheme" where
  "record_metric f s = s\<lparr>env_metrics := f (env_metrics s)\<rparr>"

lemma on_world_eq [call_simps]:
  "on_world f s = (r, s') \<longleftrightarrow> (\<exists>w. f (env_world s) = (r, w) \<and> s' = s\<lparr>env_world := w\<rparr>)"
  by (auto simp: on_world_def split: prod.splits)

lemma on_world_apply: "f (env_world s) = (r, w) \<Longrightarrow> on_world f s = (r, s\<lparr>env_world := w\<rparr>)"
  by (simp add: on_world_def)

lemma env_world_on_world [simp]: "env_metrics (snd (on_world f s)) = env_metrics s"
  by (simp add: on_world_def split: prod.splits)

lemma record_metric_sel [simp]:
  "env_world (record_metric f s) = env_world s"
  "env_metrics (record_metric f s) = f (env_metrics s)"
  by (simp_all add: record_metric_def)


section \<open>Registration\<close>

text \<open>The collectors as they are described to Prometheus, and the order \<open>init\<close> registers them in.
  \<open>MustRegister\<close> panics on a name it has already; none is given twice, and none is left out.\<close>

datatype collector =
    ServerCreateTotal | ServerCreateDurationSeconds | ServerDeleteTotal | HcloudAPICallsTotal
  | DriftDetectedTotal | InstanceTypeCacheTotal | SelectionSkippedTotal | ImageResolutionErrorsTotal

fun collector_name :: "collector \<Rightarrow> string" where
  "collector_name ServerCreateTotal = ''karpenter_hetzner_server_create_total''"
| "collector_name ServerCreateDurationSeconds = ''karpenter_hetzner_server_create_duration_seconds''"
| "collector_name ServerDeleteTotal = ''karpenter_hetzner_server_delete_total''"
| "collector_name HcloudAPICallsTotal = ''karpenter_hetzner_hcloud_api_calls_total''"
| "collector_name DriftDetectedTotal = ''karpenter_hetzner_drift_detected_total''"
| "collector_name SelectionSkippedTotal = ''karpenter_hetzner_instance_type_selection_skipped_total''"
| "collector_name ImageResolutionErrorsTotal = ''karpenter_hetzner_image_resolution_errors_total''"
| "collector_name InstanceTypeCacheTotal = ''karpenter_hetzner_instance_type_cache_total''"

fun collector_labels :: "collector \<Rightarrow> string list" where
  "collector_labels ServerCreateTotal = [''result'']"
| "collector_labels ServerCreateDurationSeconds = []"
| "collector_labels ServerDeleteTotal = [''result'']"
| "collector_labels HcloudAPICallsTotal = [''operation'', ''result'']"
| "collector_labels DriftDetectedTotal = [''reason'']"
| "collector_labels SelectionSkippedTotal = [''arch'', ''reason'']"
| "collector_labels ImageResolutionErrorsTotal = []"
| "collector_labels InstanceTypeCacheTotal = [''result'']"

definition registered_collectors :: "collector list" where
  "registered_collectors =
     [ServerCreateTotal, ServerCreateDurationSeconds, ServerDeleteTotal, HcloudAPICallsTotal,
      DriftDetectedTotal, InstanceTypeCacheTotal, SelectionSkippedTotal, ImageResolutionErrorsTotal]"

lemma collectors_registered_once:
  "distinct (map collector_name registered_collectors) \<and> c \<in> set registered_collectors"
  by (cases c) (simp_all add: registered_collectors_def)

end
