(* ===== verification/Hcloud_Api.thy ===== *)
theory Hcloud_Api
  imports Metrics Go_Numbers
begin

text \<open>
  The data the provider exchanges with the hcloud API and the narrow client interfaces it declares
  for it. The clients themselves are outside the repository: an interface is a record of functions
  from the world to an outcome and the next world, about which nothing is assumed. The pointers of
  the SDK's structs that the code checks for nil are options.
\<close>

section \<open>Data\<close>

definition ArchitectureX86 :: string where "ArchitectureX86 = ''x86''"
definition ArchitectureARM :: string where "ArchitectureARM = ''arm''"

lemmas arch_defs = ArchitectureX86_def ArchitectureARM_def

record image =
  img_ID :: int64
  img_Description :: string
  img_Architecture :: string
  img_Created :: go_time

record pricing =
  pr_Location :: "string option"
  pr_HourlyNet :: string
  pr_MonthlyNet :: string

record server_type =
  st_Name :: string
  st_Cores :: int64
  st_Memory :: rat
  st_Disk :: int64
  st_CPUType :: string
  st_Architecture :: string
  st_Pricings :: "pricing list"

record server =
  srv_ID :: int64
  srv_Image :: "image option"
  srv_ServerType :: "server_type option"
  srv_Location :: "string option"
  srv_PrivateNet :: "int64 option list"
  srv_Firewalls :: "int64 option list"
  srv_Labels :: "string go_map"

record server_create_opts =
  sco_Name :: string
  sco_ServerType :: string
  sco_Image :: "image option"
  sco_Location :: string
  sco_Networks :: "int64 list"
  sco_Firewalls :: "int64 list"
  sco_SSHKeys :: "int64 list"
  sco_Labels :: "string go_map"
  sco_UserData :: string
  sco_EnableIPv4 :: bool
  sco_EnableIPv6 :: bool
  sco_PlacementGroup :: "int64 option"

type_synonym action = int64

record server_create_result =
  cr_Server :: "server option"
  cr_Action :: "action option"
  cr_NextActions :: "action list"

datatype image_type = ImageTypeSystem | ImageTypeSnapshot

record image_list_opts =
  ilo_Type :: image_type
  ilo_Architecture :: string
  ilo_LabelSelector :: string

section \<open>Client interfaces\<close>

type_synonym ('w, 'a) sdk_call = "('w, sdk_error, 'a) call"

record 'w server_client =
  sc_Create :: "server_create_opts \<Rightarrow> ('w, server_create_result) sdk_call"
  sc_DeleteWithResult :: "server \<Rightarrow> ('w, unit) sdk_call"
  sc_GetByID :: "int64 \<Rightarrow> ('w, server option) sdk_call"
  sc_AllWithOpts :: "string \<Rightarrow> ('w, server list) sdk_call"

text \<open>
  Placement groups are looked up by name; the type \<open>spread\<close> is fixed in both calls. The group of a
  create result is a pointer.
\<close>

record 'w placement_group_client =
  pgc_AllWithOpts :: "string \<Rightarrow> ('w, int64 list) sdk_call"
  pgc_Create :: "string \<Rightarrow> ('w, int64 option) sdk_call"

type_synonym 'w action_waiter = "action list \<Rightarrow> ('w, unit) sdk_call"

type_synonym 'w server_type_client = "('w, server_type list) sdk_call"

type_synonym 'w image_client = "image_list_opts \<Rightarrow> ('w, image list) sdk_call"

end
