(* ===== verification/Kube_Api.thy ===== *)
theory Kube_Api
  imports Hcloud_Api
begin

text \<open>
  The API server as the provider uses it: reading an \<open>HCloudNodeClass\<close> by name, reading the data of
  a Secret, and writing back a status. Like the hcloud clients it is a record of functions on the
  world about which nothing is assumed.
\<close>

type_synonym ('w, 'a) kube_call = "('w, kube_error, 'a) call"

record 'w kube_client =
  kube_GetNodeClass :: "string \<Rightarrow> ('w, node_class) kube_call"
  kube_GetSecretData :: "string \<Rightarrow> string \<Rightarrow> ('w, string go_map) kube_call"
  kube_UpdateStatus :: "node_class \<Rightarrow> ('w, unit) kube_call"

end
