(* ===== verification/Provider_Id.thy ===== *)
theory Provider_Id
  imports Apis_V1
begin

text \<open>
  \<open>ParseProviderID\<close> and \<open>FormatProviderID\<close> of \<open>pkg/providers/instance/instance.go\<close>, and the contract
  the rest of the program relies on: the two are inverse on server IDs.
\<close>

definition FormatProviderID :: "int64 \<Rightarrow> string" where
  "FormatProviderID serverID = ProviderIDPrefix @ FormatInt serverID"

definition ParseProviderID :: "string \<Rightarrow> (err, int64) outcome" where
  "ParseProviderID providerID =
     (if \<not> HasPrefix providerID ProviderIDPrefix
      then Err (ErrText ''provider ID %q must start with %q'' [AStr providerID, AStr ProviderIDPrefix])
      else case ParseInt (TrimPrefix providerID ProviderIDPrefix) of
        Err e \<Rightarrow> Err (ErrWrap ''invalid server ID in provider ID %q: %w'' [AStr providerID] (ErrNum e))
      | Panic \<Rightarrow> Panic
      | Ok i \<Rightarrow> Ok i)"

text \<open>The interface its clients use: a codec that decodes what it encoded.\<close>

locale id_codec =
  fixes enc :: "'i \<Rightarrow> string"
    and dec :: "string \<Rightarrow> ('e, 'i) outcome"
  assumes dec_enc: "dec (enc i) = Ok i"
begin

lemma enc_inj: "enc i = enc j \<longleftrightarrow> i = j"
  by (metis dec_enc outcome.inject(1))

lemma dec_enc_iff: "dec (enc i) = Ok j \<longleftrightarrow> j = i"
  by (auto simp: dec_enc)

end

interpretation provider_id: id_codec FormatProviderID ParseProviderID
  by unfold_locales (simp add: FormatProviderID_def ParseProviderID_def ParseInt_FormatInt)

text \<open>C40: A provider ID built from a server ID parses back to exactly that ID, for every 64-bit
  server ID, negative ones and the extremes included; so two servers never share a provider ID.\<close>

theorem provider_id_roundtrip:
  "ParseProviderID (FormatProviderID i) = Ok i \<and>
   (FormatProviderID i = FormatProviderID j \<longleftrightarrow> i = j)"
  by (simp add: provider_id.dec_enc provider_id.enc_inj)

lemma ParseInt_not_Panic: "ParseInt s \<noteq> Panic"
proof -
  have "parse_digits t n \<noteq> Panic" for t n
    by (induction t n rule: parse_digits.induct) auto
  then show ?thesis
    by (auto simp: ParseInt_def ParseUint_def split: outcome.splits if_splits prod.splits)
qed

text \<open>Parsing is total and strict: it never panics, accepts a string only if it is the prefix
  \<open>hcloud://\<close> followed by an optional sign and at least one decimal digit and nothing else, and
  every other string is an error that karpenter does not mistake for a terminated instance.\<close>

theorem parse_provider_id_outcome:
  "(case ParseProviderID s of
      Ok i \<Rightarrow> (\<exists>n. s = ProviderIDPrefix @ n \<and> snd (sign_rest n) \<noteq> [] \<and>
                 list_all is_digit (snd (sign_rest n)) \<and> ParseInt n = Ok i)
    | Err e \<Rightarrow> \<not> IsNodeClaimNotFoundError e \<and> \<not> IsInsufficientCapacityError e
    | Panic \<Rightarrow> False)"
proof (cases "HasPrefix s ProviderIDPrefix")
  case False
  then show ?thesis by (simp add: ParseProviderID_def err_simps)
next
  case True
  then obtain n where s: "s = ProviderIDPrefix @ n" by (auto simp: HasPrefix_iff)
  then show ?thesis
    using ParseInt_ok [of n] ParseInt_not_Panic [of n]
    by (fastforce simp: ParseProviderID_def err_simps list_all_iff split: outcome.splits)
qed

end
