(* ===== verification/Instance.thy ===== *)
theory Instance
  imports Hcloud_Api Provider_Id
begin

text \<open>
  Package \<open>pkg/providers/instance\<close>: creating, deleting, reading and listing servers, placement
  groups, and the mapping of create errors onto the error types karpenter core acts on. A provider
  holds its clients; every method is a call on the environment.
\<close>

section \<open>Create errors\<close>

definition isUnsupportedPlacement :: "sdk_error \<Rightarrow> bool" where
  "isUnsupportedPlacement e =
     (case sdk_as_hcloud e of
        None \<Rightarrow> False
      | Some he \<Rightarrow>
          if he_Code he \<noteq> ErrorCodeInvalidInput then False
          else (let m = ToLower (he_Message he)
                in Contains m ''unsupported location'' \<or> Contains m ''location for server type''))"

fun MapCreateError :: "sdk_error option \<Rightarrow> err option" where
  "MapCreateError None = None"
| "MapCreateError (Some e) =
     (if hcloud_IsError e ErrorCodeResourceUnavailable \<or>
         hcloud_IsError e ErrorCodeResourceLimitExceeded
      then Some (ErrInsufficientCapacity (ErrSdk e))
      else if isUnsupportedPlacement e then Some (ErrInsufficientCapacity (ErrSdk e))
      else Some (ErrWrap ''creating server: %w'' [] (ErrSdk e)))"

section \<open>The provider\<close>

record 'w instance_provider =
  ip_client :: "'w server_client"
  ip_pgClient :: "'w placement_group_client option"
  ip_waiter :: "'w action_waiter option"
  ip_clusterName :: string

definition NewProvider :: "'w server_client \<Rightarrow> string \<Rightarrow> 'w instance_provider" where
  "NewProvider client clusterName =
     \<lparr>ip_client = client, ip_pgClient = None, ip_waiter = None, ip_clusterName = clusterName\<rparr>"

definition NewProviderWithWaiter ::
  "'w server_client \<Rightarrow> string \<Rightarrow> 'w action_waiter \<Rightarrow> 'w instance_provider" where
  "NewProviderWithWaiter client clusterName waiter =
     \<lparr>ip_client = client, ip_pgClient = None, ip_waiter = Some waiter, ip_clusterName = clusterName\<rparr>"

definition NewProviderWithPlacementGroups ::
  "'w server_client \<Rightarrow> 'w placement_group_client \<Rightarrow> string \<Rightarrow> 'w action_waiter \<Rightarrow>
     'w instance_provider" where
  "NewProviderWithPlacementGroups client pgClient clusterName waiter =
     \<lparr>ip_client = client, ip_pgClient = Some pgClient, ip_waiter = Some waiter,
      ip_clusterName = clusterName\<rparr>"

record create_opts =
  co_Name :: string
  co_ServerType :: string
  co_Location :: string
  co_Image :: "image option"
  co_NetworkID :: int64
  co_FirewallIDs :: "int64 list"
  co_SSHKeyIDs :: "int64 list"
  co_Labels :: "string go_map"
  co_UserData :: string
  co_NodeClaim :: string
  co_NodePool :: string
  co_PlacementGroupStrategy :: string
  co_EnablePublicIPv4 :: bool
  co_EnablePublicIPv6 :: bool

section \<open>Placement groups\<close>

definition placementGroupName :: "string \<Rightarrow> string \<Rightarrow> string" where
  "placementGroupName clusterName nodePool =
     (let base = ''karpenter-'' @ clusterName
      in if nodePool = '''' then base else base @ ''-'' @ nodePool)"

definition getOrCreatePlacementGroup ::
  "'w placement_group_client \<Rightarrow> string \<Rightarrow> (('w, 'z) env_scheme, err, int64) call" where
  "getOrCreatePlacementGroup pgc name =
     bind_call
       (wrap_call (\<lambda>e. ErrWrap ''listing placement groups: %w'' [] (ErrSdk e))
          (on_world (pgc_AllWithOpts pgc name)))
       (\<lambda>existing. case existing of
           g # _ \<Rightarrow> return_call g
         | [] \<Rightarrow>
             bind_call
               (wrap_call (\<lambda>e. ErrWrap ''creating placement group %q: %w'' [AStr name] (ErrSdk e))
                  (on_world (pgc_Create pgc name)))
               (\<lambda>group. lift_outcome (deref group)))"

section \<open>Create\<close>

definition create_labels :: "string \<Rightarrow> create_opts \<Rightarrow> string go_map" where
  "create_labels clusterName opts =
     (let l0 = map_put_all (co_Labels opts) [];
          l1 = map_put ServerLabelManagedBy ServerValueManagedBy l0;
          l2 = map_put ServerLabelCluster clusterName l1;
          l3 = (if co_NodeClaim opts \<noteq> '''' then map_put ServerLabelNodeClaim (co_NodeClaim opts) l2
                else l2)
      in if co_NodePool opts \<noteq> '''' then map_put ServerLabelNodePool (co_NodePool opts) l3 else l3)"

definition server_create_opts_for :: "string \<Rightarrow> create_opts \<Rightarrow> int64 option \<Rightarrow> server_create_opts" where
  "server_create_opts_for clusterName opts pg =
     \<lparr>sco_Name = co_Name opts,
      sco_ServerType = co_ServerType opts,
      sco_Image = co_Image opts,
      sco_Location = co_Location opts,
      sco_Networks = (if 0 <s co_NetworkID opts then [co_NetworkID opts] else []),
      sco_Firewalls = co_FirewallIDs opts,
      sco_SSHKeys = co_SSHKeyIDs opts,
      sco_Labels = create_labels clusterName opts,
      sco_UserData = co_UserData opts,
      sco_EnableIPv4 = co_EnablePublicIPv4 opts,
      sco_EnableIPv6 = co_EnablePublicIPv6 opts,
      sco_PlacementGroup = pg\<rparr>"

definition resolve_placement_group ::
  "'w instance_provider \<Rightarrow> create_opts \<Rightarrow> (('w, 'z) env_scheme, err, int64 option) call" where
  "resolve_placement_group p opts =
     (case ip_pgClient p of
        None \<Rightarrow> return_call None
      | Some pgc \<Rightarrow>
          if co_PlacementGroupStrategy opts \<noteq> ''none''
          then bind_call
                 (wrap_call (ErrWrap ''resolving placement group: %w'' [])
                    (getOrCreatePlacementGroup pgc
                       (placementGroupName (ip_clusterName p) (co_NodePool opts))))
                 (\<lambda>g. return_call (Some g))
          else return_call None)"

definition wait_for_actions ::
  "'w instance_provider \<Rightarrow> create_opts \<Rightarrow> server_create_result \<Rightarrow> (('w, 'z) env_scheme, err, unit) call" where
  "wait_for_actions p opts result =
     (case ip_waiter p of
        None \<Rightarrow> return_call ()
      | Some waitFor \<Rightarrow>
          (let actions = (case cr_Action result of None \<Rightarrow> [] | Some a \<Rightarrow> [a]) @ cr_NextActions result
           in if actions \<noteq> []
              then wrap_call (\<lambda>e. ErrWrap ''waiting for server %q create actions: %w''
                                   [AStr (co_Name opts)] (ErrSdk e))
                     (on_world (waitFor actions))
              else return_call ()))"

definition create ::
  "'w instance_provider \<Rightarrow> create_opts \<Rightarrow> (('w, 'z) env_scheme, err, server option) call" where
  "create p opts =
     bind_call (resolve_placement_group p opts) (\<lambda>pg.
     bind_call
       (wrap_call (\<lambda>e. the (MapCreateError (Some e)))
          (on_world (sc_Create (ip_client p) (server_create_opts_for (ip_clusterName p) opts pg)))) (\<lambda>result.
     bind_call (wait_for_actions p opts result) (\<lambda>_.
     return_call (cr_Server result))))"

text \<open>
  \<open>Create\<close> measures and counts; the clock is read before and after. A panic inside \<open>create\<close> passes
  the recording by.
\<close>

definition Create ::
  "('w \<Rightarrow> go_time) \<Rightarrow> 'w instance_provider \<Rightarrow> create_opts \<Rightarrow>
     (('w, 'z) env_scheme, err, server option) call" where
  "Create clock p opts = (\<lambda>s.
     (let start = clock (env_world s) in
      case create p opts s of
        (Panic, s') \<Rightarrow> (Panic, s')
      | (Ok v, s') \<Rightarrow>
          (Ok v, record_metric (RecordServerCreate ResultSuccess (clock (env_world s') - start)) s')
      | (Err e, s') \<Rightarrow>
          (Err e, record_metric (RecordServerCreate ResultError (clock (env_world s') - start)) s')))"

section \<open>Delete, Get, List\<close>

definition not_found :: "int64 \<Rightarrow> err" where
  "not_found i = ErrNodeClaimNotFound (ErrText ''server %d not found'' [AInt i])"

definition delete_server ::
  "'w instance_provider \<Rightarrow> string \<Rightarrow> (('w, 'z) env_scheme, err, unit) call" where
  "delete_server p providerID =
     bind_call
       (wrap_call (ErrWrap ''parsing provider ID %q: %w'' [AStr providerID])
          (lift_outcome (ParseProviderID providerID))) (\<lambda>i.
     bind_call
       (wrap_call (\<lambda>e. if hcloud_IsError e ErrorCodeNotFound then not_found i
                        else ErrWrap ''getting server %d: %w'' [AInt i] (ErrSdk e))
          (on_world (sc_GetByID (ip_client p) i))) (\<lambda>found.
     case found of
       None \<Rightarrow> fail_call (not_found i)
     | Some server \<Rightarrow>
         wrap_call (\<lambda>e. if hcloud_IsError e ErrorCodeNotFound then not_found i
                         else ErrWrap ''deleting server %d: %w'' [AInt i] (ErrSdk e))
           (on_world (sc_DeleteWithResult (ip_client p) server))))"

definition Delete ::
  "'w instance_provider \<Rightarrow> string \<Rightarrow> (('w, 'z) env_scheme, err, unit) call" where
  "Delete p providerID = (\<lambda>s.
     case delete_server p providerID s of
       (Panic, s') \<Rightarrow> (Panic, s')
     | (Ok v, s') \<Rightarrow> (Ok v, record_metric (RecordServerDelete ResultSuccess) s')
     | (Err e, s') \<Rightarrow>
         (Err e, record_metric
           (RecordServerDelete (if IsNodeClaimNotFoundError e then ResultSuccess else ResultError)) s'))"

definition Get ::
  "'w instance_provider \<Rightarrow> string \<Rightarrow> (('w, 'z) env_scheme, err, server option) call" where
  "Get p providerID =
     bind_call
       (wrap_call (ErrWrap ''parsing provider ID %q: %w'' [AStr providerID])
          (lift_outcome (ParseProviderID providerID))) (\<lambda>i. \<lambda>s.
     case on_world (sc_GetByID (ip_client p) i) s of
       (Err e, s') \<Rightarrow>
         if hcloud_IsError e ErrorCodeNotFound then (Ok None, s')
         else (Err (ErrWrap ''getting server %d: %w'' [AInt i] (ErrSdk e)), s')
     | (Ok found, s') \<Rightarrow> (Ok found, s')
     | (Panic, s') \<Rightarrow> (Panic, s'))"

definition list_selector :: "string \<Rightarrow> string" where
  "list_selector clusterName =
     ServerLabelManagedBy @ ''='' @ ServerValueManagedBy @ '','' @ ServerLabelCluster @ ''='' @ clusterName"

definition List_servers ::
  "'w instance_provider \<Rightarrow> (('w, 'z) env_scheme, err, server list) call" where
  "List_servers p =
     wrap_call (\<lambda>e. ErrWrap ''listing karpenter servers: %w'' [] (ErrSdk e))
       (on_world (sc_AllWithOpts (ip_client p) (list_selector (ip_clusterName p))))"

end
