(* ===== verification/Image_Family.thy ===== *)
theory Image_Family
  imports Hcloud_Api
begin

text \<open>
  Package \<open>pkg/providers/imagefamily\<close>: rendering of a label selector, the two image families, and
  the permanent errors that tell an image proven absent from a catalogue that could not be read. The
  locale \<open>image_source\<close> states what the cloud provider and the nodeclass controller rely on.
\<close>

section \<open>Label selectors\<close>

text \<open>The keys of the map are collected in iteration order, sorted, and each read back.\<close>

definition labelSelectorString :: "string go_map \<Rightarrow> string" where
  "labelSelectorString m =
     (if m = [] then ''''
      else Join (map (\<lambda>k. k @ ''='' @ (case map_of m k of Some v \<Rightarrow> v | None \<Rightarrow> '''')) (sort (map fst m))) '','')"

section \<open>Errors\<close>

definition IsPermanent :: "err \<Rightarrow> bool" where
  "IsPermanent e = errors_As is_ErrPermanent e"

definition newPermanentError :: "string \<Rightarrow> fmt_arg list \<Rightarrow> err" where
  "newPermanentError format args = ErrPermanent (ErrText format args)"

lemma IsPermanent_simps [err_simps]:
  "IsPermanent (ErrPermanent e) = True"
  "IsPermanent (ErrWrap f args e) = IsPermanent e"
  "IsPermanent (ErrSdk s) = False"
  "IsPermanent (ErrText f args) = False"
  by (simp_all add: IsPermanent_def errors_As_def)

section \<open>Families\<close>

text \<open>The two tests every image of the answer goes through; the version is not lowered.\<close>

definition image_matches :: "string \<Rightarrow> string \<Rightarrow> image \<Rightarrow> bool" where
  "image_matches family version img =
     (let desc = ToLower (img_Description img)
      in Contains desc family \<and> (version = '''' \<or> Contains desc version))"

definition resolveUbuntu ::
  "'w image_client \<Rightarrow> string \<Rightarrow> string \<Rightarrow> string \<Rightarrow> (('w, 'z) env_scheme, err, image) call" where
  "resolveUbuntu client version arch ls =
     bind_call
       (wrap_call (\<lambda>e. ErrWrap ''listing ubuntu images: %w'' [] (ErrSdk e))
          (on_world (client \<lparr>ilo_Type = ImageTypeSystem, ilo_Architecture = arch, ilo_LabelSelector = ls\<rparr>)))
       (\<lambda>images. case find (image_matches ''ubuntu'' version) images of
           Some img \<Rightarrow> return_call img
         | None \<Rightarrow>
             if version \<noteq> ''''
             then fail_call (newPermanentError ''no ubuntu image found for version %q and arch %q''
                    [AStr version, AStr arch])
             else fail_call (newPermanentError ''no ubuntu image found for arch %q'' [AStr arch]))"

definition created_after :: "image \<Rightarrow> image \<Rightarrow> bool" where
  "created_after x y \<longleftrightarrow> img_Created y < img_Created x"

definition resolveTalos ::
  "'w image_client \<Rightarrow> string \<Rightarrow> string \<Rightarrow> string \<Rightarrow> (('w, 'z) env_scheme, err, image) call" where
  "resolveTalos client version arch ls =
     bind_call
       (wrap_call (\<lambda>e. ErrWrap ''listing talos images: %w'' [] (ErrSdk e))
          (on_world (client \<lparr>ilo_Type = ImageTypeSnapshot, ilo_Architecture = arch, ilo_LabelSelector = ls\<rparr>)))
       (\<lambda>images. case scan_best created_after None (filter (image_matches ''talos'' version) images) of
           Some img \<Rightarrow> return_call img
         | None \<Rightarrow>
             if version \<noteq> ''''
             then fail_call (newPermanentError ''no talos snapshot found for version %q and arch %q''
                    [AStr version, AStr arch])
             else fail_call (newPermanentError ''no talos snapshot found for arch %q'' [AStr arch]))"

definition Resolve ::
  "'w image_client \<Rightarrow> image_selector \<Rightarrow> string \<Rightarrow> (('w, 'z) env_scheme, err, image) call" where
  "Resolve client selector arch =
     (let ls = labelSelectorString (sel_Selector selector);
          family = ToLower (sel_Family selector)
      in if family = ''ubuntu'' then resolveUbuntu client (sel_Version selector) arch ls
         else if family = ''talos'' then resolveTalos client (sel_Version selector) arch ls
         else fail_call (newPermanentError ''unsupported image family %q: must be one of ubuntu, talos''
                [AStr (sel_Family selector)]))"

section \<open>Label selectors are faithful\<close>

lemma Join_Cons: "xs \<noteq> [] \<Longrightarrow> Join (x # xs) sep = x @ sep @ Join xs sep"
  by (cases xs) simp_all

lemma takeWhile_sep: "c \<notin> set x \<Longrightarrow> takeWhile (\<lambda>d. d \<noteq> c) (x @ c # ys) = x"
  by (induction x) auto

text \<open>Parts that are not empty and hold no separator can be read back.\<close>

lemma Join_inj:
  assumes "\<forall>x \<in> set xs. x \<noteq> [] \<and> c \<notin> set x" and "\<forall>y \<in> set ys. y \<noteq> [] \<and> c \<notin> set y"
    and "Join xs [c] = Join ys [c]"
  shows "xs = ys"
  using assms
proof (induction xs arbitrary: ys)
  case Nil
  then show ?case by (cases ys rule: remdups_adj.cases) auto
next
  case (Cons x xs)
  then obtain y ys' where ys: "ys = y # ys'" by (cases ys) (auto simp: Join_Cons split: if_splits, cases xs, auto)
  have split: "takeWhile (\<lambda>d. d \<noteq> c) (Join (z # zs) [c]) = z \<and> (zs = [] \<longleftrightarrow> c \<notin> set (Join (z # zs) [c])) \<and>
      (zs \<noteq> [] \<longrightarrow> Join zs [c] = drop (Suc (length z)) (Join (z # zs) [c]))" if "c \<notin> set z" for z zs
    using that by (cases zs) (auto simp: takeWhile_sep)
  have "x = y" using split [of x xs] split [of y ys'] Cons.prems ys by simp
  moreover have "xs = ys'"
  proof (cases "xs = []")
    case True
    with split [of x xs] split [of y ys'] Cons.prems ys show ?thesis by simp
  next
    case False
    moreover have "ys' \<noteq> []" using False split [of x xs] split [of y ys'] Cons.prems ys by auto
    ultimately have "Join xs [c] = Join ys' [c]"
      using split [of x xs] split [of y ys'] Cons.prems ys \<open>x = y\<close> by simp
    with Cons.IH [of ys'] Cons.prems ys show ?thesis by simp
  qed
  ultimately show ?case by (simp add: ys)
qed

definition selector_part :: "string go_map \<Rightarrow> string \<Rightarrow> string" where
  "selector_part m k = k @ ''='' @ (case map_of m k of Some v \<Rightarrow> v | None \<Rightarrow> '''')"

lemma labelSelectorString_parts:
  "labelSelectorString m = Join (map (selector_part m) (sort (map fst m))) '',''"
  by (cases "m = []") (simp_all add: labelSelectorString_def selector_part_def [abs_def])

text \<open>hcloud label keys and values are made of letters, digits, dots, underscores and hyphens.\<close>

definition label_char :: "char \<Rightarrow> bool" where
  "label_char c \<longleftrightarrow> c \<noteq> CHR '','' \<and> c \<noteq> CHR ''=''"

definition labels_clean :: "string go_map \<Rightarrow> bool" where
  "labels_clean m \<longleftrightarrow> (\<forall>(k, v) \<in> set m. list_all label_char k \<and> list_all label_char v)"

lemma selector_part_clean:
  assumes "labels_clean m" and "k \<in> fst ` set m"
  shows "CHR '','' \<notin> set (selector_part m k)"
    and "takeWhile (\<lambda>d. d \<noteq> CHR ''='') (selector_part m k) = k"
proof -
  obtain v where v: "map_of m k = Some v" "(k, v) \<in> set m"
    using assms(2) by (cases "map_of m k") (auto simp: map_of_eq_None_iff dest: map_of_SomeD)
  with assms(1) have "list_all label_char k \<and> list_all label_char v"
    unfolding labels_clean_def by blast
  then have clean: "CHR '','' \<notin> set k" "CHR '','' \<notin> set v" "CHR ''='' \<notin> set k"
    unfolding list_all_iff label_char_def by blast+
  with v(1) show "CHR '','' \<notin> set (selector_part m k)"
    by (simp add: selector_part_def)
  from clean(3) show "takeWhile (\<lambda>d. d \<noteq> CHR ''='') (selector_part m k) = k"
    using takeWhile_sep [of "CHR ''=''" k v] v(1) by (simp add: selector_part_def)
qed

text \<open>C39: The rendering of a label selector does not depend on the order in which Go ranges over the
  map, and it loses nothing: two selectors made of legal labels are rendered alike exactly when they
  hold the same pairs.\<close>

theorem label_selector_faithful:
  assumes "go_map_ok m" and "go_map_ok n" and "labels_clean m" and "labels_clean n"
  shows "labelSelectorString m = labelSelectorString n \<longleftrightarrow> map_of m = map_of n"
proof
  assume same: "map_of m = map_of n"
  with sort_keys_unique [OF assms(1,2)] show "labelSelectorString m = labelSelectorString n"
    by (simp add: labelSelectorString_parts selector_part_def [abs_def])
next
  assume eq: "labelSelectorString m = labelSelectorString n"
  have parts: "map (selector_part m) (sort (map fst m)) = map (selector_part n) (sort (map fst n))"
  proof (rule Join_inj [of _ "CHR '',''"])
    show "Join (map (selector_part m) (sort (map fst m))) '','' = Join (map (selector_part n) (sort (map fst n))) '',''"
      using eq by (simp add: labelSelectorString_parts)
  qed (use selector_part_clean(1) [OF assms(3)] selector_part_clean(1) [OF assms(4)] in
        \<open>auto simp: selector_part_def\<close>)
  have keys: "map (takeWhile (\<lambda>d. d \<noteq> CHR ''='')) (map (selector_part q) (sort (map fst q))) = sort (map fst q)"
    if "labels_clean q" for q
    unfolding map_map using selector_part_clean(2) [OF that] by (intro map_idI) simp
  have "sort (map fst m) = sort (map fst n)"
    using keys [OF assms(3)] keys [OF assms(4)] parts by metis
  then have dom: "fst ` set m = fst ` set n" by (metis set_map set_sort)
  have vals: "selector_part m k = selector_part n k" if "k \<in> fst ` set m" for k
  proof -
    from parts have "map (selector_part m) (sort (map fst m)) = map (selector_part n) (sort (map fst m))"
      using \<open>sort (map fst m) = sort (map fst n)\<close> by simp
    then have "\<forall>x \<in> set (sort (map fst m)). selector_part m x = selector_part n x"
      by (simp only: map_eq_conv)
    moreover have "k \<in> set (sort (map fst m))" using that by simp
    ultimately show ?thesis by blast
  qed
  show "map_of m = map_of n"
  proof
    fix k
    show "map_of m k = map_of n k"
    proof (cases "k \<in> fst ` set m")
      case True
      then obtain v v' where "map_of m k = Some v" "map_of n k = Some v'"
        using dom by (metis map_of_eq_None_iff not_None_eq)
      with vals [OF True] show ?thesis by (simp add: selector_part_def)
    next
      case False
      with dom show ?thesis by (metis map_of_eq_None_iff)
    qed
  qed
qed

theorem label_selector_faithful_witness:
  "labelSelectorString [(''b'', ''2''), (''a'', ''1'')] = labelSelectorString [(''a'', ''1''), (''b'', ''2'')]"
  by (subst label_selector_faithful) (auto simp: labels_clean_def label_char_def)

lemma find_split: "find P xs = Some x \<Longrightarrow> \<exists>ys zs. xs = ys @ x # zs \<and> (\<forall>y \<in> set ys. \<not> P y)"
proof (induction xs)
  case (Cons a xs)
  show ?case
  proof (cases "P a")
    case True
    with Cons.prems have "a # xs = [] @ x # xs \<and> (\<forall>y \<in> set []. \<not> P y)" by simp
    then show ?thesis by blast
  next
    case False
    with Cons obtain ys zs where "xs = ys @ x # zs" "\<forall>y \<in> set ys. \<not> P y" by auto
    with False have "a # xs = (a # ys) @ x # zs \<and> (\<forall>y \<in> set (a # ys). \<not> P y)" by simp
    then show ?thesis by blast
  qed
qed simp

lemma filter_split: "filter P xs = ps @ x # qs \<Longrightarrow> \<exists>ys zs. xs = ys @ x # zs \<and> filter P ys = ps"
proof (induction xs arbitrary: ps)
  case (Cons a xs)
  show ?case
  proof (cases "P a")
    case True
    show ?thesis
    proof (cases ps)
      case Nil
      with Cons.prems True have "a # xs = [] @ x # xs \<and> filter P [] = ps" by simp
      then show ?thesis by blast
    next
      case (Cons p ps')
      with Cons.prems True obtain ys zs where "xs = ys @ x # zs" "filter P ys = ps'" "p = a"
        using Cons.IH [of ps'] by auto
      with Cons True have "a # xs = (a # ys) @ x # zs \<and> filter P (a # ys) = ps" by simp
      then show ?thesis by blast
    qed
  next
    case False
    with Cons obtain ys zs where "xs = ys @ x # zs" "filter P ys = ps" by auto
    with False have "a # xs = (a # ys) @ x # zs \<and> filter P (a # ys) = ps" by simp
    then show ?thesis by blast
  qed
qed simp

section \<open>Newest snapshot\<close>

interpretation newest: ranked_scan created_after "\<lambda>img. - img_Created img"
  by unfold_locales (simp add: created_after_def)

section \<open>Outcomes of a resolution\<close>

fun image_type_of :: "string \<Rightarrow> image_type" where
  "image_type_of family = (if family = ''ubuntu'' then ImageTypeSystem else ImageTypeSnapshot)"

definition supported_family :: "image_selector \<Rightarrow> bool" where
  "supported_family sel \<longleftrightarrow> ToLower (sel_Family sel) = ''ubuntu'' \<or> ToLower (sel_Family sel) = ''talos''"

text \<open>The query sent for a selector, what it answers, and the images of an answer the selector means.\<close>

definition image_query :: "image_selector \<Rightarrow> string \<Rightarrow> image_list_opts" where
  "image_query sel arch =
     \<lparr>ilo_Type = image_type_of (ToLower (sel_Family sel)), ilo_Architecture = arch,
      ilo_LabelSelector = labelSelectorString (sel_Selector sel)\<rparr>"

definition selector_matches :: "image_selector \<Rightarrow> image \<Rightarrow> bool" where
  "selector_matches sel img \<longleftrightarrow> image_matches (ToLower (sel_Family sel)) (sel_Version sel) img"

text \<open>Both families in one shape: query, pick from the answer, or a permanent error.\<close>

definition pick_image :: "image_selector \<Rightarrow> image list \<Rightarrow> image option" where
  "pick_image sel images =
     (if ToLower (sel_Family sel) = ''ubuntu'' then find (selector_matches sel) images
      else scan_best created_after None (filter (selector_matches sel) images))"

lemma pick_image_None: "pick_image sel images = None \<longleftrightarrow> (\<forall>img \<in> set images. \<not> selector_matches sel img)"
  by (auto simp: pick_image_def find_None_iff newest.scan_None_iff filter_empty_conv)

lemma pick_image_Some: "pick_image sel images = Some img \<Longrightarrow> img \<in> set images \<and> selector_matches sel img"
  using newest.scan_best_is_best [of "filter (selector_matches sel) images" img]
  by (auto simp: pick_image_def find_Some_iff split: if_splits)

lemma Resolve_supported:
  assumes "supported_family sel"
  obtains absent unreadable where "IsPermanent absent" "\<And>e. \<not> IsPermanent (unreadable e)"
    "Resolve client sel arch s =
       (case client (image_query sel arch) (env_world s) of
          (Ok images, w) \<Rightarrow>
            (case pick_image sel images of
               Some img \<Rightarrow> (Ok img, s\<lparr>env_world := w\<rparr>)
             | None \<Rightarrow> (Err absent, s\<lparr>env_world := w\<rparr>))
        | (Err e, w) \<Rightarrow> (Err (unreadable e), s\<lparr>env_world := w\<rparr>)
        | (Panic, w) \<Rightarrow> (Panic, s\<lparr>env_world := w\<rparr>))"
proof (cases "ToLower (sel_Family sel) = ''ubuntu''")
  case True
  let ?a = "if sel_Version sel \<noteq> ''''
            then newPermanentError ''no ubuntu image found for version %q and arch %q''
                   [AStr (sel_Version sel), AStr arch]
            else newPermanentError ''no ubuntu image found for arch %q'' [AStr arch]"
  show thesis
    by (rule that [of ?a "\<lambda>e. ErrWrap ''listing ubuntu images: %w'' [] (ErrSdk e)"])
       (auto simp: err_simps newPermanentError_def Resolve_def True resolveUbuntu_def pick_image_def
         image_query_def selector_matches_def [abs_def] on_world_def bind_call_def wrap_call_def
         return_call_def fail_call_def split: prod.splits outcome.splits option.splits)
next
  case False
  with assms have t: "ToLower (sel_Family sel) = ''talos''" by (simp add: supported_family_def)
  let ?a = "if sel_Version sel \<noteq> ''''
            then newPermanentError ''no talos snapshot found for version %q and arch %q''
                   [AStr (sel_Version sel), AStr arch]
            else newPermanentError ''no talos snapshot found for arch %q'' [AStr arch]"
  show thesis
    by (rule that [of ?a "\<lambda>e. ErrWrap ''listing talos images: %w'' [] (ErrSdk e)"])
       (auto simp: err_simps newPermanentError_def Resolve_def t resolveTalos_def pick_image_def
         image_query_def selector_matches_def [abs_def] on_world_def bind_call_def wrap_call_def
         return_call_def fail_call_def split: prod.splits outcome.splits option.splits)
qed

lemma Resolve_unsupported:
  "\<not> supported_family sel \<Longrightarrow> \<exists>e. Resolve client sel arch s = (Err e, s) \<and> IsPermanent e"
  by (simp add: Resolve_def supported_family_def fail_call_def newPermanentError_def err_simps)

text \<open>No failure of a resolution is one of the errors karpenter core acts on.\<close>

lemma Resolve_error_plain:
  "Resolve client sel arch s = (Err e, s') \<Longrightarrow>
     \<not> IsInsufficientCapacityError e \<and> \<not> IsNodeClassNotReadyError e"
  by (auto simp: Resolve_def Let_def resolveUbuntu_def resolveTalos_def bind_call_def wrap_call_def
      fail_call_def return_call_def newPermanentError_def err_simps
      split: if_splits prod.splits outcome.splits option.splits)

lemma Resolve_cases:
  obtains (unsupported) e where "\<not> supported_family sel" "Resolve client sel arch s = (Err e, s)" "IsPermanent e"
  | (found) images w img where "supported_family sel"
      "client (image_query sel arch) (env_world s) = (Ok images, w)"
      "Resolve client sel arch s = (Ok img, s\<lparr>env_world := w\<rparr>)" "pick_image sel images = Some img"
  | (absent) images w e where "supported_family sel"
      "client (image_query sel arch) (env_world s) = (Ok images, w)" "pick_image sel images = None"
      "Resolve client sel arch s = (Err e, s\<lparr>env_world := w\<rparr>)" "IsPermanent e"
  | (unreadable) e w e' where "supported_family sel"
      "client (image_query sel arch) (env_world s) = (Err e, w)"
      "Resolve client sel arch s = (Err e', s\<lparr>env_world := w\<rparr>)" "\<not> IsPermanent e'"
  | (panicked) w where "supported_family sel"
      "client (image_query sel arch) (env_world s) = (Panic, w)"
      "Resolve client sel arch s = (Panic, s\<lparr>env_world := w\<rparr>)"
proof (cases "supported_family sel")
  case True
  obtain a u where R: "IsPermanent a" "\<And>e. \<not> IsPermanent (u e)"
    "Resolve client sel arch s =
       (case client (image_query sel arch) (env_world s) of
          (Ok images, w) \<Rightarrow>
            (case pick_image sel images of
               Some img \<Rightarrow> (Ok img, s\<lparr>env_world := w\<rparr>)
             | None \<Rightarrow> (Err a, s\<lparr>env_world := w\<rparr>))
        | (Err e, w) \<Rightarrow> (Err (u e), s\<lparr>env_world := w\<rparr>)
        | (Panic, w) \<Rightarrow> (Panic, s\<lparr>env_world := w\<rparr>))"
    using Resolve_supported [OF True, of client arch s] by blast
  obtain r w where rw: "client (image_query sel arch) (env_world s) = (r, w)"
    by (cases "client (image_query sel arch) (env_world s)")
  show thesis
  proof (cases r)
    case (Ok images)
    with rw R True found absent show thesis by (cases "pick_image sel images") auto
  next
    case (Err e)
    with rw R True unreadable show thesis by auto
  next
    case Panic
    with rw R True panicked show thesis by auto
  qed
next
  case False
  with Resolve_unsupported [of sel client arch s] unsupported show thesis by blast
qed

text \<open>C32: A resolution that succeeds returns an image of the catalogue's own answer whose lowered
  description names the family and holds the version; for ubuntu it is the first such image, for
  talos a newest one, and the first listed of those equally new.\<close>

theorem resolved_image_is_best:
  assumes "Resolve client sel arch s = (Ok img, s')"
  shows "\<exists>images w ys zs. client (image_query sel arch) (env_world s) = (Ok images, w) \<and> s' = s\<lparr>env_world := w\<rparr> \<and>
    Contains (ToLower (img_Description img)) (ToLower (sel_Family sel)) \<and>
    (sel_Version sel = '''' \<or> Contains (ToLower (img_Description img)) (sel_Version sel)) \<and>
    images = ys @ img # zs \<and>
    (if ToLower (sel_Family sel) = ''ubuntu'' then \<forall>y \<in> set ys. \<not> selector_matches sel y
     else ToLower (sel_Family sel) = ''talos'' \<and>
       (\<forall>y \<in> set images. selector_matches sel y \<longrightarrow> img_Created y \<le> img_Created img) \<and>
       (\<forall>y \<in> set ys. selector_matches sel y \<longrightarrow> img_Created y < img_Created img))"
proof -
  obtain images w where f: "supported_family sel" "client (image_query sel arch) (env_world s) = (Ok images, w)"
      "s' = s\<lparr>env_world := w\<rparr>" "pick_image sel images = Some img"
    using assms by (cases rule: Resolve_cases [of sel client arch s]) auto
  have "selector_matches sel img" using pick_image_Some [OF f(4)] by blast
  then have m: "Contains (ToLower (img_Description img)) (ToLower (sel_Family sel))"
      "sel_Version sel = '''' \<or> Contains (ToLower (img_Description img)) (sel_Version sel)"
    by (auto simp: selector_matches_def image_matches_def Let_def)
  show ?thesis
  proof (cases "ToLower (sel_Family sel) = ''ubuntu''")
    case True
    with f(4) have "find (selector_matches sel) images = Some img" by (simp add: pick_image_def)
    then obtain ys zs where "images = ys @ img # zs" "\<forall>y \<in> set ys. \<not> selector_matches sel y"
      using find_split by metis
    with f m True show ?thesis by auto
  next
    case False
    let ?ms = "filter (selector_matches sel) images"
    from False f(1) have t: "ToLower (sel_Family sel) = ''talos''" by (simp add: supported_family_def)
    from False f(4) have sc: "scan_best created_after None ?ms = Some img" by (simp add: pick_image_def)
    obtain ps qs where "?ms = ps @ img # qs" "\<forall>y \<in> set ps. created_after img y"
      using newest.scan_best_first [OF sc] by blast
    then obtain ys zs where split: "images = ys @ img # zs" "filter (selector_matches sel) ys = ps"
      using filter_split by metis
    then have "\<forall>y \<in> set ys. selector_matches sel y \<longrightarrow> img_Created y < img_Created img"
      using \<open>\<forall>y \<in> set ps. created_after img y\<close> by (auto simp: created_after_def)
    moreover have "\<forall>y \<in> set images. selector_matches sel y \<longrightarrow> img_Created y \<le> img_Created img"
      using newest.scan_best_least [OF sc] by auto
    ultimately show ?thesis using f m t split(1) by auto
  qed
qed

definition ubuntu_image :: "int64 \<Rightarrow> go_time \<Rightarrow> image" where
  "ubuntu_image i t = \<lparr>img_ID = i, img_Description = ''Ubuntu 24.04'', img_Architecture = ArchitectureX86, img_Created = t\<rparr>"

definition talos_image :: "int64 \<Rightarrow> go_time \<Rightarrow> image" where
  "talos_image i t = \<lparr>img_ID = i, img_Description = ''Talos v1.9'', img_Architecture = ArchitectureX86, img_Created = t\<rparr>"

definition talos_selector :: image_selector where
  "talos_selector = \<lparr>sel_Family = ''Talos'', sel_Version = ''v1.9'', sel_Selector = []\<rparr>"

text \<open>An image catalogue that never changes, and the state it is asked in.\<close>

definition still_images :: "(sdk_error, image list) outcome \<Rightarrow> unit image_client" where
  "still_images r q w = (r, w)"

definition still_env :: "unit env" where
  "still_env = \<lparr>env_world = (), env_metrics = initial_metrics\<rparr>"

lemma talos_example_matches: "selector_matches talos_selector (talos_image i t)" "supported_family talos_selector"
  "\<not> selector_matches talos_selector (ubuntu_image i t)"
  by (simp_all add: selector_matches_def image_matches_def talos_selector_def talos_image_def ubuntu_image_def
      supported_family_def Let_def, code_simp+)

theorem resolved_image_is_best_witness:
  "\<exists>s'. Resolve (still_images (Ok [ubuntu_image 1 9, talos_image 2 3, talos_image 3 5, talos_image 4 5]))
     talos_selector ArchitectureX86 still_env = (Ok (talos_image 3 5), s')"
proof -
  let ?imgs = "[ubuntu_image 1 9, talos_image 2 3, talos_image 3 5, talos_image 4 5]"
  have fam: "ToLower (sel_Family talos_selector) = ''talos''" by code_simp
  have "pick_image talos_selector ?imgs = Some (talos_image 3 5)"
    using talos_example_matches
    by (simp add: pick_image_def fam created_after_def) (simp add: talos_image_def)
  then have "\<exists>s'. Resolve (still_images (Ok ?imgs)) talos_selector ArchitectureX86 still_env = (Ok (talos_image 3 5), s')"
    using talos_example_matches(2)
    by (cases rule: Resolve_cases [of talos_selector "still_images (Ok ?imgs)" ArchitectureX86 still_env])
       (auto simp: still_images_def)
  then obtain s' where r: "Resolve (still_images (Ok ?imgs)) talos_selector ArchitectureX86 still_env =
      (Ok (talos_image 3 5), s')" by blast
  from resolved_image_is_best [OF r] r show ?thesis by blast
qed

text \<open>C31: A resolution fails permanently exactly when asking again cannot help: the family is not
  supported, or the catalogue was read and none of its images matches. An API failure is never
  reported as the image being absent, and an unsupported family is rejected without a call.\<close>

theorem permanent_iff_proven_absent:
  "(\<exists>e s'. Resolve client sel arch s = (Err e, s') \<and> IsPermanent e) \<longleftrightarrow>
     \<not> supported_family sel \<or>
     (\<exists>images w. client (image_query sel arch) (env_world s) = (Ok images, w) \<and>
        (\<nexists>img. img \<in> set images \<and> selector_matches sel img))"
proof (cases rule: Resolve_cases [of sel client arch s])
  case (found images w img)
  then show ?thesis using pick_image_Some [of sel images img] by auto
next
  case (absent images w e)
  then show ?thesis by (auto simp: pick_image_None)
qed auto

theorem permanent_iff_proven_absent_witness:
  "\<exists>e s'. Resolve (still_images (Err (SdkError None ''503''))) \<lparr>sel_Family = ''debian'', sel_Version = '''', sel_Selector = []\<rparr>
     ArchitectureX86 still_env = (Err e, s') \<and> IsPermanent e"
proof -
  have "\<not> supported_family \<lparr>sel_Family = ''debian'', sel_Version = '''', sel_Selector = []\<rparr>" by code_simp
  then show ?thesis unfolding permanent_iff_proven_absent by blast
qed

text \<open>The version is compared as written against a description in lower case: a version holding
  an upper-case letter matches no image whatever the catalogue holds, so the resolution fails
  permanently whenever the catalogue can be read.\<close>

theorem uppercase_version_never_resolves:
  assumes "c \<in> set (sel_Version sel)" and "ascii_upper c"
  shows "\<nexists>img s'. Resolve client sel arch s = (Ok img, s')"
proof -
  have "\<not> Contains (ToLower d) (sel_Version sel)" for d
    using assms Contains_set [of "ToLower d" "sel_Version sel"] ToLower_no_upper by blast
  moreover have "sel_Version sel \<noteq> ''''" using assms by auto
  ultimately show ?thesis using resolved_image_is_best by blast
qed

section \<open>The contract of an image source\<close>

text \<open>
  What the clients of the provider rely on: success is an image of a catalogue that could be read, a
  permanent error is proof that no image of the catalogue matches, any other error says nothing. The
  catalogue is None when it cannot be read.
\<close>

locale image_source =
  fixes resolve :: "'q \<Rightarrow> string \<Rightarrow> ('s, err, image) call"
    and catalogue :: "'q \<Rightarrow> string \<Rightarrow> 's \<Rightarrow> image list option"
    and matches :: "'q \<Rightarrow> image \<Rightarrow> bool"
    and supported :: "'q \<Rightarrow> bool"
  assumes resolve_ok: "resolve q a s = (Ok img, s') \<Longrightarrow>
      \<exists>imgs. catalogue q a s = Some imgs \<and> img \<in> set imgs \<and> matches q img"
    and resolve_permanent: "resolve q a s = (Err e, s') \<Longrightarrow>
      IsPermanent e \<longleftrightarrow> \<not> supported q \<or> (\<exists>imgs. catalogue q a s = Some imgs \<and> (\<forall>img \<in> set imgs. \<not> matches q img))"
begin

text \<open>The catalogue holds an image: then no permanent error, and an unreadable one never gives one.\<close>

lemma present_never_permanent:
  "supported q \<Longrightarrow> catalogue q a s = Some imgs \<Longrightarrow> img \<in> set imgs \<Longrightarrow> matches q img \<Longrightarrow>
     resolve q a s = (Err e, s') \<Longrightarrow> \<not> IsPermanent e"
  using resolve_permanent by fastforce

lemma unreadable_never_permanent:
  "supported q \<Longrightarrow> catalogue q a s = None \<Longrightarrow> resolve q a s = (Err e, s') \<Longrightarrow> \<not> IsPermanent e"
  using resolve_permanent by fastforce

lemma unreadable_never_ok: "catalogue q a s = None \<Longrightarrow> resolve q a s \<noteq> (Ok img, s')"
  using resolve_ok by fastforce

end

fun readable :: "('e, 'a) outcome \<Rightarrow> 'a option" where
  "readable (Ok a) = Some a"
| "readable (Err e) = None"
| "readable Panic = None"

interpretation images: image_source "Resolve client"
    "\<lambda>sel arch s. readable (fst (client (image_query sel arch) (env_world s)))" selector_matches supported_family
  for client
proof unfold_locales
  fix sel arch s img s'
  assume "Resolve client sel arch s = (Ok img, s')"
  then show "\<exists>imgs. readable (fst (client (image_query sel arch) (env_world s))) = Some imgs \<and>
      img \<in> set imgs \<and> selector_matches sel img"
    by (cases rule: Resolve_cases [of sel client arch s]) (auto dest: pick_image_Some)
next
  fix sel arch s e s'
  assume "Resolve client sel arch s = (Err e, s')"
  then show "IsPermanent e \<longleftrightarrow> \<not> supported_family sel \<or>
      (\<exists>imgs. readable (fst (client (image_query sel arch) (env_world s))) = Some imgs \<and>
         (\<forall>img \<in> set imgs. \<not> selector_matches sel img))"
    by (cases rule: Resolve_cases [of sel client arch s]) (auto simp: pick_image_None)
qed

end
