(* ===== verification/Karp_Core.thy ===== *)
theory Karp_Core
  imports Hcloud_Api
begin

text \<open>
  The data of karpenter core the provider builds and reads -- requirements, offerings, instance
  types, NodeClaims -- and the core functions it calls. Core is outside the repository, so its
  functions are one record of parameters, and \<open>core_spec\<close> collects what their documentation says and
  the provider relies on.
\<close>

section \<open>Data\<close>

datatype req_operator = OpIn | OpOther string

record requirement =
  req_Key :: string
  req_Operator :: req_operator
  req_Values :: "string list"

type_synonym requirements = "requirement go_map"

text \<open>
  \<open>NewRequirement(key, In, value)\<close>, and \<open>NewRequirements\<close> of requirements with pairwise different
  keys, which is the map from each key to its requirement.
\<close>

definition in_req :: "string \<Rightarrow> string \<Rightarrow> requirement" where
  "in_req k v = \<lparr>req_Key = k, req_Operator = OpIn, req_Values = [v]\<rparr>"

definition new_requirements :: "requirement list \<Rightarrow> requirements" where
  "new_requirements rs = map (\<lambda>r. (req_Key r, r)) rs"

text \<open>
  An offering's price is a \<open>float64\<close>; those of this provider are finite, so the rational it stands
  for is kept.
\<close>

record offering =
  off_Requirements :: requirements
  off_Price :: rat
  off_Available :: bool

datatype quantity = Quantity int64 | MilliQuantity int64

type_synonym resource_list = "(string \<times> quantity) list"

record instance_type =
  it_Name :: string
  it_Requirements :: requirements
  it_Offerings :: "offering list"
  it_Capacity :: resource_list
  it_KubeReserved :: resource_list

text \<open>A requirement of a NodeClaim, as the API object has it.\<close>

record selector_requirement =
  nsr_Key :: string
  nsr_Operator :: string
  nsr_Values :: "string list"
  nsr_MinValues :: "int option"

record node_claim =
  ncl_Name :: string
  ncl_Labels :: "string go_map"
  ncl_NodeClassRef :: "string option"
  ncl_Requirements :: "selector_requirement list"
  ncl_ProviderID :: string
  ncl_ImageID :: string
  ncl_Capacity :: resource_list
  ncl_Allocatable :: resource_list

definition empty_node_claim :: node_claim where
  "empty_node_claim =
     \<lparr>ncl_Name = '''', ncl_Labels = [], ncl_NodeClassRef = None, ncl_Requirements = [],
      ncl_ProviderID = '''', ncl_ImageID = '''', ncl_Capacity = [], ncl_Allocatable = []\<rparr>"

section \<open>The functions of core the provider calls\<close>

record karp_core =
  kc_Get :: "requirements \<Rightarrow> string \<Rightarrow> requirement"
  kc_Any :: "requirement \<Rightarrow> string"
  kc_IsCompatible :: "selector_requirement list \<Rightarrow> requirements \<Rightarrow> bool"
  kc_Available :: "offering list \<Rightarrow> offering list"
  kc_Compatible :: "offering list \<Rightarrow> selector_requirement list \<Rightarrow> offering list"
  kc_Cheapest :: "offering list \<Rightarrow> offering option"
  kc_Zone :: "offering \<Rightarrow> string"
  kc_Allocatable :: "instance_type \<Rightarrow> resource_list"

text \<open>
  \<open>Get\<close> returns the entry of a defined key; \<open>Any\<close> of an \<open>In\<close> requirement is one of its values.
\<close>

definition core_reads :: "karp_core \<Rightarrow> bool" where
  "core_reads kc \<longleftrightarrow>
     (\<forall>rs k r. map_of rs k = Some r \<longrightarrow> kc_Get kc rs k = r) \<and>
     (\<forall>r. req_Operator r = OpIn \<and> req_Values r \<noteq> [] \<longrightarrow> kc_Any kc r \<in> set (req_Values r)) \<and>
     (\<forall>off. kc_Zone kc off = kc_Any kc (kc_Get kc (off_Requirements off) LabelTopologyZone))"

text \<open>
  \<open>Available\<close> and \<open>Compatible\<close> keep the offerings that are available, or whose requirements the
  claim's are compatible with; \<open>Cheapest\<close> is an offering of least price, nil only of none.
\<close>

definition core_offerings :: "karp_core \<Rightarrow> bool" where
  "core_offerings kc \<longleftrightarrow>
     (\<forall>offs. kc_Available kc offs = filter off_Available offs) \<and>
     (\<forall>offs q. kc_Compatible kc offs q = filter (\<lambda>off. kc_IsCompatible kc q (off_Requirements off)) offs) \<and>
     (\<forall>offs. case kc_Cheapest kc offs of
         None \<Rightarrow> offs = []
       | Some off \<Rightarrow> off \<in> set offs \<and> (\<forall>off' \<in> set offs. off_Price off \<le> off_Price off'))"

definition core_spec :: "karp_core \<Rightarrow> bool" where
  "core_spec kc \<longleftrightarrow> core_reads kc \<and> core_offerings kc"

definition zone_of :: "karp_core \<Rightarrow> offering \<Rightarrow> string" where
  "zone_of kc off = kc_Any kc (kc_Get kc (off_Requirements off) LabelTopologyZone)"

named_theorems core_rules \<open>consequences of the documented behaviour of karpenter core\<close>

lemma core_Get [core_rules]: "core_reads kc \<Longrightarrow> map_of rs k = Some r \<Longrightarrow> kc_Get kc rs k = r"
  by (simp add: core_reads_def)

lemma in_req_Key [simp]: "req_Key (in_req k v) = k"
  by (simp add: in_req_def)

lemma core_Any_single [core_rules]: "core_reads kc \<Longrightarrow> kc_Any kc (in_req k v) = v"
proof -
  assume "core_reads kc"
  then have "\<forall>r. req_Operator r = OpIn \<and> req_Values r \<noteq> [] \<longrightarrow> kc_Any kc r \<in> set (req_Values r)"
    by (simp add: core_reads_def)
  from this [THEN spec, of "in_req k v"] show ?thesis by (simp add: in_req_def)
qed

lemma core_Zone [core_rules]: "core_reads kc \<Longrightarrow> kc_Zone kc off = zone_of kc off"
  by (simp add: core_reads_def zone_of_def)

lemma core_Available [core_rules]: "core_offerings kc \<Longrightarrow> kc_Available kc offs = filter off_Available offs"
  by (simp add: core_offerings_def)

lemma core_Compatible [core_rules]:
  "core_offerings kc \<Longrightarrow>
     kc_Compatible kc offs q = filter (\<lambda>off. kc_IsCompatible kc q (off_Requirements off)) offs"
  by (simp add: core_offerings_def)

lemma core_Cheapest_cases:
  "core_offerings kc \<Longrightarrow>
     (case kc_Cheapest kc offs of
        None \<Rightarrow> offs = []
      | Some off \<Rightarrow> off \<in> set offs \<and> (\<forall>off' \<in> set offs. off_Price off \<le> off_Price off'))"
  by (simp only: core_offerings_def)

lemma core_Cheapest_Some:
  "core_offerings kc \<Longrightarrow> kc_Cheapest kc offs = Some off \<Longrightarrow>
     off \<in> set offs \<and> (\<forall>off' \<in> set offs. off_Price off \<le> off_Price off')"
  using core_Cheapest_cases [of kc offs] by simp

lemma core_Cheapest_None:
  "core_offerings kc \<Longrightarrow> kc_Cheapest kc offs = None \<longleftrightarrow> offs = []"
  using core_Cheapest_cases [of kc offs] by (auto split: option.splits)

lemma core_spec_parts: "core_spec kc \<Longrightarrow> core_reads kc" "core_spec kc \<Longrightarrow> core_offerings kc"
  by (simp_all add: core_spec_def)

section \<open>An instance of core\<close>

text \<open>
  A concrete core for the witnesses: an \<open>In\<close> requirement of a claim is met by an instance type or
  offering that leaves the key undefined or shares a value with it, any other requirement is met.
\<close>

definition ex_compatible :: "selector_requirement list \<Rightarrow> requirements \<Rightarrow> bool" where
  "ex_compatible q rs \<longleftrightarrow>
     list_all (\<lambda>n. nsr_Operator n \<noteq> ''In'' \<or>
        (case map_of rs (nsr_Key n) of
           None \<Rightarrow> True
         | Some r \<Rightarrow> list_ex (\<lambda>v. v \<in> set (nsr_Values n)) (req_Values r))) q"

fun ex_cheapest :: "offering list \<Rightarrow> offering option" where
  "ex_cheapest [] = None"
| "ex_cheapest (off # offs) =
     (case ex_cheapest offs of
        None \<Rightarrow> Some off
      | Some off' \<Rightarrow> if off_Price off \<le> off_Price off' then Some off else Some off')"

definition ex_get :: "requirements \<Rightarrow> string \<Rightarrow> requirement" where
  "ex_get rs k = (case map_of rs k of
     None \<Rightarrow> \<lparr>req_Key = k, req_Operator = OpOther ''Exists'', req_Values = []\<rparr> | Some r \<Rightarrow> r)"

definition ex_any :: "requirement \<Rightarrow> string" where
  "ex_any r = (case req_Values r of [] \<Rightarrow> ''0'' | v # vs \<Rightarrow> v)"

definition example_core :: karp_core where
  "example_core =
     \<lparr>kc_Get = ex_get,
      kc_Any = ex_any,
      kc_IsCompatible = ex_compatible,
      kc_Available = filter off_Available,
      kc_Compatible = (\<lambda>offs q. filter (\<lambda>off. ex_compatible q (off_Requirements off)) offs),
      kc_Cheapest = ex_cheapest,
      kc_Zone = (\<lambda>off. ex_any (ex_get (off_Requirements off) LabelTopologyZone)),
      kc_Allocatable = it_Capacity\<rparr>"

lemma ex_cheapest_spec:
  "case ex_cheapest offs of
     None \<Rightarrow> offs = []
   | Some off \<Rightarrow> off \<in> set offs \<and> (\<forall>off' \<in> set offs. off_Price off \<le> off_Price off')"
  by (induction offs) (auto split: option.splits)

lemma example_core_spec: "core_spec example_core"
  using ex_cheapest_spec
  by (auto simp: core_spec_def core_reads_def core_offerings_def example_core_def ex_get_def ex_any_def
      split: list.splits)

end
