(* ===== verification/Unavailable_Cache.thy ===== *)
theory Unavailable_Cache
  imports Go_Prelude
begin

text \<open>
  \<open>pkg/providers/instancetype/unavailable.go\<close>: the offerings that recently failed with a capacity
  error. The clock is passed in; the mutex makes every operation atomic. The locale states the
  contract the instance-type provider relies on: a mark hides a key for the TTL, a later mark
  restarts it, and other keys are not affected.
\<close>

record unavailable_cache =
  uc_ttl :: duration
  uc_items :: "string \<rightharpoonup> go_time"

definition newUnavailableCache :: "duration \<Rightarrow> unavailable_cache" where
  "newUnavailableCache ttl = \<lparr>uc_ttl = ttl, uc_items = Map.empty\<rparr>"

definition unavailKey :: "string \<Rightarrow> string \<Rightarrow> string" where
  "unavailKey serverType location = serverType @ [CHR 0x00] @ location"

definition markUnavailable ::
  "go_time \<Rightarrow> string \<Rightarrow> string \<Rightarrow> unavailable_cache \<Rightarrow> unavailable_cache" where
  "markUnavailable now serverType location c =
     c\<lparr>uc_items := (uc_items c)(unavailKey serverType location \<mapsto> now + uc_ttl c)\<rparr>"

definition isUnavailable :: "go_time \<Rightarrow> string \<Rightarrow> string \<Rightarrow> unavailable_cache \<Rightarrow> bool" where
  "isUnavailable now serverType location c =
     (case uc_items c (unavailKey serverType location) of
        None \<Rightarrow> False
      | Some ex \<Rightarrow> now < ex)"

section \<open>The contract\<close>

locale ttl_marks =
  fixes mark :: "go_time \<Rightarrow> 'k \<Rightarrow> 'c \<Rightarrow> 'c"
    and marked :: "go_time \<Rightarrow> 'k \<Rightarrow> 'c \<Rightarrow> bool"
    and ttl :: "'c \<Rightarrow> duration"
    and key_ok :: "'k \<Rightarrow> bool"
  assumes marked_mark: "marked now k (mark t k c) \<longleftrightarrow> now < t + ttl c"
    and marked_other: "key_ok k \<Longrightarrow> key_ok k' \<Longrightarrow> k \<noteq> k' \<Longrightarrow> marked now k' (mark t k c) = marked now k' c"
    and ttl_mark: "ttl (mark t k c) = ttl c"
begin

text \<open>The cache after a history of failures, the oldest first.\<close>

lemma ttl_history: "ttl (fold (\<lambda>(t, k). mark t k) h c) = ttl c"
  by (induction h arbitrary: c) (auto simp: ttl_mark)

lemma marked_history_irrelevant:
  "key_ok k \<Longrightarrow> \<forall>(t, k') \<in> set h. key_ok k' \<and> k' \<noteq> k \<Longrightarrow>
     marked now k (fold (\<lambda>(t, k). mark t k) h c) = marked now k c"
  by (induction h arbitrary: c) (auto simp: marked_other)

lemma marked_last:
  assumes "key_ok k" and "\<forall>(t', k') \<in> set h. key_ok k' \<and> k' \<noteq> k"
  shows "marked now k (fold (\<lambda>(t, k). mark t k) (g @ (t, k) # h) c) \<longleftrightarrow> now < t + ttl c"
  using assms by (simp add: marked_history_irrelevant marked_mark ttl_history)

end

lemma unavailKey_inj:
  assumes "CHR 0x00 \<notin> set s" and "CHR 0x00 \<notin> set s'"
  shows "unavailKey s l = unavailKey s' l' \<longleftrightarrow> s = s' \<and> l = l'"
proof
  assume eq: "unavailKey s l = unavailKey s' l'"
  have "takeWhile (\<lambda>c. c \<noteq> CHR 0x00) (unavailKey x y) = x" if "CHR 0x00 \<notin> set x" for x y
    using that by (auto simp: unavailKey_def takeWhile_append)
  from this [OF assms(1), of l] this [OF assms(2), of l'] eq have "s = s'" by simp
  with eq show "s = s' \<and> l = l'" by (simp add: unavailKey_def)
qed simp

definition mark_pair :: "go_time \<Rightarrow> string \<times> string \<Rightarrow> unavailable_cache \<Rightarrow> unavailable_cache" where
  "mark_pair t k c = markUnavailable t (fst k) (snd k) c"

definition marked_pair :: "go_time \<Rightarrow> string \<times> string \<Rightarrow> unavailable_cache \<Rightarrow> bool" where
  "marked_pair t k c = isUnavailable t (fst k) (snd k) c"

definition type_name_ok :: "string \<times> string \<Rightarrow> bool" where
  "type_name_ok k \<longleftrightarrow> CHR 0x00 \<notin> set (fst k)"

interpretation unavail: ttl_marks mark_pair marked_pair uc_ttl type_name_ok
  by unfold_locales
     (auto simp: mark_pair_def marked_pair_def markUnavailable_def isUnavailable_def type_name_ok_def
       unavailKey_inj prod_eq_iff)

text \<open>A pair of server type and location is reported unavailable exactly while less than the TTL
  has passed since its own last capacity failure: earlier failures of the pair, and failures of any
  other pair before or after, do not matter.\<close>

theorem unavailable_since_last_failure:
  assumes "CHR 0x00 \<notin> set st"
    and "\<forall>(t', st', l') \<in> set later. CHR 0x00 \<notin> set st' \<and> (st', l') \<noteq> (st, loc)"
  shows "isUnavailable now st loc
           (fold (\<lambda>(t, k). markUnavailable t (fst k) (snd k)) (earlier @ (t, st, loc) # later)
             (newUnavailableCache ttl)) \<longleftrightarrow> now < t + ttl"
proof -
  have "type_name_ok (st, loc)" using assms(1) by (simp add: type_name_ok_def)
  moreover have "\<forall>(t', k') \<in> set later. type_name_ok k' \<and> k' \<noteq> (st, loc)"
    using assms(2) by (fastforce simp: type_name_ok_def)
  ultimately have "marked_pair now (st, loc)
      (fold (\<lambda>(t, k). mark_pair t k) (earlier @ (t, st, loc) # later) (newUnavailableCache ttl)) \<longleftrightarrow>
      now < t + uc_ttl (newUnavailableCache ttl)"
    by (rule unavail.marked_last)
  then show ?thesis by (simp add: marked_pair_def newUnavailableCache_def mark_pair_def [abs_def])
qed

end
