(* ===== verification/Instance_Type.thy ===== *)
theory Instance_Type
  imports Karp_Core Unavailable_Cache Go_Parse
begin

text \<open>
  The pure part of \<open>pkg/providers/instancetype/instancetype.go\<close>: pricing, the mapping of a hcloud
  server type to a karpenter instance type, and the two passes over the catalogue, by location and
  by availability.
\<close>

section \<open>Pricing\<close>

text \<open>
  One figure: \<open>ParseFloat\<close> of the trimmed text, taken when \<open>err == nil && v > 0 && !math.IsInf(v, 0)\<close>;
  a NaN fails the comparison.
\<close>

definition parse_price :: "string \<Rightarrow> f64 option" where
  "parse_price s =
     (case ParseFloat (TrimSpace s) of
        None \<Rightarrow> None
      | Some v \<Rightarrow> if f64_pos v \<and> \<not> f64_is_inf v then Some v else None)"

definition hourlyNetPrice :: "pricing \<Rightarrow> f64 \<times> bool" where
  "hourlyNetPrice p =
     (case parse_price (pr_HourlyNet p) of
        Some v \<Rightarrow> (v, True)
      | None \<Rightarrow>
          (case parse_price (pr_MonthlyNet p) of
             Some v \<Rightarrow> (f64_div v (F64_Fin 730), True)
           | None \<Rightarrow> (F64_Fin 0, False)))"

fun f64_val :: "f64 \<Rightarrow> rat" where
  "f64_val (F64_Fin q) = q"
| "f64_val (F64_Inf n) = 0"
| "f64_val F64_NaN = 0"

section \<open>Server types\<close>

definition serverFamily :: "string \<Rightarrow> string" where
  "serverFamily name =
     (case find (HasPrefix name) [''cax'', ''cpx'', ''ccx'', ''cx''] of
        Some pre \<Rightarrow> pre
      | None \<Rightarrow> (let alpha = takeWhile (\<lambda>c. \<not> is_digit c) name in if alpha \<noteq> [] then alpha else name))"

text \<open>
  Go truncates a \<open>float64\<close> towards zero when it converts it to \<open>int64\<close>; out of range the result is
  up to the machine, here that of amd64.
\<close>

definition trunc_int64 :: "rat \<Rightarrow> int64" where
  "trunc_int64 q =
     (let z = (if q < 0 then \<lceil>q\<rceil> else \<lfloor>q\<rfloor>)
      in if - (2 ^ 63) \<le> z \<and> z < 2 ^ 63 then word_of_int z else word_of_int (- (2 ^ 63)))"

text \<open>
  Memory is a \<open>float32\<close> in GB, so the product with \<open>2^30\<close> is exact; disk and cores are integers whose
  products wrap at 64 bits.
\<close>

definition server_type_capacity :: "server_type \<Rightarrow> resource_list" where
  "server_type_capacity st =
     [(''cpu'', MilliQuantity (st_Cores st * 1000)),
      (''memory'', Quantity (trunc_int64 (st_Memory st * 1024 * 1024 * 1024))),
      (''ephemeral-storage'', Quantity (st_Disk st * 1024 * 1024 * 1024)),
      (''pods'', Quantity 110)]"

definition make_offering :: "string \<Rightarrow> f64 \<times> bool \<Rightarrow> offering" where
  "make_offering location pr =
     \<lparr>off_Requirements = new_requirements
        [in_req CapacityTypeLabelKey CapacityTypeOnDemand, in_req LabelTopologyZone location],
      off_Price = f64_val (fst pr),
      off_Available = snd pr\<rparr>"

fun offerings_of :: "pricing list \<Rightarrow> offering list" where
  "offerings_of [] = []"
| "offerings_of (p # ps) =
     (case pr_Location p of
        None \<Rightarrow> offerings_of ps
      | Some location \<Rightarrow> make_offering location (hourlyNetPrice p) # offerings_of ps)"

definition toInstanceType :: "server_type \<Rightarrow> instance_type" where
  "toInstanceType st =
     (let arch = (if st_Architecture st = ArchitectureARM then ''arm64'' else ''amd64'')
      in \<lparr>it_Name = st_Name st,
          it_Requirements = new_requirements
            [in_req LabelInstanceTypeStable (st_Name st),
             in_req LabelArchStable arch,
             in_req CapacityTypeLabelKey CapacityTypeOnDemand,
             in_req LabelCPUType (st_CPUType st),
             in_req LabelServerFamily (serverFamily (st_Name st))],
          it_Offerings = offerings_of (st_Pricings st),
          it_Capacity = server_type_capacity st,
          it_KubeReserved = [(''cpu'', MilliQuantity 100), (''memory'', Quantity (100 * 1024 * 1024))]\<rparr>)"

section \<open>Passes over the catalogue\<close>

definition filter_type :: "karp_core \<Rightarrow> string list \<Rightarrow> instance_type \<Rightarrow> instance_type" where
  "filter_type kc locations it =
     it\<lparr>it_Offerings := filter (\<lambda>off. zone_of kc off \<in> set locations) (it_Offerings it)\<rparr>"

definition filterByLocations ::
  "karp_core \<Rightarrow> instance_type list \<Rightarrow> string list \<Rightarrow> instance_type list" where
  "filterByLocations kc types locations =
     (if locations = [] then types
      else filter (\<lambda>it. it_Offerings it \<noteq> []) (map (filter_type kc locations) types))"

definition available_offering ::
  "karp_core \<Rightarrow> go_time \<Rightarrow> unavailable_cache \<Rightarrow> string \<Rightarrow> offering \<Rightarrow> offering" where
  "available_offering kc now c name off =
     off\<lparr>off_Available := off_Available off \<and> \<not> isUnavailable now name (zone_of kc off) c\<rparr>"

definition applyAvailability ::
  "karp_core \<Rightarrow> go_time \<Rightarrow> unavailable_cache \<Rightarrow> instance_type list \<Rightarrow> instance_type list" where
  "applyAvailability kc now c types =
     map (\<lambda>it. it\<lparr>it_Offerings := map (available_offering kc now c (it_Name it)) (it_Offerings it)\<rparr>) types"

section \<open>Facts about prices\<close>

lemma pow2_numeral_le: "pow2 k \<le> q \<Longrightarrow> 0 < q"
  using pow2_pos [of k] by linarith

lemma ulp_le:
  assumes "0 < q"
  shows "pow2 (ulp_exp q) \<le> q + pow2 (- 1074)"
proof (cases "- 1022 \<le> floor_log2 q")
  case True
  have "pow2 (ulp_exp q) \<le> pow2 (floor_log2 q)" using True by (intro pow2_mono) (simp add: ulp_exp_def)
  also have "\<dots> \<le> q" by (rule floor_log2_le [OF assms])
  finally show ?thesis using pow2_pos [of "- 1074"] by linarith
next
  case False
  then have "ulp_exp q = - 1074" by (simp add: ulp_exp_def)
  with assms show ?thesis by simp
qed

lemma rounded_le:
  assumes "0 < q"
  shows "of_int (round_half_even (q / pow2 (ulp_exp q))) * pow2 (ulp_exp q) \<le> 2 * q + pow2 (- 1074)"
proof -
  let ?u = "pow2 (ulp_exp q)"
  have "of_int (round_half_even (q / ?u)) \<le> q / ?u + 1"
    by (rule round_half_even_le)
  then have "of_int (round_half_even (q / ?u)) * ?u \<le> (q / ?u + 1) * ?u"
    by (intro mult_right_mono) simp_all
  also have "\<dots> = q + ?u" using less_imp_neq [OF pow2_pos [of "ulp_exp q"]] by (simp add: distrib_right)
  also have "\<dots> \<le> 2 * q + pow2 (- 1074)" using ulp_le [OF assms] by linarith
  finally show ?thesis .
qed

lemma finite_below_range:
  assumes "0 < q" and "2 * q + pow2 (- 1074) < pow2 1024"
  shows "\<exists>v. f64_round q = F64_Fin v"
  using rounded_le [OF assms(1)] assms by (simp add: f64_round_def Let_def)

lemma f64_round_below: "f64_round q = F64_Fin v \<Longrightarrow> v < pow2 1024"
proof -
  assume r: "f64_round q = F64_Fin v"
  show ?thesis
  proof (cases "q < 0")
    case True
    define u where "u = pow2 (ulp_exp (- q))"
    have u: "0 < u" by (simp add: u_def)
    have "0 \<le> - q / u" using True u by (intro divide_nonneg_pos) auto
    then have "0 \<le> \<lfloor>- q / u\<rfloor>" by (simp only: zero_le_floor)
    then have "0 \<le> round_half_even (- q / u)"
      using round_half_even_ge_floor [of "- q / u"] by linarith
    then have "0 \<le> of_int (round_half_even (- q / u)) * u" using u by simp
    with r True have "v \<le> 0" by (simp add: f64_round_def Let_def u_def split: if_splits)
    then show ?thesis using pow2_pos [of 1024] by linarith
  next
    case False
    with r show ?thesis by (auto simp: f64_round_def Let_def not_le split: if_splits)
  qed
qed

text \<open>Dividing a price by 730 hours never overflows: the monthly fallback is a finite number.\<close>

lemma monthly_fallback_finite:
  assumes "0 < q" and "q < pow2 1024"
  shows "\<exists>v. f64_div (F64_Fin q) (F64_Fin 730) = F64_Fin v \<and> 0 \<le> v"
proof -
  have "pow2 (- 1074) \<le> pow2 1023" by (rule pow2_mono) simp
  moreover have "pow2 1024 = 2 * pow2 1023" by (simp add: pow2_def)
  moreover have "2 * (q / 730) \<le> q / 365" by simp
  moreover have "q / 365 < pow2 1024 / 365" using assms(2) by (intro divide_strict_right_mono) auto
  ultimately have "2 * (q / 730) + pow2 (- 1074) < pow2 1024"
    using pow2_pos [of 1023] by linarith
  moreover have pos: "0 < q / 730" using assms(1) by simp
  ultimately obtain v where v: "f64_round (q / 730) = F64_Fin v" using finite_below_range by blast
  with f64_round_nonneg [of "q / 730" v] pos show ?thesis by auto
qed

lemma ParseFloat_finite_below: "ParseFloat s = Some (F64_Fin q) \<Longrightarrow> q < pow2 1024"
  by (auto simp: ParseFloat_def float_special_def Let_def f64_round_below
      split: option.splits prod.splits if_splits)

lemma parse_price_Some:
  "parse_price s = Some v \<Longrightarrow> \<exists>q. v = F64_Fin q \<and> 0 < q \<and> q < pow2 1024"
  by (cases v) (auto simp: parse_price_def ParseFloat_finite_below split: option.splits if_splits)

lemma hourly_price_cases:
  obtains (hourly) q where "parse_price (pr_HourlyNet p) = Some (F64_Fin q)" "0 < q"
      "hourlyNetPrice p = (F64_Fin q, True)"
  | (monthly) q v where "parse_price (pr_HourlyNet p) = None"
      "parse_price (pr_MonthlyNet p) = Some (F64_Fin q)" "0 < q"
      "f64_round (q / 730) = F64_Fin v" "0 \<le> v" "hourlyNetPrice p = (F64_Fin v, True)"
  | (unpriced) "parse_price (pr_HourlyNet p) = None" "parse_price (pr_MonthlyNet p) = None"
      "hourlyNetPrice p = (F64_Fin 0, False)"
proof (cases "parse_price (pr_HourlyNet p)")
  case (Some h)
  with parse_price_Some [of "pr_HourlyNet p" h] show ?thesis
    by (auto simp: hourlyNetPrice_def intro: hourly)
next
  case h: None
  show ?thesis
  proof (cases "parse_price (pr_MonthlyNet p)")
    case (Some m)
    then obtain q where q: "m = F64_Fin q" "0 < q" "q < pow2 1024" using parse_price_Some by blast
    then obtain v where v: "f64_div m (F64_Fin 730) = F64_Fin v" "0 \<le> v"
      using monthly_fallback_finite by blast
    with h Some q show ?thesis by (intro monthly [of q v]) (auto simp: hourlyNetPrice_def)
  next
    case None
    with h show ?thesis by (intro unpriced) (auto simp: hourlyNetPrice_def)
  qed
qed

text \<open>C38: The price of an entry is finite and never negative. The hourly figure is taken whenever it
  parses to a positive finite number and the monthly one divided by 730 otherwise; an entry where
  neither does is unpriced with price 0, so "inf", "NaN", a negative number, zero or an empty string
  is never taken for a price. A priced entry has price 0 only by an underflow of the monthly figure.\<close>

theorem hourly_net_price_sound:
  "\<exists>v. fst (hourlyNetPrice p) = F64_Fin v \<and> 0 \<le> v \<and>
     (case parse_price (pr_HourlyNet p) of
        Some h \<Rightarrow> snd (hourlyNetPrice p) \<and> h = F64_Fin v \<and> 0 < v
      | None \<Rightarrow>
          (case parse_price (pr_MonthlyNet p) of
             None \<Rightarrow> \<not> snd (hourlyNetPrice p) \<and> v = 0
           | Some m \<Rightarrow> snd (hourlyNetPrice p) \<and>
               (\<exists>q. m = F64_Fin q \<and> f64_round (q / 730) = F64_Fin v \<and>
                  (0 < v \<or> q \<le> 730 * pow2 (- 1075)))))"
proof (cases rule: hourly_price_cases [of p])
  case (hourly q)
  then show ?thesis by simp
next
  case (monthly q v)
  have "0 < v \<or> q \<le> 730 * pow2 (- 1075)"
    using f64_round_pos [of "q / 730" v] monthly(4) by (cases "pow2 (- 1075) < q / 730") auto
  with monthly show ?thesis by auto
next
  case unpriced
  then show ?thesis by simp
qed

definition priced :: "string \<Rightarrow> string \<Rightarrow> string option \<Rightarrow> pricing" where
  "priced h m loc = \<lparr>pr_Location = loc, pr_HourlyNet = h, pr_MonthlyNet = m\<rparr>"

text \<open>Concrete prices: an hourly figure, the monthly fallback, and an entry without a usable figure.\<close>

lemma example_reads:
  "TrimSpace ''4.5'' = ''4.5'' \<and> float_special ''4.5'' = None"
  "read_float ''4.5'' = Some (1 * 45 * (1 / (10 * 1)))"
  "TrimSpace '' 1460'' = ''1460'' \<and> float_special ''1460'' = None"
  "read_float ''1460'' = Some (1 * 1460 * 1)"
  by code_simp+

lemma example_price_hourly: "parse_price ''4.5'' = Some (F64_Fin (9 / 2))"
proof -
  have "f64_round (9 / 2) = F64_Fin (9 / 2)"
    by (rule f64_round_exact [where k = 9 and e = "- 1"]) (simp_all add: pow2_def)
  then show ?thesis by (simp add: parse_price_def ParseFloat_def example_reads)
qed

lemma example_price_none: "parse_price '''' = None" "parse_price ''inf'' = None" "parse_price ''NaN'' = None"
  by code_simp+

lemma example_price_monthly: "hourlyNetPrice (priced ''inf'' '' 1460'' loc) = (F64_Fin 2, True)"
proof -
  have "f64_round 1460 = F64_Fin 1460"
    by (rule f64_round_exact [where k = 1460 and e = 0]) (simp_all add: pow2_def)
  moreover have "f64_round 2 = F64_Fin 2"
    by (rule f64_round_exact [where k = 2 and e = 0]) (simp_all add: pow2_def)
  ultimately show ?thesis
    by (simp add: hourlyNetPrice_def priced_def example_price_none parse_price_def [of "'' 1460''"]
        ParseFloat_def example_reads)
qed

lemma example_prices:
  "snd (hourlyNetPrice (priced ''4.5'' '''' (Some ''nbg1''))) = True"
  "snd (hourlyNetPrice (priced '''' '''' (Some ''hel1''))) = False"
  by (simp_all add: hourlyNetPrice_def priced_def example_price_hourly example_price_none)

section \<open>Facts about the catalogue\<close>

lemma offering_zone [core_rules]:
  "core_reads kc \<Longrightarrow> zone_of kc (make_offering l pr) = l"
  by (simp add: zone_of_def core_Get [of kc _ _ "in_req LabelTopologyZone l"] core_Any_single
      make_offering_def new_requirements_def node_label_defs)

text \<open>The catalogue keeps exactly one offering per priced location of a server type, in the
  order hcloud lists them, in the zone of that location, on demand; an offering without a usable
  price is kept but marked unavailable, and none is dropped or made unavailable for another reason.\<close>

theorem catalogue_keeps_every_priced_location:
  assumes "core_reads kc"
  shows "map (\<lambda>off. (zone_of kc off, off_Available off)) (it_Offerings (toInstanceType st)) =
           [(l, snd (hourlyNetPrice p)). p \<leftarrow> st_Pricings st, l \<leftarrow> (case pr_Location p of None \<Rightarrow> [] | Some l \<Rightarrow> [l])] \<and>
         (\<forall>off \<in> set (it_Offerings (toInstanceType st)). \<not> off_Available off \<longrightarrow> off_Price off = 0)"
proof -
  have "map (\<lambda>off. (zone_of kc off, off_Available off)) (offerings_of ps) =
      [(l, snd (hourlyNetPrice p)). p \<leftarrow> ps, l \<leftarrow> (case pr_Location p of None \<Rightarrow> [] | Some l \<Rightarrow> [l])] \<and>
     (\<forall>off \<in> set (offerings_of ps). \<not> off_Available off \<longrightarrow> off_Price off = 0)" for ps
  proof (induction ps rule: offerings_of.induct)
    case (2 p ps)
    have "\<not> snd (hourlyNetPrice p) \<Longrightarrow> f64_val (fst (hourlyNetPrice p)) = 0"
      by (cases rule: hourly_price_cases [of p]) auto
    moreover have "off_Available (make_offering l pr) = snd pr" "off_Price (make_offering l pr) = f64_val (fst pr)" for l pr
      by (simp_all add: make_offering_def)
    ultimately show ?case
      using 2 by (cases "pr_Location p") (auto simp: offering_zone [OF assms])
  qed simp
  then show ?thesis by (simp add: toInstanceType_def Let_def)
qed

definition example_type :: server_type where
  "example_type =
     \<lparr>st_Name = ''cax11'', st_Cores = 2, st_Memory = 4, st_Disk = 40, st_CPUType = ''shared'',
      st_Architecture = ''arm'',
      st_Pricings = [priced ''4.5'' '''' (Some ''nbg1''), priced ''1'' ''1'' None, priced '''' '''' (Some ''hel1'')]\<rparr>"

text \<open>What survives the location filter: the offerings in a requested location, under their type.\<close>

lemma filter_by_locations_offerings:
  "(\<exists>it \<in> set (filterByLocations kc types locs). it_Name it = n \<and> off \<in> set (it_Offerings it)) \<longleftrightarrow>
     (\<exists>it \<in> set types. it_Name it = n \<and> off \<in> set (it_Offerings it) \<and>
        (locs = [] \<or> zone_of kc off \<in> set locs))"
proof (cases "locs = []")
  case False
  have "filter_type kc locs it \<in> set (filterByLocations kc types locs)"
    if "it \<in> set types" "off \<in> set (it_Offerings (filter_type kc locs it))" for it off
    using that False by (auto simp: filterByLocations_def)
  moreover have "it_Name (filter_type kc locs it) = it_Name it" for it
    by (simp add: filter_type_def)
  ultimately show ?thesis
    using False by (fastforce simp: filterByLocations_def filter_type_def)
qed (auto simp: filterByLocations_def)

lemma filter_by_locations_zones:
  "locs \<noteq> [] \<Longrightarrow> it \<in> set (filterByLocations kc types locs) \<Longrightarrow> off \<in> set (it_Offerings it) \<Longrightarrow>
     zone_of kc off \<in> set locs"
  by (auto simp: filterByLocations_def filter_type_def)

end
