(* ===== verification/Type_Cache.thy ===== *)
theory Type_Cache
  imports Instance_Type
begin

text \<open>
  The stateful part of \<open>pkg/providers/instancetype/instancetype.go\<close>: the provider with its six-hour
  catalogue cache and its marks of unavailable offerings, and \<open>List\<close>, which refreshes the cache,
  falls back to an expired catalogue and computes availability afresh on every call. Here a call runs
  alone; \<open>Type_Cache_Conc\<close> interleaves its parts. The locale states what the cloud provider relies
  on of a catalogue.
\<close>

section \<open>The provider\<close>

definition cacheTTL :: duration where "cacheTTL = 6 * hour"

text \<open>\<open>tp_cachedTypes\<close> is None for the nil slice of a provider that never fetched.\<close>

record type_provider =
  tp_cachedTypes :: "instance_type list option"
  tp_cachedAt :: go_time
  tp_cacheExpiry :: go_time
  tp_unavailable :: unavailable_cache

text \<open>The zero \<open>time.Time\<close> is earlier than any clock reading; nothing reads it before a \<open>store\<close>.\<close>

definition NewTypeProvider :: type_provider where
  "NewTypeProvider =
     \<lparr>tp_cachedTypes = None, tp_cachedAt = 0, tp_cacheExpiry = 0,
      tp_unavailable = newUnavailableCache (5 * minute)\<rparr>"

definition freshCache :: "go_time \<Rightarrow> type_provider \<Rightarrow> instance_type list option" where
  "freshCache now p =
     (case tp_cachedTypes p of
        Some types \<Rightarrow> if now < tp_cacheExpiry p then Some types else None
      | None \<Rightarrow> None)"

definition staleCache :: "go_time \<Rightarrow> type_provider \<Rightarrow> (instance_type list \<times> duration) option" where
  "staleCache now p =
     (case tp_cachedTypes p of
        None \<Rightarrow> None
      | Some types \<Rightarrow> Some (types, now - tp_cachedAt p))"

definition store :: "go_time \<Rightarrow> instance_type list \<Rightarrow> type_provider \<Rightarrow> type_provider" where
  "store now types p =
     p\<lparr>tp_cachedTypes := Some types, tp_cachedAt := now, tp_cacheExpiry := now + cacheTTL\<rparr>"

definition MarkUnavailable :: "go_time \<Rightarrow> string \<Rightarrow> string \<Rightarrow> type_provider \<Rightarrow> type_provider" where
  "MarkUnavailable now serverType location p =
     p\<lparr>tp_unavailable := markUnavailable now serverType location (tp_unavailable p)\<rparr>"

section \<open>List\<close>

record 'w tenv = "'w env" +
  te_types :: type_provider

text \<open>\<open>p.applyAvailability(filterByLocations(types, locations))\<close>, with the marks and the clock of now.\<close>

definition offered ::
  "karp_core \<Rightarrow> ('w \<Rightarrow> go_time) \<Rightarrow> string list \<Rightarrow> instance_type list \<Rightarrow> ('w, 'z) tenv_scheme \<Rightarrow>
     instance_type list" where
  "offered kc clock locations types s =
     applyAvailability kc (clock (env_world s)) (tp_unavailable (te_types s))
       (filterByLocations kc types locations)"

text \<open>What \<open>List\<close> does once it holds \<open>refreshMu\<close>, and the whole of it.\<close>

definition List_refresh ::
  "karp_core \<Rightarrow> ('w \<Rightarrow> go_time) \<Rightarrow> 'w server_type_client \<Rightarrow> string list \<Rightarrow>
     (('w, 'z) tenv_scheme, err, instance_type list) call" where
  "List_refresh kc clock client locations = (\<lambda>s0.
     (let s = record_metric RecordCacheMiss s0 in
      case on_world client s of
        (Err e, s1) \<Rightarrow>
          (case staleCache (clock (env_world s1)) (te_types s1) of
             Some (stale, age) \<Rightarrow>
               (let s2 = record_metric RecordCacheStale s1
                in (Ok (offered kc clock locations stale s2), s2))
           | None \<Rightarrow> (Err (ErrSdk e), s1))
      | (Ok serverTypes, s1) \<Rightarrow>
          (let types = map toInstanceType serverTypes;
               s2 = s1\<lparr>te_types := store (clock (env_world s1)) types (te_types s1)\<rparr>
           in (Ok (offered kc clock locations types s2), s2))
      | (Panic, s1) \<Rightarrow> (Panic, s1)))"

definition List_hit ::
  "karp_core \<Rightarrow> ('w \<Rightarrow> go_time) \<Rightarrow> string list \<Rightarrow> instance_type list \<Rightarrow>
     (('w, 'z) tenv_scheme, err, instance_type list) call" where
  "List_hit kc clock locations types = (\<lambda>s0.
     (let s = record_metric RecordCacheHit s0 in (Ok (offered kc clock locations types s), s)))"

definition List_locked ::
  "karp_core \<Rightarrow> ('w \<Rightarrow> go_time) \<Rightarrow> 'w server_type_client \<Rightarrow> string list \<Rightarrow>
     (('w, 'z) tenv_scheme, err, instance_type list) call" where
  "List_locked kc clock client locations = (\<lambda>s.
     case freshCache (clock (env_world s)) (te_types s) of
       Some types \<Rightarrow> List_hit kc clock locations types s
     | None \<Rightarrow> List_refresh kc clock client locations s)"

definition List_types ::
  "karp_core \<Rightarrow> ('w \<Rightarrow> go_time) \<Rightarrow> 'w server_type_client \<Rightarrow> string list \<Rightarrow>
     (('w, 'z) tenv_scheme, err, instance_type list) call" where
  "List_types kc clock client locations = (\<lambda>s.
     case freshCache (clock (env_world s)) (te_types s) of
       Some types \<Rightarrow> List_hit kc clock locations types s
     | None \<Rightarrow> List_locked kc clock client locations s)"

definition mark_unavailable ::
  "('w \<Rightarrow> go_time) \<Rightarrow> string \<Rightarrow> string \<Rightarrow> ('w, 'z) tenv_scheme \<Rightarrow> ('w, 'z) tenv_scheme" where
  "mark_unavailable clock serverType location s =
     s\<lparr>te_types := MarkUnavailable (clock (env_world s)) serverType location (te_types s)\<rparr>"

end
