(* ===== verification/Cloud_Provider.thy ===== *)
theory Cloud_Provider
  imports Kube_Api Instance Image_Family Type_Cache
begin

text \<open>
  \<open>pkg/cloudprovider/cloudprovider.go\<close>: the interface karpenter core drives. \<open>Create\<close> selects the
  cheapest launchable instance type, resolves its image, creates the server and describes it as a
  NodeClaim; the other methods read servers back, list instance types and detect drift. The methods
  run in the environment with the instance-type provider's state.
\<close>

record 'w cloud_provider =
  cp_kubeClient :: "'w kube_client"
  cp_instanceProvider :: "'w instance_provider"
  cp_typeClient :: "'w server_type_client"
  cp_imageClient :: "'w image_client"

text \<open>The instance-type provider's client is here; its cache is part of the state the methods run in.\<close>

definition NewCloudProvider ::
  "'w kube_client \<Rightarrow> 'w instance_provider \<Rightarrow> 'w server_type_client \<Rightarrow> 'w image_client \<Rightarrow> 'w cloud_provider" where
  "NewCloudProvider kubeClient instanceProvider typeClient imageClient =
     \<lparr>cp_kubeClient = kubeClient, cp_instanceProvider = instanceProvider, cp_typeClient = typeClient,
      cp_imageClient = imageClient\<rparr>"

definition provider_Name :: string where "provider_Name = ''hetzner''"

text \<open>A NodeClass with all fields at their zero values tells karpenter core which type to watch.\<close>

definition GetSupportedNodeClasses :: "node_class list" where
  "GetSupportedNodeClasses =
     [\<lparr>nc_Name = '''', nc_Generation = 0,
       nc_Spec = \<lparr>spec_Locations = [], spec_ImageSelector = \<lparr>sel_Family = '''', sel_Version = '''', sel_Selector = []\<rparr>,
         spec_NetworkID = 0, spec_FirewallIDs = [], spec_SSHKeyIDs = [], spec_PlacementGroupStrategy = '''',
         spec_Labels = [], spec_UserData = '''', spec_UserDataSecretRef = None, spec_EnablePublicIPv4 = None,
         spec_EnablePublicIPv6 = None\<rparr>,
       nc_Conditions = [], nc_ResolvedImages = []\<rparr>]"

record repair_policy =
  rp_ConditionType :: string
  rp_ConditionStatus :: cond_status
  rp_TolerationDuration :: duration

definition RepairPolicies :: "repair_policy list" where
  "RepairPolicies =
     [\<lparr>rp_ConditionType = ''Ready'', rp_ConditionStatus = CondFalse, rp_TolerationDuration = 5 * minute\<rparr>,
      \<lparr>rp_ConditionType = ''Ready'', rp_ConditionStatus = CondUnknown, rp_TolerationDuration = 5 * minute\<rparr>]"

section \<open>Reading the NodeClass and its userData\<close>

definition resolveNodeClass ::
  "'w cloud_provider \<Rightarrow> string option \<Rightarrow> (('w, 'z) env_scheme, err, node_class) call" where
  "resolveNodeClass cp ref =
     (case ref of
        None \<Rightarrow> fail_call (ErrText ''nodeClassRef is nil'' [])
      | Some name \<Rightarrow>
          wrap_call (\<lambda>e. ErrWrap ''getting HCloudNodeClass %q: %w'' [AStr name] (ErrKube e))
            (on_world (kube_GetNodeClass (cp_kubeClient cp) name)))"

definition resolveUserData ::
  "'w cloud_provider \<Rightarrow> node_class \<Rightarrow> (('w, 'z) env_scheme, err, string) call" where
  "resolveUserData cp nc =
     (case spec_UserDataSecretRef (nc_Spec nc) of
        None \<Rightarrow> return_call (spec_UserData (nc_Spec nc))
      | Some ref \<Rightarrow>
          bind_call
            (wrap_call (\<lambda>e. ErrWrap ''reading userData secret %s/%s: %w''
                              [AStr (ref_Namespace ref), AStr (ref_Name ref)] (ErrKube e))
               (on_world (kube_GetSecretData (cp_kubeClient cp) (ref_Namespace ref) (ref_Name ref))))
            (\<lambda>secret. case map_of secret (ref_Key ref) of
                Some (c # cs) \<Rightarrow> return_call (c # cs)
              | _ \<Rightarrow> fail_call (ErrText ''userData secret %s/%s has no non-empty key %q''
                       [AStr (ref_Namespace ref), AStr (ref_Name ref), AStr (ref_Key ref)])))"

section \<open>Images\<close>

definition hcloudArchFor :: "karp_core \<Rightarrow> instance_type \<Rightarrow> string" where
  "hcloudArchFor kc it =
     (if kc_Any kc (kc_Get kc (it_Requirements it) LabelArchStable) = ''arm64''
      then ArchitectureARM else ArchitectureX86)"

text \<open>An image taken from status carries its ID and architecture; its other fields are zero values.\<close>

definition status_image :: "int64 \<Rightarrow> string \<Rightarrow> image" where
  "status_image i arch =
     \<lparr>img_ID = i, img_Description = '''', img_Architecture = arch, img_Created = 0\<rparr>"

definition resolveImage ::
  "'w cloud_provider \<Rightarrow> node_class \<Rightarrow> string \<Rightarrow> (('w, 'z) env_scheme, err, image) call" where
  "resolveImage cp nc arch =
     (case find (\<lambda>ri. ri_Architecture ri = arch) (CurrentResolvedImages nc) of
        Some ri \<Rightarrow> return_call (status_image (ri_ImageID ri) arch)
      | None \<Rightarrow>
          bind_call
            (wrap_call (\<lambda>e. if IsPermanent e
                 then ErrNodeClassNotReady
                   (ErrWrap ''HCloudNodeClass %q has no image for architecture %s: %w''
                      [AStr (nc_Name nc), AStr arch] e)
                 else ErrWrap ''resolving image: %w'' [] e)
               (Resolve (cp_imageClient cp) (spec_ImageSelector (nc_Spec nc)) arch))
            (\<lambda>image. if img_Architecture image \<noteq> arch
               then fail_call (ErrNodeClassNotReady
                 (ErrText ''HCloudNodeClass %q resolved image %d with architecture %q for architecture %s''
                    [AStr (nc_Name nc), AInt (img_ID image), AStr (img_Architecture image), AStr arch]))
               else return_call image))"

definition hasResolvedImage :: "node_class \<Rightarrow> string \<Rightarrow> bool" where
  "hasResolvedImage nc arch \<longleftrightarrow>
     (let resolved = CurrentResolvedImages nc
      in resolved = [] \<or> list_ex (\<lambda>ri. ri_Architecture ri = arch) resolved)"

section \<open>Selection\<close>

text \<open>The variables of the selection loop: the best candidate, and the two ways to come up empty.\<close>

record selection =
  sel_best :: "(instance_type \<times> offering) option"
  archsMissingImages :: "string set"
  capacityBlocked :: bool

definition no_selection :: selection where
  "no_selection = \<lparr>sel_best = None, archsMissingImages = {}, capacityBlocked = False\<rparr>"

definition better_candidate :: "instance_type \<times> offering \<Rightarrow> instance_type \<times> offering \<Rightarrow> bool" where
  "better_candidate x y \<longleftrightarrow>
     off_Price (snd x) < off_Price (snd y) \<or>
     off_Price (snd x) = off_Price (snd y) \<and> it_Name (fst x) < it_Name (fst y)"

definition select_step ::
  "karp_core \<Rightarrow> node_class \<Rightarrow> selector_requirement list \<Rightarrow> selection \<Rightarrow> instance_type \<Rightarrow> selection" where
  "select_step kc nc reqs sel it =
     (if \<not> kc_IsCompatible kc reqs (it_Requirements it) then sel
      else (let arch = hcloudArchFor kc it in
        if \<not> hasResolvedImage nc arch
        then sel\<lparr>archsMissingImages := insert arch (archsMissingImages sel)\<rparr>
        else (case kc_Cheapest kc (kc_Compatible kc (kc_Available kc (it_Offerings it)) reqs) of
            None \<Rightarrow> sel\<lparr>capacityBlocked := True\<rparr>
          | Some cheapest \<Rightarrow>
              (case sel_best sel of
                 None \<Rightarrow> sel\<lparr>sel_best := Some (it, cheapest)\<rparr>
               | Some best \<Rightarrow>
                   if better_candidate (it, cheapest) best then sel\<lparr>sel_best := Some (it, cheapest)\<rparr>
                   else sel))))"

definition select ::
  "karp_core \<Rightarrow> node_class \<Rightarrow> selector_requirement list \<Rightarrow> instance_type list \<Rightarrow> selection" where
  "select kc nc reqs its = foldl (select_step kc nc reqs) no_selection its"

definition record_skipped :: "string set \<Rightarrow> ('w, 'z) env_scheme \<Rightarrow> ('w, 'z) env_scheme" where
  "record_skipped archs s =
     foldl (\<lambda>s arch. record_metric (RecordSelectionSkipped arch ''no_resolved_image'') s) s
       (sorted_list_of_set archs)"

definition nothing_selected :: "node_claim \<Rightarrow> node_class \<Rightarrow> selection \<Rightarrow> err" where
  "nothing_selected claim nc sel =
     (if archsMissingImages sel \<noteq> {} \<and> \<not> capacityBlocked sel
      then ErrNodeClassNotReady (ErrText
        ''no instance type satisfies requirements for nodeclaim %s: HCloudNodeClass %q has no resolved image for architecture %s''
        [AStr (ncl_Name claim), AStr (nc_Name nc),
         AStr (Join (sorted_list_of_set (archsMissingImages sel)) '', '')])
      else ErrInsufficientCapacity
        (ErrText ''no instance type satisfies requirements for nodeclaim %s'' [AStr (ncl_Name claim)]))"

section \<open>Create\<close>

text \<open>
  The labels of the new NodeClaim: the first value of every \<open>In\<close> requirement of the type (indexing an
  empty value list panics), then the offering's requirements, then the labels it already has.
\<close>

fun type_labels :: "requirements \<Rightarrow> string go_map \<Rightarrow> (err, string go_map) outcome" where
  "type_labels [] labels = Ok labels"
| "type_labels ((key, req) # rs) labels =
     (if req_Operator req = OpIn
      then (case req_Values req of
              [] \<Rightarrow> Panic
            | v # vs \<Rightarrow> type_labels rs (map_put key v labels))
      else type_labels rs labels)"

fun offering_labels :: "karp_core \<Rightarrow> requirements \<Rightarrow> string go_map \<Rightarrow> string go_map" where
  "offering_labels kc [] labels = labels"
| "offering_labels kc ((key, req) # rs) labels =
     offering_labels kc rs (map_put (req_Key req) (kc_Any kc req) labels)"

definition launch_opts ::
  "karp_core \<Rightarrow> node_claim \<Rightarrow> node_class \<Rightarrow> instance_type \<Rightarrow> offering \<Rightarrow> image \<Rightarrow> string \<Rightarrow> create_opts" where
  "launch_opts kc claim nc selected off img userData =
     \<lparr>co_Name = ncl_Name claim, co_ServerType = it_Name selected, co_Location = kc_Zone kc off,
      co_Image = Some img, co_NetworkID = spec_NetworkID (nc_Spec nc),
      co_FirewallIDs = spec_FirewallIDs (nc_Spec nc), co_SSHKeyIDs = spec_SSHKeyIDs (nc_Spec nc),
      co_Labels = spec_Labels (nc_Spec nc), co_UserData = userData, co_NodeClaim = ncl_Name claim,
      co_NodePool = (case map_of (ncl_Labels claim) NodePoolLabelKey of Some p \<Rightarrow> p | None \<Rightarrow> ''''),
      co_PlacementGroupStrategy = spec_PlacementGroupStrategy (nc_Spec nc),
      co_EnablePublicIPv4 = PublicIPv4Enabled (nc_Spec nc),
      co_EnablePublicIPv6 = PublicIPv6Enabled (nc_Spec nc)\<rparr>"

definition launch_server ::
  "('w \<Rightarrow> go_time) \<Rightarrow> 'w cloud_provider \<Rightarrow> create_opts \<Rightarrow> (('w, 'z) tenv_scheme, err, server option) call" where
  "launch_server clock cp opts = (\<lambda>s.
     case Create clock (cp_instanceProvider cp) opts s of
       (Ok server, s') \<Rightarrow> (Ok server, s')
     | (Err e, s') \<Rightarrow>
         (Err (ErrWrap ''creating server: %w'' [] e),
          if IsInsufficientCapacityError e
          then mark_unavailable clock (co_ServerType opts) (co_Location opts) s' else s')
     | (Panic, s') \<Rightarrow> (Panic, s'))"

definition hydrate ::
  "karp_core \<Rightarrow> node_claim \<Rightarrow> instance_type \<Rightarrow> offering \<Rightarrow> server option \<Rightarrow> (err, node_claim) outcome" where
  "hydrate kc claim selected off created =
     (case type_labels (it_Requirements selected) [] of
        Ok labels \<Rightarrow>
          (case created of
             None \<Rightarrow> Panic
           | Some server \<Rightarrow>
               Ok (claim
                 \<lparr>ncl_Labels := map_put_all (ncl_Labels claim) (offering_labels kc (off_Requirements off) labels),
                  ncl_ProviderID := FormatProviderID (srv_ID server),
                  ncl_Capacity := it_Capacity selected,
                  ncl_Allocatable := kc_Allocatable kc selected,
                  ncl_ImageID := (case srv_Image server of
                                    None \<Rightarrow> ncl_ImageID claim
                                  | Some i \<Rightarrow> FormatInt (img_ID i))\<rparr>))
      | Err e \<Rightarrow> Err e
      | Panic \<Rightarrow> Panic)"

definition launch ::
  "karp_core \<Rightarrow> ('w \<Rightarrow> go_time) \<Rightarrow> 'w cloud_provider \<Rightarrow> node_claim \<Rightarrow> node_class \<Rightarrow>
     instance_type \<Rightarrow> offering \<Rightarrow> (('w, 'z) tenv_scheme, err, node_claim) call" where
  "launch kc clock cp claim nc selected off =
     bind_call (resolveImage cp nc (hcloudArchFor kc selected)) (\<lambda>image.
     bind_call (wrap_call (ErrWrap ''resolving userData: %w'' []) (resolveUserData cp nc)) (\<lambda>userData.
     bind_call (launch_server clock cp (launch_opts kc claim nc selected off image userData)) (\<lambda>server.
     lift_outcome (hydrate kc claim selected off server))))"

definition CloudProvider_Create ::
  "karp_core \<Rightarrow> ('w \<Rightarrow> go_time) \<Rightarrow> 'w cloud_provider \<Rightarrow> node_claim \<Rightarrow>
     (('w, 'z) tenv_scheme, err, node_claim) call" where
  "CloudProvider_Create kc clock cp claim =
     bind_call (wrap_call (ErrWrap ''resolving node class: %w'' [])
                  (resolveNodeClass cp (ncl_NodeClassRef claim))) (\<lambda>nc.
     bind_call (wrap_call (ErrWrap ''listing instance types: %w'' [])
                  (List_types kc clock (cp_typeClient cp) (spec_Locations (nc_Spec nc)))) (\<lambda>its s.
       (let sel = select kc nc (ncl_Requirements claim) its;
            s' = record_skipped (archsMissingImages sel) s
        in case sel_best sel of
             None \<Rightarrow> (Err (nothing_selected claim nc sel), s')
           | Some (selected, off) \<Rightarrow> launch kc clock cp claim nc selected off s')))"

section \<open>Delete, Get, List\<close>

definition CloudProvider_Delete ::
  "'w cloud_provider \<Rightarrow> node_claim \<Rightarrow> (('w, 'z) env_scheme, err, unit) call" where
  "CloudProvider_Delete cp claim = Delete (cp_instanceProvider cp) (ncl_ProviderID claim)"

text \<open>Reading back gives a fresh NodeClaim: no name, no spec, and only what the server shows.\<close>

definition serverToNodeClaim :: "server \<Rightarrow> node_claim" where
  "serverToNodeClaim server =
     empty_node_claim
       \<lparr>ncl_ProviderID := FormatProviderID (srv_ID server),
        ncl_ImageID := (case srv_Image server of None \<Rightarrow> '''' | Some i \<Rightarrow> FormatInt (img_ID i)),
        ncl_Capacity := (case srv_ServerType server of None \<Rightarrow> [] | Some st \<Rightarrow> server_type_capacity st),
        ncl_Labels := map_put_all (srv_Labels server) []\<rparr>"

definition CloudProvider_Get ::
  "'w cloud_provider \<Rightarrow> string \<Rightarrow> (('w, 'z) env_scheme, err, node_claim) call" where
  "CloudProvider_Get cp providerID =
     bind_call (Get (cp_instanceProvider cp) providerID) (\<lambda>found.
       case found of
         None \<Rightarrow> fail_call (ErrNodeClaimNotFound
                   (ErrText ''server with provider ID %q not found'' [AStr providerID]))
       | Some server \<Rightarrow> return_call (serverToNodeClaim server))"

definition CloudProvider_List ::
  "'w cloud_provider \<Rightarrow> (('w, 'z) env_scheme, err, node_claim list) call" where
  "CloudProvider_List cp =
     bind_call (List_servers (cp_instanceProvider cp)) (\<lambda>servers. return_call (map serverToNodeClaim servers))"

section \<open>Instance types\<close>

definition markImagelessArchesUnavailable ::
  "karp_core \<Rightarrow> instance_type list \<Rightarrow> node_class \<Rightarrow> instance_type list" where
  "markImagelessArchesUnavailable kc its nc =
     map (\<lambda>it. if hasResolvedImage nc (hcloudArchFor kc it) then it
               else it\<lparr>it_Offerings := map (\<lambda>off. off\<lparr>off_Available := False\<rparr>) (it_Offerings it)\<rparr>) its"

record node_pool =
  np_Name :: string
  np_NodeClassRef :: "string option"

definition GetInstanceTypes ::
  "karp_core \<Rightarrow> ('w \<Rightarrow> go_time) \<Rightarrow> 'w cloud_provider \<Rightarrow> node_pool option \<Rightarrow>
     (('w, 'z) tenv_scheme, err, instance_type list) call" where
  "GetInstanceTypes kc clock cp nodePool =
     (case nodePool of
        None \<Rightarrow> List_types kc clock (cp_typeClient cp) []
      | Some np \<Rightarrow>
          bind_call (wrap_call (ErrWrap ''resolving node class for node pool %s: %w'' [AStr (np_Name np)])
                       (resolveNodeClass cp (np_NodeClassRef np))) (\<lambda>nc.
          bind_call (List_types kc clock (cp_typeClient cp) (spec_Locations (nc_Spec nc))) (\<lambda>its.
          return_call (markImagelessArchesUnavailable kc its nc))))"

section \<open>Drift\<close>

definition DriftImage :: string where "DriftImage = ''ImageDrift''"
definition DriftNetwork :: string where "DriftNetwork = ''NetworkDrift''"
definition DriftFirewall :: string where "DriftFirewall = ''FirewallDrift''"
definition DriftServerType :: string where "DriftServerType = ''ServerTypeDrift''"
definition DriftLocation :: string where "DriftLocation = ''LocationDrift''"
definition DriftLabels :: string where "DriftLabels = ''LabelsDrift''"

lemmas drift_reason_defs =
  DriftImage_def DriftNetwork_def DriftFirewall_def DriftServerType_def DriftLocation_def DriftLabels_def

definition image_drifted :: "node_claim \<Rightarrow> server \<Rightarrow> bool" where
  "image_drifted claim server \<longleftrightarrow>
     ncl_ImageID claim \<noteq> '''' \<and>
     (case srv_Image server of
        None \<Rightarrow> False
      | Some i \<Rightarrow> ncl_ImageID claim \<noteq> FormatInt (img_ID i))"

definition network_drifted :: "node_class \<Rightarrow> server \<Rightarrow> bool" where
  "network_drifted nc server \<longleftrightarrow>
     0 <s spec_NetworkID (nc_Spec nc) \<and>
     \<not> list_ex (\<lambda>n. n = Some (spec_NetworkID (nc_Spec nc))) (srv_PrivateNet server)"

text \<open>The firewalls of the server that are not nil, and every one of the NodeClass looked up.\<close>

definition firewall_drifted :: "node_class \<Rightarrow> server \<Rightarrow> bool" where
  "firewall_drifted nc server \<longleftrightarrow>
     list_ex (\<lambda>want. want \<notin> set (List.map_filter (\<lambda>fw. fw) (srv_Firewalls server)))
       (spec_FirewallIDs (nc_Spec nc))"

definition server_type_drifted :: "node_claim \<Rightarrow> server \<Rightarrow> bool" where
  "server_type_drifted claim server \<longleftrightarrow>
     (let want = (case map_of (ncl_Labels claim) LabelInstanceTypeStable of Some v \<Rightarrow> v | None \<Rightarrow> '''')
      in want \<noteq> '''' \<and>
         (case srv_ServerType server of None \<Rightarrow> False | Some st \<Rightarrow> st_Name st \<noteq> want))"

definition location_drifted :: "node_class \<Rightarrow> server \<Rightarrow> bool" where
  "location_drifted nc server \<longleftrightarrow>
     spec_Locations (nc_Spec nc) \<noteq> [] \<and>
     (case srv_Location server of
        None \<Rightarrow> False
      | Some l \<Rightarrow> \<not> list_ex (\<lambda>loc. loc = l) (spec_Locations (nc_Spec nc)))"

definition labels_drifted :: "node_class \<Rightarrow> server \<Rightarrow> bool" where
  "labels_drifted nc server \<longleftrightarrow>
     list_ex (\<lambda>(k, want). map_of (srv_Labels server) k \<noteq> Some want) (spec_Labels (nc_Spec nc))"

definition drift_of :: "node_class \<Rightarrow> node_claim \<Rightarrow> server \<Rightarrow> string option" where
  "drift_of nc claim server =
     (if image_drifted claim server then Some DriftImage
      else if network_drifted nc server then Some DriftNetwork
      else if firewall_drifted nc server then Some DriftFirewall
      else if server_type_drifted claim server then Some DriftServerType
      else if location_drifted nc server then Some DriftLocation
      else if labels_drifted nc server then Some DriftLabels
      else None)"

definition IsDrifted ::
  "'w cloud_provider \<Rightarrow> node_claim \<Rightarrow> (('w, 'z) env_scheme, err, string) call" where
  "IsDrifted cp claim =
     bind_call (wrap_call (ErrWrap ''resolving node class: %w'' [])
                  (resolveNodeClass cp (ncl_NodeClassRef claim))) (\<lambda>nc.
     bind_call (wrap_call (ErrWrap ''getting server: %w'' [])
                  (Get (cp_instanceProvider cp) (ncl_ProviderID claim))) (\<lambda>found s.
       case found of
         None \<Rightarrow> (Ok '''', s)
       | Some server \<Rightarrow>
           (case drift_of nc claim server of
              None \<Rightarrow> (Ok '''', s)
            | Some reason \<Rightarrow> (Ok reason, record_metric (RecordDrift reason) s))))"

end
