(* ===== verification/Node_Class_Controller.thy ===== *)
theory Node_Class_Controller
  imports Kube_Api Image_Family
begin

text \<open>
  \<open>pkg/controllers/nodeclass/controller.go\<close>: one reconcile pass over an \<open>HCloudNodeClass\<close>. It checks
  the network, the firewalls and SSH keys and the userData Secret, resolves an image per
  architecture, merges the answers with what status already holds, and writes the status back when
  anything changed.

  The condition set is operatorpkg's, outside the repository: its operations are a record of
  parameters, and \<open>cond_spec\<close> collects what the comments of \<open>hcloudnodeclass_types.go\<close> document of it.
  The object is passed along as a value, since the pass owns it.
\<close>

section \<open>Condition sets\<close>

text \<open>
  \<open>cs_For\<close> is the constructor behind \<open>StatusConditions()\<close>; the others are the methods of the set it
  returns, on the object.
\<close>

record cond_set =
  cs_For :: "node_class \<Rightarrow> node_class"
  cs_SetTrue :: "cond_type \<Rightarrow> node_class \<Rightarrow> node_class"
  cs_SetFalse :: "cond_type \<Rightarrow> string \<Rightarrow> cond_message \<Rightarrow> node_class \<Rightarrow> node_class"
  cs_SetUnknown :: "cond_type \<Rightarrow> string \<Rightarrow> cond_message \<Rightarrow> node_class \<Rightarrow> node_class"

definition conditionTypes :: "cond_type set" where
  "conditionTypes = {ConditionTypeImagesReady, ConditionTypeNetworkReady, ConditionTypeResourcesReady,
     ConditionTypeUserDataReady}"

definition set_true :: "cond_set \<Rightarrow> cond_type \<Rightarrow> node_class \<Rightarrow> node_class" where
  "set_true cs t nc = cs_SetTrue cs t (cs_For cs nc)"

definition set_false :: "cond_set \<Rightarrow> cond_type \<Rightarrow> string \<Rightarrow> cond_message \<Rightarrow> node_class \<Rightarrow> node_class" where
  "set_false cs t reason msg nc = cs_SetFalse cs t reason msg (cs_For cs nc)"

definition set_unknown :: "cond_set \<Rightarrow> cond_type \<Rightarrow> string \<Rightarrow> cond_message \<Rightarrow> node_class \<Rightarrow> node_class" where
  "set_unknown cs t reason msg nc = cs_SetUnknown cs t reason msg (cs_For cs nc)"

section \<open>The controller\<close>

text \<open>The getters tell whether the resource exists; a recorder, when there is one, takes the events.\<close>

record warning_event =
  ev_NodeClass :: string
  ev_Reason :: string
  ev_Action :: string
  ev_Message :: cond_message

type_synonym 'w network_getter = "int64 \<Rightarrow> ('w, unit option) sdk_call"
type_synonym 'w firewall_getter = "int64 \<Rightarrow> ('w, unit option) sdk_call"
type_synonym 'w ssh_key_getter = "int64 \<Rightarrow> ('w, unit option) sdk_call"

record 'w controller =
  ctl_kubeClient :: "'w kube_client"
  ctl_networks :: "'w network_getter"
  ctl_firewalls :: "'w firewall_getter"
  ctl_sshKeys :: "'w ssh_key_getter"
  ctl_images :: "'w image_client"
  ctl_recorder :: "(warning_event \<Rightarrow> 'w \<Rightarrow> 'w) option"

definition NewController ::
  "'w kube_client \<Rightarrow> 'w network_getter \<Rightarrow> 'w firewall_getter \<Rightarrow> 'w ssh_key_getter \<Rightarrow> 'w image_client \<Rightarrow>
     'w controller" where
  "NewController kubeClient networks firewalls sshKeys images =
     \<lparr>ctl_kubeClient = kubeClient, ctl_networks = networks, ctl_firewalls = firewalls, ctl_sshKeys = sshKeys,
      ctl_images = images, ctl_recorder = None\<rparr>"

definition controller_Name :: string where "controller_Name = ''nodeclass.status''"

text \<open>Registration takes the manager's event recorder; the rest of it is the library's.\<close>

definition Register :: "(warning_event \<Rightarrow> 'w \<Rightarrow> 'w) \<Rightarrow> 'w controller \<Rightarrow> 'w controller" where
  "Register recorder c = c\<lparr>ctl_recorder := Some recorder\<rparr>"

definition resyncInterval :: duration where "resyncInterval = 5 * minute"

definition warnf ::
  "'w controller \<Rightarrow> node_class \<Rightarrow> string \<Rightarrow> string \<Rightarrow> cond_message \<Rightarrow> ('w, 'z) env_scheme \<Rightarrow> ('w, 'z) env_scheme" where
  "warnf c nc reason action msg s =
     (case ctl_recorder c of
        None \<Rightarrow> s
      | Some eventf \<Rightarrow>
          s\<lparr>env_world := eventf \<lparr>ev_NodeClass = nc_Name nc, ev_Reason = reason, ev_Action = action,
                                  ev_Message = msg\<rparr> (env_world s)\<rparr>)"

section \<open>Validation\<close>

definition reconcile_network ::
  "cond_set \<Rightarrow> 'w controller \<Rightarrow> node_class \<Rightarrow> (('w, 'z) env_scheme, err, node_class) call" where
  "reconcile_network cs c nc = (\<lambda>s.
     case on_world (ctl_networks c (spec_NetworkID (nc_Spec nc))) s of
       (Err e, s') \<Rightarrow>
         (Ok (set_unknown cs ConditionTypeNetworkReady ''NetworkCheckFailed'' (MsgErr (ErrSdk e)) nc),
          warnf c nc ''NetworkCheckFailed'' ''ValidateNetwork'' (MsgErr (ErrWrap ''network check failed: %v'' [] (ErrSdk e))) s')
     | (Ok None, s') \<Rightarrow>
         (Ok (set_false cs ConditionTypeNetworkReady ''NetworkNotFound''
                (MsgFmt ''configured networkID does not exist'' []) nc),
          warnf c nc ''NetworkNotFound'' ''ValidateNetwork''
            (MsgFmt ''networkID %d does not exist'' [AInt (spec_NetworkID (nc_Spec nc))]) s')
     | (Ok (Some net), s') \<Rightarrow> (Ok (set_true cs ConditionTypeNetworkReady nc), s')
     | (Panic, s') \<Rightarrow> (Panic, s'))"

text \<open>
  The results \<open>(reason, msg, unknown, ok)\<close> of the two validations: all is there, the check itself
  failed, or something is missing.
\<close>

datatype validation = Valid | Check_failed string cond_message | Missing string cond_message

fun check_all ::
  "(int64 \<Rightarrow> ('w, unit option) sdk_call) \<Rightarrow> string \<Rightarrow> string \<Rightarrow> string \<Rightarrow> int64 list \<Rightarrow>
     (('w, 'z) env_scheme, err, validation) call" where
  "check_all getByID failed missing format [] = return_call Valid"
| "check_all getByID failed missing format (i # is) = (\<lambda>s.
     case on_world (getByID i) s of
       (Err e, s') \<Rightarrow> (Ok (Check_failed failed (MsgErr (ErrSdk e))), s')
     | (Ok None, s') \<Rightarrow> (Ok (Missing missing (MsgFmt format [AInt i])), s')
     | (Ok (Some r), s') \<Rightarrow> check_all getByID failed missing format is s'
     | (Panic, s') \<Rightarrow> (Panic, s'))"

definition validateResources ::
  "'w controller \<Rightarrow> node_class \<Rightarrow> (('w, 'z) env_scheme, err, validation) call" where
  "validateResources c nc =
     bind_call (check_all (ctl_firewalls c) ''FirewallCheckFailed'' ''FirewallNotFound''
                  ''firewall %d does not exist'' (spec_FirewallIDs (nc_Spec nc))) (\<lambda>v.
       if v \<noteq> Valid then return_call v
       else check_all (ctl_sshKeys c) ''SSHKeyCheckFailed'' ''SSHKeyNotFound''
              ''ssh key %d does not exist'' (spec_SSHKeyIDs (nc_Spec nc)))"

definition validateUserData ::
  "'w controller \<Rightarrow> node_class \<Rightarrow> (('w, 'z) env_scheme, err, validation) call" where
  "validateUserData c nc =
     (case spec_UserDataSecretRef (nc_Spec nc) of
        None \<Rightarrow> return_call Valid
      | Some ref \<Rightarrow> (\<lambda>s.
          case on_world (kube_GetSecretData (ctl_kubeClient c) (ref_Namespace ref) (ref_Name ref)) s of
            (Err e, s') \<Rightarrow>
              (Ok (if kube_IsNotFound e
                   then Missing ''UserDataSecretNotFound''
                          (MsgFmt ''secret %s/%s not found'' [AStr (ref_Namespace ref), AStr (ref_Name ref)])
                   else Check_failed ''UserDataCheckFailed'' (MsgErr (ErrKube e))), s')
          | (Ok secret, s') \<Rightarrow>
              (Ok (case map_of secret (ref_Key ref) of
                     Some (x # xs) \<Rightarrow> Valid
                   | _ \<Rightarrow> Missing ''UserDataKeyMissing''
                       (MsgFmt ''secret %s/%s has no non-empty key %q''
                          [AStr (ref_Namespace ref), AStr (ref_Name ref), AStr (ref_Key ref)])), s')
          | (Panic, s') \<Rightarrow> (Panic, s')))"

text \<open>The switch that follows either validation.\<close>

definition report_validation ::
  "cond_set \<Rightarrow> 'w controller \<Rightarrow> cond_type \<Rightarrow> string \<Rightarrow> validation \<Rightarrow> node_class \<Rightarrow>
     (('w, 'z) env_scheme, err, node_class) call" where
  "report_validation cs c t action v nc = (\<lambda>s.
     case v of
       Valid \<Rightarrow> (Ok (set_true cs t nc), s)
     | Check_failed reason msg \<Rightarrow> (Ok (set_unknown cs t reason msg nc), warnf c nc reason action msg s)
     | Missing reason msg \<Rightarrow> (Ok (set_false cs t reason msg nc), warnf c nc reason action msg s))"

section \<open>Images\<close>

record image_resolution =
  ir_arch :: string
  ir_imageID :: int64
  ir_err :: "err option"
  ir_transient :: bool

text \<open>One architecture: \<open>%s: %w\<close> around the error, and the architecture of the image compared.\<close>

definition resolve_arch ::
  "'w controller \<Rightarrow> node_class \<Rightarrow> string \<Rightarrow> (('w, 'z) env_scheme, err, image_resolution) call" where
  "resolve_arch c nc arch = (\<lambda>s.
     case Resolve (ctl_images c) (spec_ImageSelector (nc_Spec nc)) arch s of
       (Err e, s') \<Rightarrow>
         (Ok \<lparr>ir_arch = arch, ir_imageID = 0, ir_err = Some (ErrWrap ''%s: %w'' [AStr arch] e),
              ir_transient = (\<not> IsPermanent e)\<rparr>, s')
     | (Ok img, s') \<Rightarrow>
         (Ok (if img_Architecture img \<noteq> arch
              then \<lparr>ir_arch = arch, ir_imageID = 0,
                    ir_err = Some (ErrText ''%s: catalogue returned image %d with architecture %q''
                      [AStr arch, AInt (img_ID img), AStr (img_Architecture img)]),
                    ir_transient = False\<rparr>
              else \<lparr>ir_arch = arch, ir_imageID = img_ID img, ir_err = None, ir_transient = False\<rparr>), s')
     | (Panic, s') \<Rightarrow> (Panic, s'))"

definition resolveImages ::
  "'w controller \<Rightarrow> node_class \<Rightarrow> (('w, 'z) env_scheme, err, image_resolution list) call" where
  "resolveImages c nc =
     bind_call (resolve_arch c nc ArchitectureX86) (\<lambda>x.
     bind_call (resolve_arch c nc ArchitectureARM) (\<lambda>a.
     return_call [x, a]))"

text \<open>The map \<open>prev\<close>; a later entry of an architecture overwrites an earlier one.\<close>

definition previous_ids :: "resolved_image list \<Rightarrow> (string \<times> int64) list" where
  "previous_ids ris = map_put_all (map (\<lambda>ri. (ri_Architecture ri, ri_ImageID ri)) ris) []"

record merged =
  mg_resolved :: "resolved_image list"
  mg_transient :: "err list"
  mg_definitive :: "err list"

fun merge_results :: "(string \<times> int64) list \<Rightarrow> image_resolution list \<Rightarrow> merged" where
  "merge_results prev [] = \<lparr>mg_resolved = [], mg_transient = [], mg_definitive = []\<rparr>"
| "merge_results prev (r # rs) =
     (let m = merge_results prev rs in
      case ir_err r of
        None \<Rightarrow>
          m\<lparr>mg_resolved := \<lparr>ri_Architecture = ir_arch r, ri_ImageID = ir_imageID r\<rparr> # mg_resolved m\<rparr>
      | Some e \<Rightarrow>
          if ir_transient r
          then (case map_of prev (ir_arch r) of
                  Some i \<Rightarrow> m\<lparr>mg_resolved := \<lparr>ri_Architecture = ir_arch r, ri_ImageID = i\<rparr> # mg_resolved m,
                              mg_transient := e # mg_transient m\<rparr>
                | None \<Rightarrow> m\<lparr>mg_transient := e # mg_transient m\<rparr>)
          else m\<lparr>mg_definitive := e # mg_definitive m\<rparr>)"

definition drop_stale :: "node_class \<Rightarrow> node_class" where
  "drop_stale nc =
     (if ResolvedImagesGeneration nc \<noteq> nc_Generation nc then nc\<lparr>nc_ResolvedImages := []\<rparr> else nc)"

text \<open>The last switch; \<open>Error()\<close> of a nil error would panic.\<close>

definition report_images ::
  "cond_set \<Rightarrow> 'w controller \<Rightarrow> node_class \<Rightarrow> merged \<Rightarrow> (('w, 'z) env_scheme, err, node_class) call" where
  "report_images cs c nc m = (\<lambda>s0.
     (let joined_t = errors_Join (map Some (mg_transient m));
          joined_d = errors_Join (map Some (mg_definitive m));
          s = (case joined_t of
                 None \<Rightarrow> s0
               | Some e \<Rightarrow>
                   warnf c nc ''ImageResolutionErrored'' ''ResolveImages''
                     (MsgErr (ErrWrap ''image catalogue unreadable: %v'' [] e))
                     (record_metric RecordImageResolutionError s0))
      in if mg_resolved m \<noteq> []
         then (Ok (set_true cs ConditionTypeImagesReady (nc\<lparr>nc_ResolvedImages := mg_resolved m\<rparr>)), s)
         else (let nc' = nc\<lparr>nc_ResolvedImages := []\<rparr> in
           if mg_transient m \<noteq> []
           then (case errors_Join [joined_t, joined_d] of
                   None \<Rightarrow> (Panic, s)
                 | Some e \<Rightarrow>
                     (Ok (set_unknown cs ConditionTypeImagesReady ''ImageResolutionErrored'' (MsgErr e) nc'),
                      case joined_d of
                        None \<Rightarrow> s
                      | Some d \<Rightarrow> warnf c nc' ''ImageResolutionFailed'' ''ResolveImages''
                          (MsgErr (ErrWrap ''image resolution failed: %v'' [] d)) s))
           else (case joined_d of
                   None \<Rightarrow> (Panic, s)
                 | Some d \<Rightarrow>
                     (Ok (set_false cs ConditionTypeImagesReady ''ImageResolutionFailed'' (MsgErr d) nc'),
                      warnf c nc' ''ImageResolutionFailed'' ''ResolveImages''
                        (MsgErr (ErrWrap ''image resolution failed: %v'' [] d)) s)))))"

definition reconcile_images ::
  "cond_set \<Rightarrow> 'w controller \<Rightarrow> node_class \<Rightarrow> (('w, 'z) env_scheme, err, node_class) call" where
  "reconcile_images cs c nc0 =
     (let nc = drop_stale nc0 in
      bind_call (resolveImages c nc) (\<lambda>results.
        report_images cs c nc (merge_results (previous_ids (nc_ResolvedImages nc)) results)))"

section \<open>Reconcile\<close>

definition validate_pass ::
  "cond_set \<Rightarrow> 'w controller \<Rightarrow> node_class \<Rightarrow> (('w, 'z) env_scheme, err, node_class) call" where
  "validate_pass cs c nc0 =
     bind_call (reconcile_network cs c nc0) (\<lambda>nc1.
     bind_call (validateResources c nc1) (\<lambda>v.
     bind_call (report_validation cs c ConditionTypeResourcesReady ''ValidateResources'' v nc1) (\<lambda>nc2.
     bind_call (validateUserData c nc2) (\<lambda>u.
     report_validation cs c ConditionTypeUserDataReady ''ValidateUserData'' u nc2))))"

definition reconcile_pass ::
  "cond_set \<Rightarrow> 'w controller \<Rightarrow> node_class \<Rightarrow> (('w, 'z) env_scheme, err, node_class) call" where
  "reconcile_pass cs c nc0 = bind_call (validate_pass cs c nc0) (reconcile_images cs c)"

definition Reconcile ::
  "cond_set \<Rightarrow> 'w controller \<Rightarrow> node_class \<Rightarrow> (('w, 'z) env_scheme, err, duration) call" where
  "Reconcile cs c stored =
     bind_call (reconcile_pass cs c stored) (\<lambda>nc.
       if nc \<noteq> stored
       then bind_call (wrap_call ErrKube (on_world (kube_UpdateStatus (ctl_kubeClient c) nc)))
              (\<lambda>_. return_call resyncInterval)
       else return_call resyncInterval)"

section \<open>What is documented of condition sets\<close>

text \<open>
  The constructor adds what is absent as Unknown at the current generation and leaves what is there;
  a write stamps the current generation and leaves the other conditions; nothing else of the object
  changes.
\<close>

definition cond_frame :: "(node_class \<Rightarrow> node_class) \<Rightarrow> bool" where
  "cond_frame f \<longleftrightarrow> (\<forall>nc. f nc = nc\<lparr>nc_Conditions := nc_Conditions (f nc)\<rparr>)"

definition writes_cond :: "(node_class \<Rightarrow> node_class) \<Rightarrow> cond_type \<Rightarrow> cond_status \<Rightarrow> bool" where
  "writes_cond f t st \<longleftrightarrow>
     cond_frame f \<and>
     (\<forall>nc. \<exists>c. find_cond t (nc_Conditions (f nc)) = Some c \<and> cond_Status c = st \<and>
             cond_ObservedGeneration c = nc_Generation nc) \<and>
     (\<forall>nc t'. t' \<in> conditionTypes \<and> t' \<noteq> t \<longrightarrow>
        find_cond t' (nc_Conditions (f nc)) = find_cond t' (nc_Conditions nc))"

definition cond_spec :: "cond_set \<Rightarrow> bool" where
  "cond_spec cs \<longleftrightarrow>
     cond_frame (cs_For cs) \<and>
     (\<forall>nc t. t \<in> conditionTypes \<longrightarrow>
        (case find_cond t (nc_Conditions nc) of
           Some c \<Rightarrow> find_cond t (nc_Conditions (cs_For cs nc)) = Some c
         | None \<Rightarrow> (\<exists>c. find_cond t (nc_Conditions (cs_For cs nc)) = Some c \<and> cond_Status c = CondUnknown \<and>
                      cond_ObservedGeneration c = nc_Generation nc))) \<and>
     (\<forall>t \<in> conditionTypes.
        writes_cond (cs_SetTrue cs t) t CondTrue \<and>
        (\<forall>r m. writes_cond (cs_SetFalse cs t r m) t CondFalse \<and> writes_cond (cs_SetUnknown cs t r m) t CondUnknown))"

end
