(* ===== verification/Operator.thy ===== *)
theory Operator
  imports Go_Parse Cloud_Provider Node_Class_Controller
begin

text \<open>
  \<open>pkg/operator\<close> and \<open>cmd/controller/main.go\<close>: the configuration read from the environment, the HTTP
  client the SDK is built with, the wiring of the providers and the controllers that are started. The
  SDK's constructor is a parameter: it turns the options into a client, whose parts serve the narrow
  interfaces; so are the constructors of karpenter core.
\<close>

section \<open>Configuration\<close>

text \<open>\<open>os.Getenv\<close>: an unset variable reads as the empty string.\<close>

type_synonym getenv = "string \<Rightarrow> string"

definition name_char :: "char \<Rightarrow> bool" where
  "name_char c \<longleftrightarrow>
     (let n = of_char c :: int
      in 97 \<le> n \<and> n \<le> 122 \<or> 65 \<le> n \<and> n \<le> 90 \<or> 48 \<le> n \<and> n \<le> 57 \<or>
         c = CHR ''.'' \<or> c = CHR ''_'' \<or> c = CHR ''-'')"

definition clusterNameRE :: "string \<Rightarrow> bool" where
  "clusterNameRE s \<longleftrightarrow> 1 \<le> length s \<and> length s \<le> 63 \<and> list_all name_char s"

definition defaultAPITimeout :: duration where "defaultAPITimeout = 30 * second"
definition maxAPITimeout :: duration where "maxAPITimeout = 5 * minute"

record config =
  cfg_ClusterName :: string
  cfg_APITimeout :: duration

definition loadAPITimeout :: "getenv \<Rightarrow> (err, duration) outcome" where
  "loadAPITimeout getenv =
     (let raw = TrimSpace (getenv ''HCLOUD_API_TIMEOUT'')
      in if raw = '''' then Ok defaultAPITimeout
         else (case ParseDuration raw of
             None \<Rightarrow> Err (ErrWrap ''HCLOUD_API_TIMEOUT %q is not a valid duration (e.g. \"30s\", \"1m\"): %w''
                            [AStr raw] (ErrDuration raw))
           | Some d \<Rightarrow>
               if d \<le> 0
               then Err (ErrText ''HCLOUD_API_TIMEOUT %q must be positive; an unbounded client is what this setting exists to prevent''
                           [AStr raw])
               else if maxAPITimeout < d
               then Err (ErrText ''HCLOUD_API_TIMEOUT %q exceeds the %s maximum'' [AStr raw, AStr ''5m0s''])
               else Ok d))"

definition LoadConfig :: "getenv \<Rightarrow> (err, config) outcome" where
  "LoadConfig getenv =
     (let name = TrimSpace (getenv ''CLUSTER_NAME'')
      in if name = '''' then Err (ErrText ''CLUSTER_NAME environment variable is required'' [])
         else if \<not> clusterNameRE name
         then Err (ErrText ''CLUSTER_NAME %q is not a valid Hetzner label value (must match [a-zA-Z0-9._-], max 63 chars)''
                     [AStr name])
         else (case loadAPITimeout getenv of
             Err e \<Rightarrow> Err e
           | Panic \<Rightarrow> Panic
           | Ok timeout \<Rightarrow> Ok \<lparr>cfg_ClusterName = name, cfg_APITimeout = timeout\<rparr>))"

section \<open>The HTTP client\<close>

text \<open>The fields the code sets; the others are those of the default transport.\<close>

record http_client =
  http_Timeout :: duration
  http_DialTimeout :: duration
  http_KeepAlive :: duration
  http_TLSHandshakeTimeout :: duration
  http_ResponseHeaderTimeout :: duration
  http_MaxIdleConnsPerHost :: int

definition newHTTPClient :: "duration \<Rightarrow> http_client" where
  "newHTTPClient timeout =
     \<lparr>http_Timeout = timeout, http_DialTimeout = 10 * second, http_KeepAlive = 30 * second,
      http_TLSHandshakeTimeout = 10 * second, http_ResponseHeaderTimeout = timeout,
      http_MaxIdleConnsPerHost = 20\<rparr>"

record client_options =
  opt_Token :: string
  opt_HTTPClient :: http_client
  opt_Application :: string

definition hcloudOptions :: "string \<Rightarrow> duration \<Rightarrow> client_options" where
  "hcloudOptions token timeout =
     \<lparr>opt_Token = token, opt_HTTPClient = newHTTPClient timeout, opt_Application = ''karpenter-provider-hetzner''\<rparr>"

text \<open>The configuration is a pointer.\<close>

definition NewHCloudClient ::
  "(client_options \<Rightarrow> 'c) \<Rightarrow> getenv \<Rightarrow> config option \<Rightarrow> (err, 'c) outcome" where
  "NewHCloudClient newClient getenv cfg =
     (case cfg of
        None \<Rightarrow> Err (ErrText ''config is required'' [])
      | Some c \<Rightarrow>
          (let token = getenv ''HCLOUD_TOKEN''
           in if token = '''' then Err (ErrText ''HCLOUD_TOKEN environment variable is required'' [])
              else Ok (newClient (hcloudOptions token (cfg_APITimeout c)))))"

section \<open>Start-up\<close>

text \<open>The SDK's client: one part per resource.\<close>

record 'w hcloud_client =
  hc_Server :: "'w server_client"
  hc_PlacementGroup :: "'w placement_group_client"
  hc_Action :: "'w action_waiter"
  hc_ServerType :: "'w server_type_client"
  hc_Image :: "'w image_client"
  hc_Network :: "'w network_getter"
  hc_Firewall :: "'w firewall_getter"
  hc_SSHKey :: "'w ssh_key_getter"

text \<open>What \<open>main\<close> calls of karpenter core; the operator's own parts (manager, clock, event recorder,
  instance-type store) are inside.\<close>

record ('w, 'd, 's, 'c) core_parts =
  core_Decorate :: "'w cloud_provider \<Rightarrow> 'w kube_client \<Rightarrow> 'd"
  core_NewCluster :: "'w kube_client \<Rightarrow> 'd \<Rightarrow> 's"
  core_NewControllers :: "'w kube_client \<Rightarrow> 'd \<Rightarrow> 'w cloud_provider \<Rightarrow> 's \<Rightarrow> 'c list"

datatype ('w, 'c) started = CoreController 'c | NodeClassController "'w controller"

record ('w, 'c) running_operator =
  run_cloudProvider :: "'w cloud_provider"
  run_typeProvider :: type_provider
  run_nodeClassController :: "'w controller"
  run_controllers :: "('w, 'c) started list"

text \<open>
  An error is logged and ends \<open>main\<close>; otherwise it starts karpenter's controllers, which are handed the
  cloud provider decorated and plain, and the NodeClass controller after them. Starting a controller
  registers it, which gives it the manager's event recorder.
\<close>

definition main ::
  "(client_options \<Rightarrow> 'w hcloud_client) \<Rightarrow> ('w, 'd, 's, 'c) core_parts \<Rightarrow> 'w kube_client \<Rightarrow>
     (warning_event \<Rightarrow> 'w \<Rightarrow> 'w) \<Rightarrow> getenv \<Rightarrow> (err, ('w, 'c) running_operator) outcome" where
  "main newClient core kubeClient recorder getenv =
     (case LoadConfig getenv of
        Err e \<Rightarrow> Err e
      | Panic \<Rightarrow> Panic
      | Ok cfg \<Rightarrow>
          (case NewHCloudClient newClient getenv (Some cfg) of
             Err e \<Rightarrow> Err e
           | Panic \<Rightarrow> Panic
           | Ok hc \<Rightarrow>
               (let instanceProvider = NewProviderWithPlacementGroups (hc_Server hc) (hc_PlacementGroup hc)
                                         (cfg_ClusterName cfg) (hc_Action hc);
                    baseCloudProvider = NewCloudProvider kubeClient instanceProvider (hc_ServerType hc) (hc_Image hc);
                    cloudProvider = core_Decorate core baseCloudProvider kubeClient;
                    clusterState = core_NewCluster core kubeClient cloudProvider;
                    nodeClassController = Register recorder
                      (NewController kubeClient (hc_Network hc) (hc_Firewall hc) (hc_SSHKey hc) (hc_Image hc))
                in Ok \<lparr>run_cloudProvider = baseCloudProvider, run_typeProvider = NewTypeProvider,
                       run_nodeClassController = nodeClassController,
                       run_controllers =
                         map CoreController
                           (core_NewControllers core kubeClient cloudProvider baseCloudProvider clusterState) @
                         [NodeClassController nodeClassController]\<rparr>)))"

end
