(* ===== verification/Instance_Correct.thy ===== *)
theory Instance_Correct
  imports Instance
begin

text \<open>
  What the instance provider promises: which create errors count as missing capacity, which labels a
  server carries and that a cluster lists its own servers only, that a server is returned only when
  it is being provisioned, and that a deletion ends in the error karpenter finalizes NodeClaims on.
\<close>

section \<open>Classification of create errors\<close>

text \<open>Only a hcloud API error saying the type cannot be had in this location right now -- its code
  is resource_unavailable or resource_limit_exceeded, or it is an invalid_input naming an unsupported
  location -- becomes an InsufficientCapacityError; anything else (a rate limit, a timeout, an error
  the API never answered) stays an ordinary, retryable error, and nil stays nil.\<close>

theorem create_error_classification:
  "MapCreateError None = None \<and>
   (\<exists>e'. MapCreateError (Some e) = Some e' \<and>
      \<not> IsNodeClaimNotFoundError e' \<and> \<not> IsNodeClassNotReadyError e' \<and>
      (IsInsufficientCapacityError e' \<longleftrightarrow>
         (\<exists>h. sdk_as_hcloud e = Some h \<and>
            (he_Code h = ErrorCodeResourceUnavailable \<or> he_Code h = ErrorCodeResourceLimitExceeded \<or>
             he_Code h = ErrorCodeInvalidInput \<and>
               (\<exists>pre post. ToLower (he_Message h) = pre @ ''unsupported location'' @ post \<or>
                           ToLower (he_Message h) = pre @ ''location for server type'' @ post)))))"
  by (auto simp: err_simps hcloud_IsError_def isUnsupportedPlacement_def Let_def Contains_iff
      split: option.splits)

lemma map_create_error_insufficient:
  "IsInsufficientCapacityError (the (MapCreateError (Some e))) \<longleftrightarrow>
     hcloud_IsError e ErrorCodeResourceUnavailable \<or> hcloud_IsError e ErrorCodeResourceLimitExceeded \<or>
     isUnsupportedPlacement e"
  by (auto simp: err_simps)

section \<open>Labels and cluster scope\<close>

definition management_labels :: "string \<Rightarrow> create_opts \<Rightarrow> string go_map" where
  "management_labels clusterName opts =
     [(ServerLabelManagedBy, ServerValueManagedBy), (ServerLabelCluster, clusterName)] @
     (if co_NodeClaim opts \<noteq> '''' then [(ServerLabelNodeClaim, co_NodeClaim opts)] else []) @
     (if co_NodePool opts \<noteq> '''' then [(ServerLabelNodePool, co_NodePool opts)] else [])"

lemma create_labels_ok [simp]: "go_map_ok (create_labels c opts)"
  by (simp add: create_labels_def Let_def)

lemma create_labels_lookup:
  assumes "go_map_ok (co_Labels opts)"
  shows "map_of (create_labels c opts) = map_of (co_Labels opts) ++ map_of (management_labels c opts)"
  using assms
  by (auto simp: create_labels_def management_labels_def Let_def map_of_map_put_all fun_eq_iff
      server_label_defs map_add_def split: option.splits)

text \<open>The labels sent with a server are the NodeClass labels overridden by karpenter's management
  labels (managed-by, cluster, and NodeClaim and NodePool when they are not empty), every other user
  label preserved; the order in which Go ranges over the user's map does not matter.\<close>

theorem create_labels_merge:
  assumes "go_map_ok (co_Labels opts)" and "go_map_ok ls" and "map_of ls = map_of (co_Labels opts)"
  shows "map_of (create_labels c opts) = map_of (co_Labels opts) ++ map_of (management_labels c opts) \<and>
         map_of (create_labels c (opts\<lparr>co_Labels := ls\<rparr>)) = map_of (create_labels c opts)"
  using assms create_labels_lookup [of opts c] create_labels_lookup [of "opts\<lparr>co_Labels := ls\<rparr>" c]
  by (simp add: management_labels_def)

definition example_opts :: create_opts where
  "example_opts =
     \<lparr>co_Name = ''nc-1'', co_ServerType = ''cx22'', co_Location = ''nbg1'', co_Image = None,
      co_NetworkID = 7, co_FirewallIDs = [], co_SSHKeyIDs = [],
      co_Labels = [(''team'', ''a''), (''karpenter.sh/cluster'', ''evil'')],
      co_UserData = '''', co_NodeClaim = ''nc-1'', co_NodePool = ''pool'',
      co_PlacementGroupStrategy = ''spread'', co_EnablePublicIPv4 = True, co_EnablePublicIPv6 = True\<rparr>"

text \<open>The label selector of \<open>List\<close> as the pairs it asks for.\<close>

definition list_selector_pairs :: "string \<Rightarrow> (string \<times> string) list" where
  "list_selector_pairs c = [(ServerLabelManagedBy, ServerValueManagedBy), (ServerLabelCluster, c)]"

lemma list_selector_renders:
  "list_selector c = Join (map (\<lambda>(k, v). k @ ''='' @ v) (list_selector_pairs c)) '',''"
  by (simp add: list_selector_def list_selector_pairs_def)

text \<open>Clusters sharing a Hetzner project do not see each other's servers: the labels of a server
  created for one cluster satisfy the selector of that cluster's \<open>List\<close> and of no other cluster's,
  whatever labels the NodeClass asks for.\<close>

theorem cluster_scope:
  assumes "go_map_ok (co_Labels opts)"
  shows "(\<forall>(k, v) \<in> set (list_selector_pairs c'). map_of (create_labels c opts) k = Some v) \<longleftrightarrow> c' = c"
  by (auto simp: create_labels_lookup [OF assms] list_selector_pairs_def management_labels_def
      server_label_defs map_add_def split: option.splits)

section \<open>Placement groups\<close>

text \<open>Two clusters with the same node-pool name never share a placement group, as the comment
  on \<open>placementGroupName\<close> says; but the name is not injective in the pair, so a cluster and pool
  whose names split differently around a hyphen do share one.\<close>

theorem placement_group_names:
  "(placementGroupName c pool = placementGroupName c' pool \<longleftrightarrow> c = c') \<and>
   (placementGroupName c pool = placementGroupName c pool' \<longleftrightarrow> pool = pool') \<and>
   placementGroupName ''a'' ''b-c'' = placementGroupName ''a-b'' ''c''"
  by (auto simp: placementGroupName_def Let_def)

lemma placement_group_existing:
  assumes "pgc_AllWithOpts pgc name (env_world s) = (Ok (g # gs), w)"
  shows "getOrCreatePlacementGroup pgc name s = (Ok g, s\<lparr>env_world := w\<rparr>)"
  using assms by (simp add: getOrCreatePlacementGroup_def bind_call_def wrap_call_def on_world_def
      return_call_def)

section \<open>Frame\<close>

text \<open>The internal methods leave the metrics alone.\<close>

lemma keeps_on_world_metrics [frame_intros]: "keeps env_metrics (on_world f)"
  by (auto simp: keeps_def on_world_def split: prod.splits)

lemma keeps_create_metrics: "keeps env_metrics (create p opts)"
  unfolding create_def resolve_placement_group_def getOrCreatePlacementGroup_def wait_for_actions_def Let_def
  by (intro frame_intros)

lemma keeps_delete_metrics: "keeps env_metrics (delete_server p pid)"
  unfolding delete_server_def by (intro frame_intros)

section \<open>Creating a server\<close>

definition create_actions :: "server_create_result \<Rightarrow> action list" where
  "create_actions r = (case cr_Action r of None \<Rightarrow> [] | Some a \<Rightarrow> [a]) @ cr_NextActions r"

lemma wait_for_actions_ok:
  "wait_for_actions p opts r s = (Ok u, s') \<longleftrightarrow>
     (case ip_waiter p of
        None \<Rightarrow> s' = s
      | Some waitFor \<Rightarrow>
          if create_actions r = [] then s' = s
          else \<exists>w. waitFor (create_actions r) (env_world s) = (Ok (), w) \<and> s' = s\<lparr>env_world := w\<rparr>)"
  by (auto simp: wait_for_actions_def create_actions_def Let_def call_simps split: option.splits)

lemma wait_for_actions_err:
  "wait_for_actions p opts r s = (Err e, s') \<Longrightarrow> \<not> IsInsufficientCapacityError e"
  by (auto simp: wait_for_actions_def Let_def call_simps err_simps split: option.splits if_splits)

lemma resolve_placement_group_err:
  "resolve_placement_group p opts s = (Err e, s') \<Longrightarrow> \<not> IsInsufficientCapacityError e"
  by (auto simp: resolve_placement_group_def getOrCreatePlacementGroup_def call_simps err_simps
      neq_Nil_conv split: option.splits if_splits list.splits)

lemma create_ok_inv:
  assumes "create p opts s = (Ok v, s')"
  obtains pg s1 r w2 where
    "resolve_placement_group p opts s = (Ok pg, s1)"
    "sc_Create (ip_client p) (server_create_opts_for (ip_clusterName p) opts pg) (env_world s1) = (Ok r, w2)"
    "wait_for_actions p opts r (s1\<lparr>env_world := w2\<rparr>) = (Ok (), s')"
    "v = cr_Server r"
  using assms unfolding create_def
  by (auto simp: call_simps simp del: MapCreateError.simps)

lemma create_err_inv:
  assumes "create p opts s = (Err e, s')"
  obtains (group) "resolve_placement_group p opts s = (Err e, s')"
  | (api) pg s1 e1 w where "resolve_placement_group p opts s = (Ok pg, s1)"
      "sc_Create (ip_client p) (server_create_opts_for (ip_clusterName p) opts pg) (env_world s1) = (Err e1, w)"
      "s' = s1\<lparr>env_world := w\<rparr>" "e = the (MapCreateError (Some e1))"
  | (wait) pg s1 r w where "resolve_placement_group p opts s = (Ok pg, s1)"
      "sc_Create (ip_client p) (server_create_opts_for (ip_clusterName p) opts pg) (env_world s1) = (Ok r, w)"
      "wait_for_actions p opts r (s1\<lparr>env_world := w\<rparr>) = (Err e, s')"
  using assms unfolding create_def
  by (auto simp: call_simps simp del: MapCreateError.simps)

lemma map_create_error_capacity:
  "IsInsufficientCapacityError (the (MapCreateError (Some e))) \<Longrightarrow>
     the (MapCreateError (Some e)) = ErrInsufficientCapacity (ErrSdk e)"
  by (auto simp: err_simps split: if_splits)

text \<open>\<open>create\<close> returns a server only after one successful API create call with the placement
  group it resolved, and, when it has a waiter, only after every action of that create -- the main
  one and the follow-ups -- has completed.\<close>

theorem create_waits_for_actions:
  assumes "create p opts s = (Ok v, s')"
  shows "\<exists>pg s1 r w2.
     resolve_placement_group p opts s = (Ok pg, s1) \<and>
     sc_Create (ip_client p) (server_create_opts_for (ip_clusterName p) opts pg) (env_world s1) = (Ok r, w2) \<and>
     v = cr_Server r \<and>
     (case ip_waiter p of
        None \<Rightarrow> env_world s' = w2
      | Some waitFor \<Rightarrow>
          (if create_actions r = [] then env_world s' = w2
           else waitFor (create_actions r) w2 = (Ok (), env_world s')))"
  using assms
proof (rule create_ok_inv)
  fix pg s1 r w2
  assume "resolve_placement_group p opts s = (Ok pg, s1)"
    and "sc_Create (ip_client p) (server_create_opts_for (ip_clusterName p) opts pg) (env_world s1) = (Ok r, w2)"
    and "wait_for_actions p opts r (s1\<lparr>env_world := w2\<rparr>) = (Ok (), s')" and "v = cr_Server r"
  then show ?thesis
    by (intro exI [of _ pg] exI [of _ s1] exI [of _ r] exI [of _ w2])
       (auto simp: wait_for_actions_ok split: option.splits if_splits)
qed

text \<open>An offering is reported as out of capacity only by the server-create call itself: when
  \<open>create\<close> fails with an InsufficientCapacityError, the placement group had been resolved and the API
  refused the server with a capacity error; a failing placement group or wait never does that.\<close>

theorem create_capacity_error_origin:
  assumes "create p opts s = (Err e, s')" and "IsInsufficientCapacityError e"
  shows "\<exists>pg s1 e1.
     resolve_placement_group p opts s = (Ok pg, s1) \<and>
     sc_Create (ip_client p) (server_create_opts_for (ip_clusterName p) opts pg) (env_world s1)
       = (Err e1, env_world s') \<and>
     e = ErrInsufficientCapacity (ErrSdk e1)"
  using assms(1)
proof (cases rule: create_err_inv)
  case group
  with assms(2) show ?thesis by (simp add: resolve_placement_group_err)
next
  case (api pg s1 e1 w)
  with assms(2) map_create_error_capacity [of e1] show ?thesis
    by (intro exI [of _ pg] exI [of _ s1] exI [of _ e1]) (simp del: MapCreateError.simps)
next
  case (wait pg s1 r w)
  with assms(2) show ?thesis by (auto dest: wait_for_actions_err)
qed

text \<open>When the placement group cannot be resolved, no server is created: the world is as the
  placement-group calls left it, and the error is an ordinary one.\<close>

theorem create_stops_without_placement_group:
  assumes "resolve_placement_group p opts s = (Err e, s')"
  shows "create p opts s = (Err e, s') \<and> \<not> IsInsufficientCapacityError e"
  using assms resolve_placement_group_err [OF assms] by (simp add: create_def call_step)

section \<open>Deleting and reading servers\<close>

text \<open>\<open>Delete\<close> of a well-formed provider ID returns success exactly when the API found the server
  and accepted its deletion, and a NodeClaimNotFoundError -- what karpenter needs to drop its
  finalizer -- exactly when the API says the server does not exist: a not_found on reading it, no
  server in the answer, or a not_found because it vanished before the delete call.\<close>

theorem delete_terminal_outcomes:
  fixes p :: "'w instance_provider" and s :: "('w, 'z) env_scheme"
  assumes "ParseProviderID providerID = Ok i"
    and "sc_GetByID (ip_client p) i (env_world s) = (r, w)"
  shows "((\<exists>s'. delete_server p providerID s = (Ok (), s')) \<longleftrightarrow>
           (\<exists>srv w'. r = Ok (Some srv) \<and> sc_DeleteWithResult (ip_client p) srv w = (Ok (), w'))) \<and>
         ((\<exists>e s'. delete_server p providerID s = (Err e, s') \<and> IsNodeClaimNotFoundError e) \<longleftrightarrow>
           r = Ok None \<or>
           (\<exists>e. r = Err e \<and> hcloud_IsError e ErrorCodeNotFound) \<or>
           (\<exists>srv e w'. r = Ok (Some srv) \<and> sc_DeleteWithResult (ip_client p) srv w = (Err e, w') \<and>
              hcloud_IsError e ErrorCodeNotFound))"
  using assms
  by (intro conjI; cases r; force simp: delete_server_def bind_call_def wrap_call_def on_world_def
      lift_outcome_def fail_call_def not_found_def err_simps split: option.splits prod.splits outcome.splits)

text \<open>Every \<open>Create\<close> and every \<open>Delete\<close> that returns is counted once, by the result the metric's
  documentation gives: a create that returned an error as \<open>error\<close>, any other as \<open>success\<close>; a delete
  as \<open>error\<close> only when it failed for another reason than the server being gone already.\<close>

theorem calls_counted_once:
  fixes s :: "('w, 'z) env_scheme"
  assumes "Create clock p opts s = (rc, sc)" and "rc \<noteq> Panic"
    and "Delete p pid s = (rd, sd)" and "rd \<noteq> Panic"
  shows "serverCreateTotal (env_metrics sc) =
           inc (if is_ok rc then ResultSuccess else ResultError) (serverCreateTotal (env_metrics s)) \<and>
         serverDeleteTotal (env_metrics sd) =
           inc (case rd of Err e \<Rightarrow> if IsNodeClaimNotFoundError e then ResultSuccess else ResultError
                         | _ \<Rightarrow> ResultSuccess) (serverDeleteTotal (env_metrics s)) \<and>
         length (serverCreateDurationSeconds (env_metrics sc)) =
           Suc (length (serverCreateDurationSeconds (env_metrics s)))"
proof -
  have c: "create p opts s = (r, s') \<Longrightarrow> env_metrics s' = env_metrics s" for r s'
    by (rule keepsD [OF keeps_create_metrics])
  have d: "delete_server p pid s = (r, s') \<Longrightarrow> env_metrics s' = env_metrics s" for r s'
    by (rule keepsD [OF keeps_delete_metrics])
  from assms show ?thesis
    by (auto simp: Create_def Delete_def Let_def record_defs dest: c d
        split: prod.splits outcome.splits if_splits)
qed

section \<open>A concrete provider\<close>

text \<open>
  Clients over a world that counts calls, for the witnesses: reading server 4711 finds it, creating a
  cx22 succeeds with a main and a follow-up action, other requests fail.
\<close>

definition example_server :: server where
  "example_server =
     \<lparr>srv_ID = 4711, srv_Image = None, srv_ServerType = None, srv_Location = Some ''nbg1'',
      srv_PrivateNet = [], srv_Firewalls = [], srv_Labels = []\<rparr>"

definition api_err :: "hcloud_code \<Rightarrow> sdk_error" where
  "api_err c = SdkError (Some \<lparr>he_Code = c, he_Message = ''''\<rparr>) ''api error''"

definition example_client :: "nat server_client" where
  "example_client =
     \<lparr>sc_Create = (\<lambda>o' w. if sco_ServerType o' = ''cx22''
        then (Ok \<lparr>cr_Server = Some example_server, cr_Action = Some 1, cr_NextActions = [2]\<rparr>, Suc w)
        else (Err (api_err ErrorCodeResourceUnavailable), Suc w)),
      sc_DeleteWithResult = (\<lambda>srv w. (Ok (), Suc w)),
      sc_GetByID = (\<lambda>i w. if i = 4711 then (Ok (Some example_server), Suc w)
        else (Err (api_err ErrorCodeNotFound), Suc w)),
      sc_AllWithOpts = (\<lambda>l w. (Ok [], Suc w))\<rparr>"

definition example_pg_client :: "nat placement_group_client" where
  "example_pg_client =
     \<lparr>pgc_AllWithOpts = (\<lambda>n w. if n = ''karpenter-prod-pool'' then (Ok [], Suc w)
        else (Err (api_err ErrorCodeResourceLimitExceeded), Suc w)),
      pgc_Create = (\<lambda>n w. (Ok (Some 9), Suc w))\<rparr>"

definition example_provider :: "string \<Rightarrow> nat instance_provider" where
  "example_provider c =
     NewProviderWithPlacementGroups example_client example_pg_client c (\<lambda>as w. (Ok (), w + length as))"

definition example_env :: "nat env" where
  "example_env = \<lparr>env_world = 0, env_metrics = initial_metrics\<rparr>"

lemmas example_defs =
  example_provider_def example_client_def example_pg_client_def example_env_def example_opts_def
  NewProviderWithPlacementGroups_def api_err_def

lemmas run_defs =
  bind_call_def wrap_call_def on_world_def lift_outcome_def return_call_def fail_call_def

lemma example_group_fails:
  "resolve_placement_group (example_provider ''test'') example_opts example_env =
     (Err (ErrWrap ''resolving placement group: %w'' []
        (ErrWrap ''listing placement groups: %w'' [] (ErrSdk (api_err ErrorCodeResourceLimitExceeded)))),
      example_env\<lparr>env_world := 1\<rparr>)"
  by (simp add: resolve_placement_group_def getOrCreatePlacementGroup_def placementGroupName_def
      example_defs run_defs)

lemma example_create:
  "create (example_provider ''prod'') (example_opts\<lparr>co_ServerType := ''cx22''\<rparr>) example_env =
     (Ok (Some example_server), example_env\<lparr>env_world := 5\<rparr>)"
  unfolding create_def
  by (simp add: example_defs run_defs wait_for_actions_def server_create_opts_for_def
      resolve_placement_group_def getOrCreatePlacementGroup_def placementGroupName_def)

lemma example_create_fails:
  "create (example_provider ''prod'') (example_opts\<lparr>co_ServerType := ''cx52''\<rparr>) example_env =
     (Err (ErrInsufficientCapacity (ErrSdk (api_err ErrorCodeResourceUnavailable))),
      example_env\<lparr>env_world := 3\<rparr>)"
  unfolding create_def
  by (simp add: example_defs run_defs server_create_opts_for_def hcloud_IsError_def
      resolve_placement_group_def getOrCreatePlacementGroup_def placementGroupName_def)

lemma example_read:
  "sc_GetByID (ip_client (example_provider c)) 4711 (env_world example_env) = (Ok (Some example_server), 1)"
  "sc_GetByID (ip_client (example_provider c)) 12 (env_world example_env) = (Err (api_err ErrorCodeNotFound), 1)"
  by (simp_all add: example_defs)

lemma example_ids:
  "ParseProviderID ''hcloud://4711'' = Ok 4711" "ParseProviderID ''hcloud://12'' = Ok 12"
  by (simp_all add: ParseProviderID_def ProviderIDPrefix_def HasPrefix_def TrimPrefix_def ParseInt_def
      sign_rest_def ParseUint_def is_digit_def digit_val_def)

end
