(* ===== verification/Node_Class_Correct.thy ===== *)
theory Node_Class_Correct
  imports Node_Class_Controller
begin

text \<open>
  What a reconcile pass guarantees: which images are in status afterwards and why, that a failure to
  read the catalogue never clears an architecture while a changed specification always does, that
  the conditions report the outcome, and that the status is written only when it changed.
\<close>

section \<open>Writing conditions\<close>

lemma cond_specD:
  assumes "cond_spec cs" and "t \<in> conditionTypes"
  shows "cond_frame (cs_For cs)"
    and "writes_cond (cs_SetTrue cs t) t CondTrue"
    and "writes_cond (cs_SetFalse cs t r m) t CondFalse"
    and "writes_cond (cs_SetUnknown cs t r m) t CondUnknown"
  using assms by (simp_all add: cond_spec_def)

lemma cond_For:
  "cond_spec cs \<Longrightarrow> t \<in> conditionTypes \<Longrightarrow>
     (case find_cond t (nc_Conditions nc) of
        Some c \<Rightarrow> find_cond t (nc_Conditions (cs_For cs nc)) = Some c
      | None \<Rightarrow> \<exists>c. find_cond t (nc_Conditions (cs_For cs nc)) = Some c \<and> cond_Status c = CondUnknown \<and>
                   cond_ObservedGeneration c = nc_Generation nc)"
  by (simp add: cond_spec_def)

lemma cond_frame_sel:
  assumes "cond_frame f"
  shows "nc_Spec (f nc) = nc_Spec nc" "nc_Generation (f nc) = nc_Generation nc" "nc_Name (f nc) = nc_Name nc"
    "nc_ResolvedImages (f nc) = nc_ResolvedImages nc"
proof -
  have "f nc = nc\<lparr>nc_Conditions := nc_Conditions (f nc)\<rparr>" using assms unfolding cond_frame_def by blast
  then show "nc_Spec (f nc) = nc_Spec nc" "nc_Generation (f nc) = nc_Generation nc" "nc_Name (f nc) = nc_Name nc"
    "nc_ResolvedImages (f nc) = nc_ResolvedImages nc"
    by (metis node_class.select_convs(1-5) node_class.surjective node_class.update_convs(4))+
qed

text \<open>
  A write through \<open>StatusConditions()\<close>: the object is the same but for its conditions, the written one
  has its status and the current generation, and another keeps its value or is created as Unknown
  at the current generation.
\<close>

definition reported :: "node_class \<Rightarrow> cond_type \<Rightarrow> cond_status \<Rightarrow> bool" where
  "reported nc t st \<longleftrightarrow>
     (\<exists>c. find_cond t (nc_Conditions nc) = Some c \<and> cond_Status c = st \<and> cond_ObservedGeneration c = nc_Generation nc)"

text \<open>
  The generation \<open>reconcile_images\<close> reads off the condition. By then \<open>StatusConditions()\<close> has been called
  for the validations and has created an absent \<open>ImagesReady\<close> at the present generation. For an object
  that has the condition this is \<open>ResolvedImagesGeneration\<close>.
\<close>

definition images_generation :: "node_class \<Rightarrow> int64" where
  "images_generation nc =
     (case find_cond ConditionTypeImagesReady (nc_Conditions nc) of
        None \<Rightarrow> nc_Generation nc | Some c \<Rightarrow> cond_ObservedGeneration c)"

definition same_object :: "node_class \<Rightarrow> node_class \<Rightarrow> bool" where
  "same_object nc nc' \<longleftrightarrow>
     nc_Spec nc' = nc_Spec nc \<and> nc_Generation nc' = nc_Generation nc \<and> nc_Name nc' = nc_Name nc \<and>
     nc_ResolvedImages nc' = nc_ResolvedImages nc"

definition set_cond :: "cond_set \<Rightarrow> cond_type \<Rightarrow> cond_status \<Rightarrow> node_class \<Rightarrow> node_class \<Rightarrow> bool" where
  "set_cond cs t st nc nc' \<longleftrightarrow>
     nc' = set_true cs t nc \<and> st = CondTrue \<or>
     (\<exists>r m. nc' = set_false cs t r m nc \<and> st = CondFalse) \<or>
     (\<exists>r m. nc' = set_unknown cs t r m nc \<and> st = CondUnknown)"

lemma set_condI [intro]:
  "set_cond cs t CondTrue nc (set_true cs t nc)"
  "set_cond cs t CondFalse nc (set_false cs t r m nc)"
  "set_cond cs t CondUnknown nc (set_unknown cs t r m nc)"
  by (auto simp: set_cond_def)

lemma writes_after_For:
  assumes "cond_spec cs" and "t \<in> conditionTypes" and "writes_cond f t st" and "nc' = f (cs_For cs nc)"
  shows "same_object nc nc' \<and> reported nc' t st \<and>
         (t \<noteq> ConditionTypeImagesReady \<longrightarrow>
            (\<exists>c. find_cond ConditionTypeImagesReady (nc_Conditions nc') = Some c \<and>
               cond_ObservedGeneration c = images_generation nc))"
proof -
  note For = cond_frame_sel [OF cond_specD(1) [OF assms(1,2)], of nc]
  have f: "cond_frame f" using assms(3) by (simp add: writes_cond_def)
  note F = cond_frame_sel [OF f, of "cs_For cs nc"]
  obtain c where c: "find_cond t (nc_Conditions (f (cs_For cs nc))) = Some c" "cond_Status c = st"
      "cond_ObservedGeneration c = nc_Generation (cs_For cs nc)"
    using assms(3) unfolding writes_cond_def by blast
  have im: "ConditionTypeImagesReady \<in> conditionTypes" by (simp add: conditionTypes_def)
  obtain c0 where c0: "find_cond ConditionTypeImagesReady (nc_Conditions (cs_For cs nc)) = Some c0"
      "cond_ObservedGeneration c0 = images_generation nc"
    using cond_For [OF assms(1) im, of nc] by (auto simp: images_generation_def split: option.splits)
  have "find_cond ConditionTypeImagesReady (nc_Conditions (f (cs_For cs nc))) = Some c0"
    if "t \<noteq> ConditionTypeImagesReady"
    using assms(3) that im c0(1) unfolding writes_cond_def by metis
  with c c0(2) For F show ?thesis by (auto simp: assms(4) same_object_def reported_def)
qed

lemma set_cond_result:
  assumes "cond_spec cs" and "t \<in> conditionTypes" and "set_cond cs t st nc nc'"
  shows "same_object nc nc' \<and> reported nc' t st \<and>
         (t \<noteq> ConditionTypeImagesReady \<longrightarrow>
            (\<exists>c. find_cond ConditionTypeImagesReady (nc_Conditions nc') = Some c \<and>
               cond_ObservedGeneration c = images_generation nc))"
  using assms(3) unfolding set_cond_def set_true_def set_false_def set_unknown_def
proof (elim disjE conjE exE)
  assume "nc' = cs_SetTrue cs t (cs_For cs nc)" "st = CondTrue"
  then show ?thesis using writes_after_For [OF assms(1,2) cond_specD(2) [OF assms(1,2)]] by blast
next
  fix r m
  assume "nc' = cs_SetFalse cs t r m (cs_For cs nc)" "st = CondFalse"
  then show ?thesis using writes_after_For [OF assms(1,2) cond_specD(3) [OF assms(1,2)]] by blast
next
  fix r m
  assume "nc' = cs_SetUnknown cs t r m (cs_For cs nc)" "st = CondUnknown"
  then show ?thesis using writes_after_For [OF assms(1,2) cond_specD(4) [OF assms(1,2)]] by blast
qed

text \<open>The object as the image step finds it, after the validations.\<close>

definition validated :: "node_class \<Rightarrow> node_class \<Rightarrow> bool" where
  "validated nc nc' \<longleftrightarrow> same_object nc nc' \<and> ResolvedImagesGeneration nc' = images_generation nc"

lemma set_cond_validated:
  assumes "cond_spec cs" and "t \<in> conditionTypes" and "t \<noteq> ConditionTypeImagesReady" and "set_cond cs t st nc nc'"
  shows "validated nc nc' \<and> images_generation nc' = images_generation nc"
  using set_cond_result [OF assms(1,2,4)] assms(3)
  by (auto simp: validated_def ResolvedImagesGeneration_def images_ready_generation_find
      images_generation_def [of nc'] same_object_def)

lemma validated_trans:
  "validated nc nc' \<Longrightarrow> validated nc' nc'' \<Longrightarrow> images_generation nc' = images_generation nc \<Longrightarrow> validated nc nc''"
  by (simp add: validated_def same_object_def)

section \<open>The validations\<close>

lemma reconcile_network_ok:
  "reconcile_network cs c nc s = (Ok nc', s') \<Longrightarrow> \<exists>st. set_cond cs ConditionTypeNetworkReady st nc nc'"
  by (auto simp: reconcile_network_def split: prod.splits outcome.splits option.splits)

lemma report_validation_ok:
  "report_validation cs c t action v nc s = (Ok nc', s') \<Longrightarrow>
     set_cond cs t (case v of Valid \<Rightarrow> CondTrue | Check_failed r m \<Rightarrow> CondUnknown | Missing r m \<Rightarrow> CondFalse) nc nc'"
  by (auto simp: report_validation_def split: validation.splits)

lemma validate_pass_ok:
  fixes s :: "('w, 'z) env_scheme"
  assumes "cond_spec cs" and "validate_pass cs c nc s = (Ok nc3, s5)"
  shows "validated nc nc3"
proof -
  from assms(2) have "\<exists>nc1 s1 v (s2 :: ('w, 'z) env_scheme) nc2 (s3 :: ('w, 'z) env_scheme) u (s4 :: ('w, 'z) env_scheme).
    reconcile_network cs c nc s = (Ok nc1, s1) \<and>
    report_validation cs c ConditionTypeResourcesReady ''ValidateResources'' v nc1 s2 = (Ok nc2, s3) \<and>
    report_validation cs c ConditionTypeUserDataReady ''ValidateUserData'' u nc2 s4 = (Ok nc3, s5)"
    unfolding validate_pass_def bind_call_ok_iff by (elim exE conjE) (intro exI conjI, assumption+)
  then obtain nc1 s1 v and s2 :: "('w, 'z) env_scheme" and nc2 and s3 :: "('w, 'z) env_scheme" and u
      and s4 :: "('w, 'z) env_scheme" where st:
    "reconcile_network cs c nc s = (Ok nc1, s1)"
    "report_validation cs c ConditionTypeResourcesReady ''ValidateResources'' v nc1 s2 = (Ok nc2, s3)"
    "report_validation cs c ConditionTypeUserDataReady ''ValidateUserData'' u nc2 s4 = (Ok nc3, s5)" by blast
  obtain st1 where "set_cond cs ConditionTypeNetworkReady st1 nc nc1"
    using reconcile_network_ok [OF st(1)] by blast
  note c1 = set_cond_validated [OF assms(1) _ _ this, unfolded conditionTypes_def, simplified]
  note c2 = set_cond_validated [OF assms(1) _ _ report_validation_ok [OF st(2)], unfolded conditionTypes_def, simplified]
  note c3 = set_cond_validated [OF assms(1) _ _ report_validation_ok [OF st(3)], unfolded conditionTypes_def, simplified]
  show ?thesis using c1 c2 c3 validated_trans by metis
qed

lemma reconcile_pass_stages:
  assumes "cond_spec cs" and "reconcile_pass cs c nc s = (Ok nc', s')"
  obtains nc3 s3 where "validate_pass cs c nc s = (Ok nc3, s3)" "validated nc nc3"
    "reconcile_images cs c nc3 s3 = (Ok nc', s')"
  using assms(2) validate_pass_ok [OF assms(1)] unfolding reconcile_pass_def bind_call_ok_iff by blast

section \<open>The image step\<close>

text \<open>The image status holds for an architecture: the last entry of it.\<close>

definition recorded_image :: "node_class \<Rightarrow> string \<Rightarrow> int64 option" where
  "recorded_image nc arch = map_of (previous_ids (nc_ResolvedImages nc)) arch"

text \<open>What a pass should record, given the answer of the catalogue and the image held so far.\<close>

definition image_after :: "string \<Rightarrow> int64 option \<Rightarrow> (err, image) outcome \<Rightarrow> int64 option" where
  "image_after arch held answer =
     (case answer of
        Ok img \<Rightarrow> if img_Architecture img = arch then Some (img_ID img) else None
      | Err e \<Rightarrow> if IsPermanent e then None else held
      | Panic \<Rightarrow> None)"

lemma resolve_arch_ok:
  "resolve_arch c nc arch s = (Ok r, s') \<longleftrightarrow>
     (\<exists>x. Resolve (ctl_images c) (spec_ImageSelector (nc_Spec nc)) arch s = (x, s') \<and> x \<noteq> Panic \<and>
        (case x of
           Ok img \<Rightarrow> if img_Architecture img = arch
             then r = \<lparr>ir_arch = arch, ir_imageID = img_ID img, ir_err = None, ir_transient = False\<rparr>
             else r = \<lparr>ir_arch = arch, ir_imageID = 0,
                    ir_err = Some (ErrText ''%s: catalogue returned image %d with architecture %q''
                      [AStr arch, AInt (img_ID img), AStr (img_Architecture img)]), ir_transient = False\<rparr>
         | Err e \<Rightarrow> r = \<lparr>ir_arch = arch, ir_imageID = 0, ir_err = Some (ErrWrap ''%s: %w'' [AStr arch] e),
                        ir_transient = (\<not> IsPermanent e)\<rparr>
         | Panic \<Rightarrow> False))"
  by (auto simp: resolve_arch_def split: prod.splits outcome.splits)

definition entry_of :: "(string \<times> int64) list \<Rightarrow> image_resolution \<Rightarrow> int64 option" where
  "entry_of prev r =
     (case ir_err r of
        None \<Rightarrow> Some (ir_imageID r)
      | Some e \<Rightarrow> if ir_transient r then map_of prev (ir_arch r) else None)"

lemma entry_of_resolved:
  "resolve_arch c nc arch s = (Ok r, s') \<Longrightarrow>
     ir_arch r = arch \<and>
     entry_of prev r = image_after arch (map_of prev arch)
       (fst (Resolve (ctl_images c) (spec_ImageSelector (nc_Spec nc)) arch s))"
proof -
  assume "resolve_arch c nc arch s = (Ok r, s')"
  then obtain x where x: "Resolve (ctl_images c) (spec_ImageSelector (nc_Spec nc)) arch s = (x, s')" "x \<noteq> Panic"
    "case x of
           Ok img \<Rightarrow> if img_Architecture img = arch
             then r = \<lparr>ir_arch = arch, ir_imageID = img_ID img, ir_err = None, ir_transient = False\<rparr>
             else r = \<lparr>ir_arch = arch, ir_imageID = 0,
                    ir_err = Some (ErrText ''%s: catalogue returned image %d with architecture %q''
                      [AStr arch, AInt (img_ID img), AStr (img_Architecture img)]), ir_transient = False\<rparr>
         | Err e \<Rightarrow> r = \<lparr>ir_arch = arch, ir_imageID = 0, ir_err = Some (ErrWrap ''%s: %w'' [AStr arch] e),
                        ir_transient = (\<not> IsPermanent e)\<rparr>
         | Panic \<Rightarrow> False"
    unfolding resolve_arch_ok by blast
  then show ?thesis
    by (cases x) (simp_all add: entry_of_def image_after_def split: if_splits)
qed

lemma merge_resolved:
  "mg_resolved (merge_results prev rs) =
     concat (map (\<lambda>r. case entry_of prev r of
                       None \<Rightarrow> [] | Some i \<Rightarrow> [\<lparr>ri_Architecture = ir_arch r, ri_ImageID = i\<rparr>]) rs)"
  by (induction rs) (auto simp: entry_of_def Let_def split: option.splits)

lemma merge_errs:
  "mg_transient (merge_results prev rs) = [] \<longleftrightarrow> (\<forall>r \<in> set rs. ir_err r = None \<or> \<not> ir_transient r)"
  "mg_definitive (merge_results prev rs) = [] \<longleftrightarrow> (\<forall>r \<in> set rs. ir_err r = None \<or> ir_transient r)"
  by (induction rs) (auto simp: Let_def split: option.splits)

declare merge_results.simps [simp del]

lemma recorded_pair:
  assumes "ir_arch x \<noteq> ir_arch a"
    and "nc_ResolvedImages nc = mg_resolved (merge_results prev [x, a])"
  shows "recorded_image nc (ir_arch x) = entry_of prev x" "recorded_image nc (ir_arch a) = entry_of prev a"
  using assms
  by (auto simp: recorded_image_def previous_ids_def merge_resolved split: option.splits)

lemma drop_stale_sel [simp]:
  "nc_Spec (drop_stale nc) = nc_Spec nc" "nc_Generation (drop_stale nc) = nc_Generation nc"
  "nc_Conditions (drop_stale nc) = nc_Conditions nc" "nc_Name (drop_stale nc) = nc_Name nc"
  by (simp_all add: drop_stale_def)

lemma report_images_ok:
  assumes "report_images cs c nc m s = (Ok nc', s')"
  shows "set_cond cs ConditionTypeImagesReady
           (if mg_resolved m \<noteq> [] then CondTrue else if mg_transient m \<noteq> [] then CondUnknown else CondFalse)
           (nc\<lparr>nc_ResolvedImages := mg_resolved m\<rparr>) nc'"
  using assms by (auto simp: report_images_def Let_def split: if_splits option.splits)

text \<open>One pass over both architectures: the two answers, and the object it leaves.\<close>

definition held_ids :: "node_class \<Rightarrow> (string \<times> int64) list" where
  "held_ids nc = previous_ids (nc_ResolvedImages (drop_stale nc))"

lemma reconcile_images_result:
  assumes "cond_spec cs" and "reconcile_images cs c nc s = (Ok nc', s')"
  obtains x a s1 s2 where
    "resolve_arch c nc ArchitectureX86 s = (Ok x, s1)" "resolve_arch c nc ArchitectureARM s1 = (Ok a, s2)"
    "nc_ResolvedImages nc' = mg_resolved (merge_results (held_ids nc) [x, a])"
    "nc_Spec nc' = nc_Spec nc" "nc_Generation nc' = nc_Generation nc"
    "reported nc' ConditionTypeImagesReady
       (if nc_ResolvedImages nc' \<noteq> [] then CondTrue
        else if mg_transient (merge_results (held_ids nc) [x, a]) \<noteq> [] then CondUnknown else CondFalse)"
proof -
  have arch: "resolve_arch c (drop_stale nc) = resolve_arch c nc" by (simp add: resolve_arch_def fun_eq_iff)
  from assms(2) obtain x a s1 s2 where r:
    "resolve_arch c nc ArchitectureX86 s = (Ok x, s1)" "resolve_arch c nc ArchitectureARM s1 = (Ok a, s2)"
    "report_images cs c (drop_stale nc) (merge_results (held_ids nc) [x, a]) s2 = (Ok nc', s')"
    unfolding reconcile_images_def resolveImages_def Let_def held_ids_def arch
    by (auto simp: bind_call_ok_iff return_call_apply arch)
  let ?m = "merge_results (held_ids nc) [x, a]"
  have im: "ConditionTypeImagesReady \<in> conditionTypes" by (simp add: conditionTypes_def)
  note w = set_cond_result [OF assms(1) im report_images_ok [OF r(3)]]
  have "nc_ResolvedImages nc' = mg_resolved ?m" using w by (simp add: same_object_def)
  with w r that show thesis by (simp add: same_object_def)
qed

lemma reported_current: "reported nc ConditionTypeImagesReady st \<Longrightarrow> CurrentResolvedImages nc = nc_ResolvedImages nc"
  by (auto simp: reported_def CurrentResolvedImages_def ResolvedImagesGeneration_def images_ready_generation_find)

text \<open>With the condition there, what the image step holds from before is what status offered.\<close>

lemma offered_before:
  assumes "find_cond ConditionTypeImagesReady (nc_Conditions nc) \<noteq> None \<or> nc_ResolvedImages nc = []"
  shows "(if images_generation nc = nc_Generation nc then recorded_image nc arch else None) =
    map_of (previous_ids (CurrentResolvedImages nc)) arch"
  using assms
  by (auto simp: images_generation_def CurrentResolvedImages_def ResolvedImagesGeneration_def
      images_ready_generation_find recorded_image_def previous_ids_def split: option.splits)

text \<open>C12: Take a NodeClass that has its \<open>ImagesReady\<close> condition, or has no images yet, as every NodeClass
  only this controller has written. After a pass, status holds for each architecture exactly what is
  known of it: the image just resolved when the catalogue answered with one of that architecture;
  nothing when the catalogue was read and proves it absent or answers with another architecture; and
  when the catalogue could not be read, the image that status offered before, that is, one resolved for
  the present generation of the specification. Nothing else is recorded, and the entries are current
  afterwards. Images without the condition are left out: the comments want them discarded and the code
  keeps them, which is \<open>absent_condition_keeps_images\<close> below.\<close>

theorem reconcile_records_what_is_known:
  fixes s :: "('w, 'z) env_scheme"
  assumes "cond_spec cs" and "reconcile_pass cs c nc s = (Ok nc', s')"
    and "find_cond ConditionTypeImagesReady (nc_Conditions nc) \<noteq> None \<or> nc_ResolvedImages nc = []"
  shows "\<exists>nc1 s1. validate_pass cs c nc s = (Ok nc1, s1) \<and>
    (let look = Resolve (ctl_images c) (spec_ImageSelector (nc_Spec nc));
         held = map_of (previous_ids (CurrentResolvedImages nc))
     in recorded_image nc' ArchitectureX86 =
          image_after ArchitectureX86 (held ArchitectureX86) (fst (look ArchitectureX86 s1)) \<and>
        recorded_image nc' ArchitectureARM =
          image_after ArchitectureARM (held ArchitectureARM) (fst (look ArchitectureARM (snd (look ArchitectureX86 s1)))) \<and>
        ri_Architecture ` set (nc_ResolvedImages nc') \<subseteq> {ArchitectureX86, ArchitectureARM} \<and>
        nc_Spec nc' = nc_Spec nc \<and> nc_Generation nc' = nc_Generation nc \<and>
        CurrentResolvedImages nc' = nc_ResolvedImages nc')"
proof -
  obtain nc3 s3 where vp: "validate_pass cs c nc s = (Ok nc3, s3)" and v: "validated nc nc3"
      and i: "reconcile_images cs c nc3 s3 = (Ok nc', s')"
    by (rule reconcile_pass_stages [OF assms(1,2)])
  obtain x a s4 s5 st where r:
    "resolve_arch c nc3 ArchitectureX86 s3 = (Ok x, s4)" "resolve_arch c nc3 ArchitectureARM s4 = (Ok a, s5)"
    "nc_ResolvedImages nc' = mg_resolved (merge_results (held_ids nc3) [x, a])"
    "nc_Spec nc' = nc_Spec nc3" "nc_Generation nc' = nc_Generation nc3"
    "reported nc' ConditionTypeImagesReady st"
    by (rule reconcile_images_result [OF assms(1) i]) blast
  let ?look = "Resolve (ctl_images c) (spec_ImageSelector (nc_Spec nc))"
  have held: "map_of (held_ids nc3) arch = map_of (previous_ids (CurrentResolvedImages nc)) arch" for arch
    unfolding offered_before [OF assms(3), symmetric]
    using v by (auto simp: held_ids_def drop_stale_def validated_def same_object_def recorded_image_def previous_ids_def)
  have spec: "nc_Spec nc3 = nc_Spec nc" "nc_Generation nc3 = nc_Generation nc"
    using v by (simp_all add: validated_def same_object_def)
  have x: "ir_arch x = ArchitectureX86" "\<And>prev. entry_of prev x =
      image_after ArchitectureX86 (map_of prev ArchitectureX86) (fst (?look ArchitectureX86 s3))"
    using entry_of_resolved [OF r(1)] by (simp_all add: spec)
  have a: "ir_arch a = ArchitectureARM" "\<And>prev. entry_of prev a =
      image_after ArchitectureARM (map_of prev ArchitectureARM) (fst (?look ArchitectureARM s4))"
    using entry_of_resolved [OF r(2)] by (simp_all add: spec)
  have s4: "s4 = snd (?look ArchitectureX86 s3)" using r(1) by (auto simp: resolve_arch_ok spec)
  have ne: "ir_arch x \<noteq> ir_arch a" by (simp add: x a arch_defs)
  have "ri_Architecture ` set (nc_ResolvedImages nc') \<subseteq> {ArchitectureX86, ArchitectureARM}"
    by (auto simp: r(3) merge_resolved x(1) a(1) split: option.splits)
  then show ?thesis
    using recorded_pair [OF ne r(3)] r(4,5) reported_current [OF r(6)]
    unfolding x a held s4 spec Let_def by (intro exI [of _ nc3] exI [of _ s3] conjI vp)
qed

text \<open>C28: \<open>ImagesReady\<close> after a pass, stamped with the present generation: True exactly when an image is
  recorded for some architecture, be it one kept because its lookup failed; Unknown when none is
  recorded but one of the two lookups said nothing about the catalogue; False when the catalogue was
  read and holds no image for either architecture. This is the rule of the comments in \<open>controller.go\<close> and of
  \<open>docs/talos-bootstrap.md\<close>. Two texts say otherwise and are wrong of this code: the multi-architecture
  example announces False as soon as one architecture has no image, where the code reports True for the
  other; and the changelog announces Unknown when a lookup failed and its image was kept, where the code
  reports True, an event and a count.\<close>

theorem images_ready_reports_outcome:
  fixes s :: "('w, 'z) env_scheme"
  assumes "cond_spec cs" and "reconcile_pass cs c nc s = (Ok nc', s')"
  shows "\<exists>nc1 s1. validate_pass cs c nc s = (Ok nc1, s1) \<and>
    (let look = Resolve (ctl_images c) (spec_ImageSelector (nc_Spec nc));
         unread = (\<lambda>r. \<exists>e. r = Err e \<and> \<not> IsPermanent e)
     in reported nc' ConditionTypeImagesReady
          (if nc_ResolvedImages nc' \<noteq> [] then CondTrue
           else if unread (fst (look ArchitectureX86 s1)) \<or> unread (fst (look ArchitectureARM (snd (look ArchitectureX86 s1))))
           then CondUnknown else CondFalse))"
proof -
  obtain nc3 s3 where vp: "validate_pass cs c nc s = (Ok nc3, s3)" and v: "validated nc nc3"
      and i: "reconcile_images cs c nc3 s3 = (Ok nc', s')"
    by (rule reconcile_pass_stages [OF assms])
  let ?look = "Resolve (ctl_images c) (spec_ImageSelector (nc_Spec nc))"
  have spec: "nc_Spec nc3 = nc_Spec nc" using v by (simp add: validated_def same_object_def)
  show ?thesis
  proof (rule reconcile_images_result [OF assms(1) i])
    fix x a s4 s5
    assume r: "resolve_arch c nc3 ArchitectureX86 s3 = (Ok x, s4)" "resolve_arch c nc3 ArchitectureARM s4 = (Ok a, s5)"
      "reported nc' ConditionTypeImagesReady
         (if nc_ResolvedImages nc' \<noteq> [] then CondTrue
          else if mg_transient (merge_results (held_ids nc3) [x, a]) \<noteq> [] then CondUnknown else CondFalse)"
    have t: "ir_err q \<noteq> None \<and> ir_transient q \<longleftrightarrow> (\<exists>e. fst (?look arch t) = Err e \<and> \<not> IsPermanent e)"
      if "resolve_arch c nc3 arch t = (Ok q, t')" for arch t t' q
    proof -
      from that obtain y where "?look arch t = (y, t')" "y \<noteq> Panic" and q: "case y of
           Ok img \<Rightarrow> if img_Architecture img = arch
             then q = \<lparr>ir_arch = arch, ir_imageID = img_ID img, ir_err = None, ir_transient = False\<rparr>
             else q = \<lparr>ir_arch = arch, ir_imageID = 0,
                    ir_err = Some (ErrText ''%s: catalogue returned image %d with architecture %q''
                      [AStr arch, AInt (img_ID img), AStr (img_Architecture img)]), ir_transient = False\<rparr>
         | Err e \<Rightarrow> q = \<lparr>ir_arch = arch, ir_imageID = 0, ir_err = Some (ErrWrap ''%s: %w'' [AStr arch] e),
                        ir_transient = (\<not> IsPermanent e)\<rparr>
         | Panic \<Rightarrow> False"
        unfolding resolve_arch_ok spec by blast
      then show ?thesis by (cases y) (auto split: if_splits)
    qed
    have s4: "s4 = snd (?look ArchitectureX86 s3)" using r(1) by (auto simp: resolve_arch_ok spec)
    have "mg_transient (merge_results (held_ids nc3) [x, a]) \<noteq> [] \<longleftrightarrow>
        (\<exists>e. fst (?look ArchitectureX86 s3) = Err e \<and> \<not> IsPermanent e) \<or>
        (\<exists>e. fst (?look ArchitectureARM s4) = Err e \<and> \<not> IsPermanent e)"
      unfolding merge_errs(1) using t [OF r(1)] t [OF r(2)] by auto
    then show ?thesis using r(3) unfolding s4 Let_def by (intro exI [of _ nc3] exI [of _ s3] conjI vp) (simp only: if_True if_False)
  qed
qed

text \<open>
  Reading the generation after \<open>StatusConditions()\<close> was called defeats the rule that an absent condition
  reads as zero: the validations have created \<open>ImagesReady\<close> at the present generation by then, so
  images recorded in an object without the condition are taken for current ones.
\<close>

lemma absent_condition_keeps_images:
  assumes "cond_spec cs" and "find_cond ConditionTypeImagesReady (nc_Conditions nc) = None"
    and "validate_pass cs c nc s = (Ok nc1, s1)"
  shows "nc_ResolvedImages (drop_stale nc1) = nc_ResolvedImages nc"
  using validate_pass_ok [OF assms(1,3)] assms(2)
  by (simp add: drop_stale_def validated_def same_object_def images_generation_def)

section \<open>Errors and panics\<close>

text \<open>Clients that answer every call with a value or an error.\<close>

definition no_panics :: "('a \<Rightarrow> 'w \<Rightarrow> ('e, 'b) outcome \<times> 'w) \<Rightarrow> bool" where
  "no_panics get \<longleftrightarrow> (\<forall>x w. fst (get x w) \<noteq> Panic)"

definition clients_return :: "'w controller \<Rightarrow> bool" where
  "clients_return c \<longleftrightarrow>
     no_panics (ctl_networks c) \<and> no_panics (ctl_firewalls c) \<and> no_panics (ctl_sshKeys c) \<and>
     no_panics (ctl_images c) \<and> (\<forall>ns. no_panics (kube_GetSecretData (ctl_kubeClient c) ns)) \<and>
     no_panics (kube_UpdateStatus (ctl_kubeClient c))"

lemma no_panicsD: "no_panics get \<Longrightarrow> get x w \<noteq> (Panic, w')"
  unfolding no_panics_def by (metis fst_conv)

lemma total_network: "no_panics (ctl_networks c) \<Longrightarrow> total_call (reconcile_network cs c nc)"
  by (rule total_callI)
     (auto simp: reconcile_network_def on_world_def no_panicsD split: prod.splits outcome.splits option.splits)

lemma total_check_all: "no_panics get \<Longrightarrow> total_call (check_all get f m fmt is)"
proof (induction "is")
  case Nil
  then show ?case by (simp add: total_return)
next
  case (Cons i "is")
  note rest = Cons.IH [OF Cons.prems, unfolded total_call_iff]
  show ?case
    by (rule total_callI)
       (use Cons.prems rest in \<open>auto simp: on_world_def no_panicsD split: prod.splits outcome.splits option.splits\<close>)
qed

lemma total_resources:
  "no_panics (ctl_firewalls c) \<Longrightarrow> no_panics (ctl_sshKeys c) \<Longrightarrow> total_call (validateResources c nc)"
  unfolding validateResources_def by (intro total_bind total_check_all) (auto intro: total_check_all total_return)

lemma total_userdata:
  assumes "\<forall>ns. no_panics (kube_GetSecretData (ctl_kubeClient c) ns)"
  shows "total_call (validateUserData c nc)"
  using assms
  by (intro total_callI)
     (auto simp: validateUserData_def return_call_def on_world_def no_panicsD
        split: prod.splits outcome.splits option.splits)

lemma total_report_validation: "total_call (report_validation cs c t action v nc)"
  by (rule total_callI) (cases v; simp add: report_validation_def)

lemma total_resolve_arch:
  assumes "no_panics (ctl_images c)"
  shows "total_call (resolve_arch c nc arch)"
proof (rule total_callI)
  fix s
  obtain x s' where x: "Resolve (ctl_images c) (spec_ImageSelector (nc_Spec nc)) arch s = (x, s')"
    by (cases "Resolve (ctl_images c) (spec_ImageSelector (nc_Spec nc)) arch s")
  then have "x \<noteq> Panic"
    using no_panicsD [OF assms]
    by (cases rule: Resolve_cases [of "spec_ImageSelector (nc_Spec nc)" "ctl_images c" arch s]) auto
  with x show "\<exists>a s'. resolve_arch c nc arch s = (Ok a, s')"
    by (cases x) (simp_all add: resolve_arch_def)
qed

lemma total_report_images:
  assumes "mg_resolved m \<noteq> [] \<or> mg_transient m \<noteq> [] \<or> mg_definitive m \<noteq> []"
  shows "total_call (report_images cs c nc m)"
proof -
  have "joined = [] \<or> errors_Join (map Some joined) \<noteq> None" for joined
    using errors_Join_Somes [of joined] by blast
  with assms show ?thesis
    by (intro total_callI)
       (auto simp: report_images_def Let_def errors_Join_pair errors_Join_Somes split: option.splits)
qed

lemma merge_not_empty: "mg_resolved (merge_results prev (r # rs)) \<noteq> [] \<or>
    mg_transient (merge_results prev (r # rs)) \<noteq> [] \<or> mg_definitive (merge_results prev (r # rs)) \<noteq> []"
  by (auto simp: merge_results.simps Let_def split: option.splits)

lemma total_reconcile_images:
  assumes "no_panics (ctl_images c)"
  shows "total_call (reconcile_images cs c nc)"
proof (rule total_callI)
  fix s
  let ?nc = "drop_stale nc"
  obtain x s1 where "resolve_arch c ?nc ArchitectureX86 s = (Ok x, s1)"
    using total_callE [OF total_resolve_arch [OF assms]] by metis
  moreover obtain a s2 where "resolve_arch c ?nc ArchitectureARM s1 = (Ok a, s2)"
    using total_callE [OF total_resolve_arch [OF assms]] by metis
  moreover obtain nc' s' where
    "report_images cs c ?nc (merge_results (previous_ids (nc_ResolvedImages ?nc)) [x, a]) s2 = (Ok nc', s')"
    using total_callE [OF total_report_images [OF merge_not_empty]] by metis
  ultimately show "\<exists>a s'. reconcile_images cs c nc s = (Ok a, s')"
    unfolding reconcile_images_def resolveImages_def Let_def bind_call_ok_iff return_call_apply by blast
qed

lemmas total_stages =
  total_network total_resources total_userdata total_report_validation total_reconcile_images

lemma total_validate_pass: "clients_return c \<Longrightarrow> total_call (validate_pass cs c nc)"
  unfolding validate_pass_def clients_return_def by (intro total_bind) (auto intro: total_stages)

lemma total_reconcile_pass: "clients_return c \<Longrightarrow> total_call (reconcile_pass cs c nc)"
  unfolding reconcile_pass_def
  by (intro total_bind total_validate_pass total_reconcile_images) (auto simp: clients_return_def)

lemma never_fails_stages:
  "never_fails (reconcile_network cs c nc)" "never_fails (validateUserData c nc)"
  "never_fails (report_validation cs c t action v nc)" "never_fails (resolve_arch c nc arch)"
  by (auto simp: never_fails_def reconcile_network_def validateUserData_def report_validation_def resolve_arch_def
      return_call_apply split: prod.splits outcome.splits option.splits validation.splits)

lemma never_fails_report_images: "never_fails (report_images cs c nc m)"
proof -
  have "fst (report_images cs c nc m s) \<noteq> Err e" for s e
    unfolding report_images_def Let_def by (simp split: option.split)
  then show ?thesis unfolding never_fails_def by (metis fst_conv)
qed

lemma never_fails_check_all: "never_fails (check_all get f m fmt is)"
proof (induction "is")
  case Nil
  then show ?case by (simp add: never_fails_pure)
next
  case (Cons i "is")
  then show ?case by (auto simp: never_fails_def split: prod.splits outcome.splits option.splits)
qed

lemma never_fails_pass: "never_fails (reconcile_pass cs c nc)"
  unfolding reconcile_pass_def validate_pass_def reconcile_images_def resolveImages_def validateResources_def Let_def
  by (intro never_fails_bind never_fails_stages never_fails_report_images never_fails_check_all never_fails_pure)
     (simp add: never_fails_check_all never_fails_pure)

text \<open>A reconcile returns an error exactly when writing a changed status fails, and it returns that
  error; an hcloud call, a Secret or an image lookup that fails is reported by a condition instead and
  never fails the reconcile.\<close>

theorem reconcile_fails_only_on_write:
  "Reconcile cs c stored s = (Err e, s') \<longleftrightarrow>
     (\<exists>nc s1 ke. reconcile_pass cs c stored s = (Ok nc, s1) \<and> nc \<noteq> stored \<and>
        kube_UpdateStatus (ctl_kubeClient c) nc (env_world s1) = (Err ke, env_world s') \<and>
        e = ErrKube ke \<and> s' = s1\<lparr>env_world := env_world s'\<rparr>)"
proof -
  have "(wrap_call ErrKube (on_world (kube_UpdateStatus (ctl_kubeClient c) nc)) s1 = (Err e, s')) \<longleftrightarrow>
      (\<exists>ke. kube_UpdateStatus (ctl_kubeClient c) nc (env_world s1) = (Err ke, env_world s') \<and>
        e = ErrKube ke \<and> s' = s1\<lparr>env_world := env_world s'\<rparr>)" for nc s1
    by (auto simp: wrap_call_err_iff on_world_def split: prod.splits)
  moreover have "reconcile_pass cs c stored s \<noteq> (Err e, s')"
    using never_fails_pass [of cs c stored] unfolding never_fails_def by blast
  ultimately show ?thesis
    unfolding Reconcile_def bind_call_err_iff by (auto simp: bind_call_err_iff return_call_apply)
qed

text \<open>C30: Whenever its clients return, a reconcile returns: no answer of the APIs, no state of the
  object and no mixture of failed lookups makes it panic, although two of its branches call \<open>Error()\<close> on
  a joined error that is nil when its parts are. It then asks to run again in five minutes, or
  returns the error of the status write.\<close>

theorem reconcile_never_panics:
  assumes "clients_return c"
  shows "\<exists>r s'. Reconcile cs c stored s = (r, s') \<and> (r = Ok (5 * minute) \<or> (\<exists>ke. r = Err (ErrKube ke)))"
proof -
  obtain nc s1 where p: "reconcile_pass cs c stored s = (Ok nc, s1)"
    using total_callE [OF total_reconcile_pass [OF assms]] by metis
  obtain r w where u: "kube_UpdateStatus (ctl_kubeClient c) nc (env_world s1) = (r, w)"
    by (cases "kube_UpdateStatus (ctl_kubeClient c) nc (env_world s1)")
  with assms have "r \<noteq> Panic" by (auto simp: clients_return_def no_panicsD)
  with p u show ?thesis
    by (cases r)
       (auto simp: Reconcile_def bind_call_def wrap_call_def on_world_def return_call_apply resyncInterval_def)
qed

section \<open>A concrete condition set\<close>

text \<open>For the witnesses: a list of conditions with one entry per written type.\<close>

definition write_cond ::
  "cond_status \<Rightarrow> cond_type \<Rightarrow> string \<Rightarrow> cond_message \<Rightarrow> node_class \<Rightarrow> node_class" where
  "write_cond st t reason msg nc =
     nc\<lparr>nc_Conditions :=
          \<lparr>cond_Type = t, cond_Status = st, cond_Reason = reason, cond_Message = msg,
           cond_ObservedGeneration = nc_Generation nc\<rparr> # filter (\<lambda>d. cond_Type d \<noteq> t) (nc_Conditions nc)\<rparr>"

fun init_conds :: "cond_type list \<Rightarrow> node_class \<Rightarrow> node_class" where
  "init_conds [] nc = nc"
| "init_conds (t # ts) nc =
     (if find_cond t (nc_Conditions nc) = None
      then init_conds ts (write_cond CondUnknown t ''AwaitingReconciliation'' MsgNone nc) else init_conds ts nc)"

definition example_conds :: cond_set where
  "example_conds =
     \<lparr>cs_For = init_conds [ConditionTypeImagesReady, ConditionTypeNetworkReady, ConditionTypeResourcesReady,
                           ConditionTypeUserDataReady],
      cs_SetTrue = (\<lambda>t. write_cond CondTrue t ''Ready'' MsgNone),
      cs_SetFalse = write_cond CondFalse, cs_SetUnknown = write_cond CondUnknown\<rparr>"

lemma find_cond_Cons [simp]: "find_cond t (c # cs) = (if cond_Type c = t then Some c else find_cond t cs)"
  by (simp add: find_cond_def)

lemma find_cond_filter [simp]:
  "find_cond t' (filter (\<lambda>d. cond_Type d \<noteq> t) cs) = (if t' = t then None else find_cond t' cs)"
  by (induction cs) (auto simp: find_cond_def)

lemma write_cond_sel [simp]:
  "nc_Generation (write_cond st t r m nc) = nc_Generation nc"
  "find_cond t' (nc_Conditions (write_cond st t r m nc)) =
     (if t' = t then Some \<lparr>cond_Type = t, cond_Status = st, cond_Reason = r, cond_Message = m,
                           cond_ObservedGeneration = nc_Generation nc\<rparr>
      else find_cond t' (nc_Conditions nc))"
  by (simp_all add: write_cond_def)

lemma cond_frame_iff: "cond_frame f \<longleftrightarrow> (\<forall>nc. \<exists>cs. f nc = nc\<lparr>nc_Conditions := cs\<rparr>)"
proof
  assume "\<forall>nc. \<exists>cs. f nc = nc\<lparr>nc_Conditions := cs\<rparr>"
  then have "f nc = nc\<lparr>nc_Conditions := nc_Conditions (f nc)\<rparr>" for nc by (elim allE [of _ nc] exE) simp
  then show "cond_frame f" by (simp add: cond_frame_def)
next
  assume "cond_frame f"
  then show "\<forall>nc. \<exists>cs. f nc = nc\<lparr>nc_Conditions := cs\<rparr>" unfolding cond_frame_def by blast
qed

lemma cond_frame_write: "cond_frame (write_cond st t r m)"
  by (simp add: cond_frame_def write_cond_def)

lemma cond_frame_init: "cond_frame (init_conds ts)"
proof -
  have "\<exists>cs. init_conds ts nc = nc\<lparr>nc_Conditions := cs\<rparr>" for nc
  proof (induction ts arbitrary: nc)
    case Nil
    show ?case by (rule exI [of _ "nc_Conditions nc"]) simp
  next
    case (Cons t ts)
    obtain cs where "init_conds ts (write_cond CondUnknown t ''AwaitingReconciliation'' MsgNone nc) = nc\<lparr>nc_Conditions := cs\<rparr>"
      using Cons [of "write_cond CondUnknown t ''AwaitingReconciliation'' MsgNone nc"] by (auto simp: write_cond_def)
    then show ?case using Cons [of nc] by auto
  qed
  then show ?thesis by (simp add: cond_frame_iff)
qed

lemma find_cond_init:
  "find_cond t (nc_Conditions (init_conds ts nc)) =
     (case find_cond t (nc_Conditions nc) of
        Some c \<Rightarrow> Some c
      | None \<Rightarrow> if t \<in> set ts
          then Some \<lparr>cond_Type = t, cond_Status = CondUnknown, cond_Reason = ''AwaitingReconciliation'',
                     cond_Message = MsgNone, cond_ObservedGeneration = nc_Generation nc\<rparr>
          else None)"
proof (induction ts arbitrary: nc t)
  case Nil
  show ?case by (simp split: option.split)
next
  case (Cons u ts)
  show ?case by (auto simp: Cons.IH split: option.split)
qed

lemma example_For:
  "cs_For example_conds = init_conds [ConditionTypeImagesReady, ConditionTypeNetworkReady,
     ConditionTypeResourcesReady, ConditionTypeUserDataReady]"
  by (simp add: example_conds_def)

lemma example_conds_spec: "cond_spec example_conds"
proof -
  have For: "case find_cond t (nc_Conditions nc) of
      Some c \<Rightarrow> find_cond t (nc_Conditions (cs_For example_conds nc)) = Some c
    | None \<Rightarrow> \<exists>c. find_cond t (nc_Conditions (cs_For example_conds nc)) = Some c \<and> cond_Status c = CondUnknown \<and>
                cond_ObservedGeneration c = nc_Generation nc" if "t \<in> conditionTypes" for nc t
    using that by (auto simp: example_For find_cond_init conditionTypes_def simp del: init_conds.simps split: option.split)
  have wr: "writes_cond (write_cond st t r m) t st" for st t r m
    by (simp add: writes_cond_def cond_frame_write)
  have sets: "cs_SetTrue example_conds t = write_cond CondTrue t ''Ready'' MsgNone"
    "cs_SetFalse example_conds = write_cond CondFalse" "cs_SetUnknown example_conds = write_cond CondUnknown" for t
    by (simp_all add: example_conds_def)
  have fr: "cond_frame (cs_For example_conds)" by (simp only: example_For cond_frame_init)
  show ?thesis
    unfolding cond_spec_def sets by (intro conjI allI impI ballI fr wr For)
qed

text \<open>A NodeClass whose x86 image was resolved for its present generation, and a controller whose clients
  answer the same whatever happens.\<close>

definition example_class :: node_class where
  "example_class =
     \<lparr>nc_Name = ''default'', nc_Generation = 3,
      nc_Spec = \<lparr>spec_Locations = [], spec_ImageSelector = talos_selector, spec_NetworkID = 1,
                 spec_FirewallIDs = [2], spec_SSHKeyIDs = [], spec_PlacementGroupStrategy = '''', spec_Labels = [],
                 spec_UserData = '''', spec_UserDataSecretRef = None, spec_EnablePublicIPv4 = None,
                 spec_EnablePublicIPv6 = None\<rparr>,
      nc_Conditions = [\<lparr>cond_Type = ConditionTypeImagesReady, cond_Status = CondTrue, cond_Reason = ''Ready'',
                        cond_Message = MsgNone, cond_ObservedGeneration = 3\<rparr>],
      nc_ResolvedImages = [\<lparr>ri_Architecture = ArchitectureX86, ri_ImageID = 7\<rparr>]\<rparr>"

definition still_kube :: "unit kube_client" where
  "still_kube =
     \<lparr>kube_GetNodeClass = (\<lambda>n w. (Ok example_class, w)), kube_GetSecretData = (\<lambda>ns n w. (Ok [], w)),
      kube_UpdateStatus = (\<lambda>nc w. (Ok (), w))\<rparr>"

definition still_controller :: "(sdk_error, image list) outcome \<Rightarrow> unit controller" where
  "still_controller r =
     \<lparr>ctl_kubeClient = still_kube, ctl_networks = (\<lambda>i w. (Ok (Some ()), w)),
      ctl_firewalls = (\<lambda>i w. (Ok (Some ()), w)), ctl_sshKeys = (\<lambda>i w. (Ok None, w)),
      ctl_images = still_images r, ctl_recorder = None\<rparr>"

lemma still_controller_returns: "r \<noteq> Panic \<Longrightarrow> clients_return (still_controller r)"
  by (simp add: clients_return_def no_panics_def still_controller_def still_kube_def still_images_def)

lemma still_pass:
  assumes "r \<noteq> Panic"
  obtains nc' s' where "reconcile_pass example_conds (still_controller r) example_class still_env = (Ok nc', s')"
  using total_callE [OF total_reconcile_pass [OF still_controller_returns [OF assms]]] by metis

lemma still_Resolve:
  "fst (Resolve (still_images (Err e)) talos_selector arch s) = Err x \<Longrightarrow> \<not> IsPermanent x"
  "is_ok (fst (Resolve (still_images (Err e)) talos_selector arch s)) = False"
  "fst (Resolve (still_images (Err e)) talos_selector arch s) \<noteq> Panic"
  using talos_example_matches(2)
  by (cases rule: Resolve_cases [of talos_selector "still_images (Err e)" arch s]; simp add: still_images_def)+

lemma still_unread:
  "\<exists>x. fst (Resolve (still_images (Err e)) talos_selector arch s) = Err x \<and> \<not> IsPermanent x"
  using still_Resolve by (metis is_ok.simps(1) outcome.exhaust)

text \<open>The catalogue cannot be read: the image held for x86 stays and its condition stays True, and nothing
  is made up for arm.\<close>

theorem reconcile_records_what_is_known_witness:
  "\<exists>nc' s'. reconcile_pass example_conds (still_controller (Err (SdkError None ''503''))) example_class still_env =
       (Ok nc', s') \<and>
     recorded_image nc' ArchitectureX86 = Some 7 \<and> recorded_image nc' ArchitectureARM = None"
proof -
  obtain nc' s' where p: "reconcile_pass example_conds (still_controller (Err (SdkError None ''503'')))
      example_class still_env = (Ok nc', s')"
    using still_pass by blast
  have held: "map_of (previous_ids (CurrentResolvedImages example_class)) ArchitectureX86 = Some 7"
    "map_of (previous_ids (CurrentResolvedImages example_class)) ArchitectureARM = None"
    "spec_ImageSelector (nc_Spec example_class) = talos_selector"
    "find_cond ConditionTypeImagesReady (nc_Conditions example_class) \<noteq> None \<or> nc_ResolvedImages example_class = []"
    by (simp_all add: CurrentResolvedImages_def ResolvedImagesGeneration_def images_ready_generation_find
        example_class_def previous_ids_def arch_defs)
  have after: "image_after arch h (fst (Resolve (still_images (Err e)) talos_selector arch s)) = h" for arch h e s
    using still_unread [of e arch s] by (auto simp: image_after_def)
  have "ctl_images (still_controller r) = still_images r" for r by (simp add: still_controller_def)
  with reconcile_records_what_is_known [OF example_conds_spec p held(4)] p held after show ?thesis
    unfolding Let_def by auto
qed

theorem images_ready_reports_outcome_witness:
  "\<exists>nc' s'. reconcile_pass example_conds (still_controller (Err (SdkError None ''503'')))
       (example_class\<lparr>nc_Generation := 4\<rparr>) still_env = (Ok nc', s') \<and>
     reported nc' ConditionTypeImagesReady CondUnknown"
proof -
  let ?nc = "example_class\<lparr>nc_Generation := 4\<rparr>"
  let ?c = "still_controller (Err (SdkError None ''503''))"
  have c: "ctl_images ?c = still_images (Err (SdkError None ''503''))"
    "spec_ImageSelector (nc_Spec ?nc) = talos_selector"
    by (simp_all add: still_controller_def example_class_def)
  obtain nc' s' where p: "reconcile_pass example_conds ?c ?nc still_env = (Ok nc', s')"
    using total_callE [OF total_reconcile_pass [OF still_controller_returns]] by (metis outcome.distinct(5))
  obtain nc3 s3 where v: "validated ?nc nc3" and i: "reconcile_images example_conds ?c nc3 s3 = (Ok nc', s')"
    by (rule reconcile_pass_stages [OF example_conds_spec p])
  have "held_ids nc3 = []" using v
    by (simp add: held_ids_def drop_stale_def validated_def same_object_def images_generation_def example_class_def
        previous_ids_def)
  moreover have "entry_of [] r = None" if "resolve_arch ?c nc3 arch t = (Ok r, t')" for r arch and t t' :: "unit env"
  proof -
    have "spec_ImageSelector (nc_Spec nc3) = talos_selector" using v c(2) by (simp add: validated_def same_object_def)
    then show ?thesis using entry_of_resolved [OF that, of "[]"] still_unread [of "SdkError None ''503''" arch t]
      by (auto simp: image_after_def c(1))
  qed
  ultimately have "nc_ResolvedImages nc' = []"
    by - (rule reconcile_images_result [OF example_conds_spec i], simp add: merge_resolved)
  with images_ready_reports_outcome [OF example_conds_spec p] p show ?thesis
    unfolding Let_def c by (auto simp: still_unread)
qed

theorem reconcile_never_panics_witness:
  "\<exists>r s'. Reconcile example_conds (still_controller (Ok [])) example_class still_env = (r, s') \<and>
     (r = Ok (5 * minute) \<or> (\<exists>ke. r = Err (ErrKube ke)))"
  by (rule reconcile_never_panics [OF still_controller_returns]) simp

end
