(* ===== verification/Operator_Correct.thy ===== *)
theory Operator_Correct
  imports Operator Instance_Correct Node_Class_Correct
begin

text \<open>
  What start-up guarantees: a cluster name that can stand in labels and selectors, a request timeout
  within its bounds and read exactly, and providers wired to the same clients.
\<close>

section \<open>Timeouts\<close>

lemma leading_int_digits:
  "0 \<le> n \<Longrightarrow> n \<le> 2 ^ 63 \<Longrightarrow> leading_int 0 (int_digits n @ cs) = leading_int n cs"
proof (induction n arbitrary: cs rule: int_digits.induct)
  case (1 n)
  show ?case
  proof (cases "n < 10")
    case True
    with 1 show ?thesis by (simp add: int_digits.simps [of n] digit_char_is_digit digit_char_val)
  next
    case False
    have lt: "0 \<le> n div 10" "n div 10 \<le> 2 ^ 63" using False "1.prems" by simp_all
    have "n div 10 * 10 + n mod 10 = n" by simp
    moreover have "n div 10 \<le> 2 ^ 63 div 10" using "1.prems" by (intro zdiv_mono1) simp_all
    ultimately show ?thesis using False "1.IH" [OF _ lt] "1.prems"
      by (simp add: int_digits.simps [of n] digit_char_is_digit digit_char_val)
  qed
qed

lemma is_digit_num_start: "is_digit c \<Longrightarrow> num_start c"
  by (simp add: num_start_def)

lemma letter_s: "\<not> num_start CHR ''s''" "\<not> is_digit CHR ''s''" "\<not> is_space CHR ''s''"
  by (simp_all add: num_start_def is_digit_def is_space_def)

lemma int_digits_hd: "0 \<le> n \<Longrightarrow> is_digit (hd (int_digits n))"
  using int_digits_all_digits [of n] int_digits_ne [of n] by (simp add: hd_in_set)

lemma duration_term_seconds:
  assumes "0 \<le> n" and "n \<le> 9223372036"
  shows "duration_term (int_digits n @ ''s'') = Some (n * second, [])"
proof -
  have "num_start (hd (int_digits n @ ''s''))"
    using int_digits_hd [OF assms(1)] int_digits_ne [of n] by (simp add: is_digit_num_start)
  moreover have "leading_int 0 (int_digits n @ ''s'') = Some (n, ''s'')"
    using leading_int_digits [of n "''s''"] assms letter_s by simp
  ultimately show ?thesis
    using assms int_digits_ne [of n] letter_s
    by (simp add: duration_term_def unit_map_def time_defs)
qed

lemma ParseDuration_seconds:
  assumes "0 \<le> n" and "n \<le> 9223372036"
  shows "ParseDuration (int_digits n @ ''s'') = Some (n * second)"
proof -
  have "sign_rest (int_digits n @ ''s'') = (False, int_digits n @ ''s'')"
    using int_digits_hd [OF assms(1)] int_digits_ne [of n]
    by (cases "int_digits n") (auto simp: sign_rest_def is_digit_def)
  moreover have "int_digits n @ ''s'' \<noteq> ''0''" by (auto simp: append_eq_Cons_conv int_digits_ne)
  moreover have "duration_sum (int_digits n @ ''s'') 0 = Some (n * second)"
    using duration_term_seconds [OF assms] assms
    by (simp add: duration_sum.simps [of "int_digits n @ ''s''"] duration_sum.simps [of "[]"] time_defs)
  ultimately show ?thesis using assms by (simp add: ParseDuration_def time_defs)
qed

lemma TrimSpace_bare:
  assumes "s \<noteq> []" and "\<not> is_space (hd s)" and "\<not> is_space (last s)"
  shows "TrimSpace s = s"
proof -
  have "dropWhile is_space s = s" using assms(1,2) by (cases s) simp_all
  moreover have "dropWhile is_space (rev s) = rev s" using assms(1,3) by (cases s rule: rev_cases) simp_all
  ultimately show ?thesis by (simp add: TrimSpace_def)
qed

lemma is_digit_not_space: "is_digit c \<Longrightarrow> \<not> is_space c"
proof -
  have "int (of_char c) = of_char c" by (rule of_nat_of_char)
  then show "is_digit c \<Longrightarrow> \<not> is_space c" by (auto simp: is_digit_def is_space_def)
qed

text \<open>C37: A timeout written as a whole number of seconds is read exactly, whatever its size: from 1 to 300
  seconds it is the timeout in effect, and 0 or anything longer stops the start-up rather than fall
  back to the default.\<close>

theorem whole_second_timeouts:
  assumes "0 \<le> n" and "n \<le> 9223372036" and "getenv ''HCLOUD_API_TIMEOUT'' = int_digits n @ ''s''"
  shows "ParseDuration (getenv ''HCLOUD_API_TIMEOUT'') = Some (n * second) \<and>
         (if 1 \<le> n \<and> n \<le> 300 then loadAPITimeout getenv = Ok (n * second)
          else \<exists>e. loadAPITimeout getenv = Err e \<and> (\<exists>e'. LoadConfig getenv = Err e'))"
proof -
  have "TrimSpace (int_digits n @ ''s'') = int_digits n @ ''s''"
    using int_digits_hd [OF assms(1)] int_digits_ne [of n] letter_s(3)
    by (intro TrimSpace_bare) (simp_all add: is_digit_not_space)
  then have "loadAPITimeout getenv =
      (if n * second \<le> 0 then Err (ErrText ''HCLOUD_API_TIMEOUT %q must be positive; an unbounded client is what this setting exists to prevent''
                           [AStr (int_digits n @ ''s'')])
       else if maxAPITimeout < n * second then Err (ErrText ''HCLOUD_API_TIMEOUT %q exceeds the %s maximum''
                           [AStr (int_digits n @ ''s''), AStr ''5m0s''])
       else Ok (n * second))"
    using ParseDuration_seconds [OF assms(1,2)] assms(3) by (simp add: loadAPITimeout_def)
  moreover have "n * second \<le> 0 \<longleftrightarrow> n < 1" "maxAPITimeout < n * second \<longleftrightarrow> 300 < n"
    using assms(1) by (auto simp: time_defs maxAPITimeout_def)
  ultimately show ?thesis
    using ParseDuration_seconds [OF assms(1,2)] assms(3) by (simp add: LoadConfig_def Let_def)
qed

theorem whole_second_timeouts_witness:
  "loadAPITimeout (\<lambda>v. int_digits 45 @ ''s'') = Ok (45 * second)"
  using whole_second_timeouts [of 45 "\<lambda>v. int_digits 45 @ ''s''"] by simp

section \<open>Configuration\<close>

lemma loadAPITimeout_ok:
  "loadAPITimeout getenv = Ok t \<longleftrightarrow>
     (let raw = TrimSpace (getenv ''HCLOUD_API_TIMEOUT'') in
      if raw = '''' then t = 30 * second else ParseDuration raw = Some t \<and> 0 < t \<and> t \<le> 5 * minute)"
  by (auto simp: loadAPITimeout_def Let_def defaultAPITimeout_def maxAPITimeout_def split: option.splits)

lemma LoadConfig_ok:
  "LoadConfig getenv = Ok cfg \<longleftrightarrow>
     (let name = TrimSpace (getenv ''CLUSTER_NAME'')
      in clusterNameRE name \<and> cfg_ClusterName cfg = name \<and> loadAPITimeout getenv = Ok (cfg_APITimeout cfg))"
  by (cases cfg) (auto simp: LoadConfig_def Let_def clusterNameRE_def split: outcome.splits)

text \<open>C36: A configuration is accepted exactly when the trimmed cluster name has 1 to 63 characters, all letters,
  digits, dots, underscores or hyphens, and the timeout is unset or a duration above zero and at most
  five minutes; it then holds that name and that duration, or thirty seconds. So every accepted
  timeout is positive and at most five minutes.\<close>

theorem config_accepted_iff:
  "LoadConfig getenv = Ok cfg \<longleftrightarrow>
     (let name = TrimSpace (getenv ''CLUSTER_NAME''); raw = TrimSpace (getenv ''HCLOUD_API_TIMEOUT'')
      in cfg_ClusterName cfg = name \<and> length name \<in> {1..63} \<and> list_all name_char name \<and>
         cfg_APITimeout cfg \<in> {1..5 * minute} \<and>
         (if raw = '''' then cfg_APITimeout cfg = 30 * second else ParseDuration raw = Some (cfg_APITimeout cfg)))"
  unfolding LoadConfig_ok loadAPITimeout_ok Let_def
  by (auto simp: clusterNameRE_def time_defs)

section \<open>Start-up\<close>

lemma main_ok:
  assumes "main newClient core kube recorder getenv = Ok op"
  obtains cfg hc base ctl where "LoadConfig getenv = Ok cfg" "getenv ''HCLOUD_TOKEN'' \<noteq> ''''"
    "hc = newClient (hcloudOptions (getenv ''HCLOUD_TOKEN'') (cfg_APITimeout cfg))"
    "base = NewCloudProvider kube
             (NewProviderWithPlacementGroups (hc_Server hc) (hc_PlacementGroup hc) (cfg_ClusterName cfg) (hc_Action hc))
             (hc_ServerType hc) (hc_Image hc)"
    "ctl = Register recorder
       (NewController kube (hc_Network hc) (hc_Firewall hc) (hc_SSHKey hc) (hc_Image hc))"
    "op = \<lparr>run_cloudProvider = base,
           run_typeProvider = NewTypeProvider,
           run_nodeClassController = ctl,
           run_controllers = map CoreController
             (core_NewControllers core kube (core_Decorate core base kube) base
                (core_NewCluster core kube (core_Decorate core base kube))) @ [NodeClassController ctl]\<rparr>"
  using assms
  by (auto simp: main_def NewHCloudClient_def Let_def split: outcome.splits if_splits)

text \<open>An operator that starts does so with a bounded client and one catalogue: every request has a
  positive timeout of at most five minutes, which also bounds the wait for the response headers; the
  server provider waits for actions and is scoped to a legal cluster name that the servers it labels
  and the servers it lists share; and the cloud provider and the NodeClass controller resolve images
  with the same client and read Secrets with the same one.\<close>

theorem started_operator_is_bounded_and_scoped:
  assumes "main newClient core kube recorder getenv = Ok op"
  shows "\<exists>opts hc. hc = newClient opts \<and> opt_Token opts \<noteq> '''' \<and>
    http_Timeout (opt_HTTPClient opts) \<in> {1..5 * minute} \<and>
    http_ResponseHeaderTimeout (opt_HTTPClient opts) = http_Timeout (opt_HTTPClient opts) \<and>
    (let ip = cp_instanceProvider (run_cloudProvider op); c = ip_clusterName ip
     in clusterNameRE c \<and> ip_waiter ip = Some (hc_Action hc) \<and> ip_pgClient ip = Some (hc_PlacementGroup hc) \<and>
        (list_selector other = list_selector c \<longleftrightarrow> other = c)) \<and>
    ctl_images (run_nodeClassController op) = cp_imageClient (run_cloudProvider op) \<and>
    ctl_kubeClient (run_nodeClassController op) = cp_kubeClient (run_cloudProvider op) \<and>
    tp_cachedTypes (run_typeProvider op) = None \<and>
    last (run_controllers op) = NodeClassController (run_nodeClassController op)"
proof -
  obtain cfg hc base ctl where m: "LoadConfig getenv = Ok cfg" "getenv ''HCLOUD_TOKEN'' \<noteq> ''''"
    "hc = newClient (hcloudOptions (getenv ''HCLOUD_TOKEN'') (cfg_APITimeout cfg))"
    "base = NewCloudProvider kube
             (NewProviderWithPlacementGroups (hc_Server hc) (hc_PlacementGroup hc) (cfg_ClusterName cfg) (hc_Action hc))
             (hc_ServerType hc) (hc_Image hc)"
    "ctl = Register recorder
       (NewController kube (hc_Network hc) (hc_Firewall hc) (hc_SSHKey hc) (hc_Image hc))"
    "op = \<lparr>run_cloudProvider = base,
           run_typeProvider = NewTypeProvider,
           run_nodeClassController = ctl,
           run_controllers = map CoreController
             (core_NewControllers core kube (core_Decorate core base kube) base
                (core_NewCluster core kube (core_Decorate core base kube))) @ [NodeClassController ctl]\<rparr>"
    by (rule main_ok [OF assms])
  have "clusterNameRE (cfg_ClusterName cfg)" "cfg_APITimeout cfg \<in> {1..5 * minute}"
    using m(1) unfolding LoadConfig_ok loadAPITimeout_ok Let_def by (auto simp: time_defs split: if_splits)
  moreover have "list_selector c = list_selector c' \<longleftrightarrow> c = c'" for c c'
    by (simp add: list_selector_def)
  ultimately show ?thesis
    using m(2,3)
    by (intro exI [of _ "hcloudOptions (getenv ''HCLOUD_TOKEN'') (cfg_APITimeout cfg)"] exI [of _ hc])
       (simp add: m(4-6) hcloudOptions_def newHTTPClient_def NewCloudProvider_def NewProviderWithPlacementGroups_def
          NewController_def Register_def NewTypeProvider_def Let_def)
qed

text \<open>The pattern is looser than the rule of the labels the name is used in, which must begin and end with a
  letter or a digit: a name of a hyphen alone, or of dots, is accepted.\<close>

lemma edge_names_accepted: "clusterNameRE ''-''" "clusterNameRE ''..''"
  by code_simp+

end
