(* ===== verification/Type_Cache_Correct.thy ===== *)
theory Type_Cache_Correct
  imports Type_Cache
begin

text \<open>
  What the instance-type provider promises its callers: which offerings a listing shows, that a warm
  cache needs no API call, that an API failure is served from the last catalogue, and that an error
  reaches the caller only before anything was ever fetched.
\<close>

section \<open>Frame\<close>

lemma te_types_record_metric [simp]: "te_types (record_metric f s) = te_types s"
  by (simp add: record_metric_def)

lemma env_store [simp]:
  "env_world (s\<lparr>te_types := p\<rparr>) = env_world s" "env_metrics (s\<lparr>te_types := p\<rparr>) = env_metrics s"
  by simp_all

lemma mark_unavailable_sel [simp]:
  "env_world (mark_unavailable clock st loc s) = env_world s"
  "env_metrics (mark_unavailable clock st loc s) = env_metrics s"
  "te_types (mark_unavailable clock st loc s) = MarkUnavailable (clock (env_world s)) st loc (te_types s)"
  by (simp_all add: mark_unavailable_def)

lemma tp_unavailable_store [simp]: "tp_unavailable (store now types p) = tp_unavailable p"
  by (simp add: store_def)

lemma tp_cached_store [simp]: "tp_cachedTypes (store now types p) = Some types"
  by (simp add: store_def)

lemma freshCache_Some_iff:
  "freshCache now p = Some types \<longleftrightarrow> tp_cachedTypes p = Some types \<and> now < tp_cacheExpiry p"
  by (auto simp: freshCache_def split: option.splits)

lemma freshCache_None_iff:
  "freshCache now p = None \<longleftrightarrow> (tp_cachedTypes p = None \<or> tp_cacheExpiry p \<le> now)"
  by (auto simp: freshCache_def split: option.splits)

lemma staleCache_Some_iff:
  "staleCache now p = Some (types, age) \<longleftrightarrow> tp_cachedTypes p = Some types \<and> age = now - tp_cachedAt p"
  by (auto simp: staleCache_def split: option.splits)

lemma staleCache_None_iff: "staleCache now p = None \<longleftrightarrow> tp_cachedTypes p = None"
  by (auto simp: staleCache_def split: option.splits)

lemmas cache_iffs =
  freshCache_Some_iff freshCache_None_iff staleCache_Some_iff staleCache_None_iff

section \<open>The ways a listing can go\<close>

lemma List_types_hit:
  "freshCache (clock (env_world s)) (te_types s) = Some types \<Longrightarrow>
     List_types kc clock client locs s =
       (Ok (offered kc clock locs types s), record_metric RecordCacheHit s)"
  by (simp add: List_types_def List_hit_def offered_def)

lemma List_types_miss:
  "freshCache (clock (env_world s)) (te_types s) = None \<Longrightarrow>
     List_types kc clock client locs s = List_refresh kc clock client locs s"
  by (simp add: List_types_def List_locked_def)

lemma List_refresh_ok:
  "client (env_world s) = (Ok sts, w) \<Longrightarrow>
     List_refresh kc clock client locs s =
       (let s' = (record_metric RecordCacheMiss s)
                   \<lparr>env_world := w, te_types := store (clock w) (map toInstanceType sts) (te_types s)\<rparr>
        in (Ok (offered kc clock locs (map toInstanceType sts) s'), s'))"
  by (simp add: List_refresh_def on_world_def Let_def record_metric_def)

lemma List_refresh_err:
  "client (env_world s) = (Err e, w) \<Longrightarrow>
     List_refresh kc clock client locs s =
       (let s1 = (record_metric RecordCacheMiss s)\<lparr>env_world := w\<rparr> in
        case tp_cachedTypes (te_types s) of
          None \<Rightarrow> (Err (ErrSdk e), s1)
        | Some types \<Rightarrow> (Ok (offered kc clock locs types s1), record_metric RecordCacheStale s1))"
  by (simp add: List_refresh_def on_world_def Let_def record_metric_def staleCache_def offered_def
      split: option.splits)

lemma List_refresh_panic:
  "client (env_world s) = (Panic, w) \<Longrightarrow>
     List_refresh kc clock client locs s = (Panic, (record_metric RecordCacheMiss s)\<lparr>env_world := w\<rparr>)"
  by (simp add: List_refresh_def on_world_def Let_def record_metric_def)

lemma list_cases:
  obtains (hit) types where "freshCache (clock (env_world s)) (te_types s) = Some types"
      "List_types kc clock client locs s =
         (Ok (offered kc clock locs types s), record_metric RecordCacheHit s)"
  | (refreshed) sts w where "freshCache (clock (env_world s)) (te_types s) = None"
      "client (env_world s) = (Ok sts, w)"
      "List_types kc clock client locs s =
         (let s' = (record_metric RecordCacheMiss s)
                     \<lparr>env_world := w, te_types := store (clock w) (map toInstanceType sts) (te_types s)\<rparr>
          in (Ok (offered kc clock locs (map toInstanceType sts) s'), s'))"
  | (stale) e w types where "freshCache (clock (env_world s)) (te_types s) = None"
      "client (env_world s) = (Err e, w)" "tp_cachedTypes (te_types s) = Some types"
      "List_types kc clock client locs s =
         (let s1 = (record_metric RecordCacheMiss s)\<lparr>env_world := w\<rparr>
          in (Ok (offered kc clock locs types s1), record_metric RecordCacheStale s1))"
  | (cold) e w where "freshCache (clock (env_world s)) (te_types s) = None"
      "client (env_world s) = (Err e, w)" "tp_cachedTypes (te_types s) = None"
      "List_types kc clock client locs s =
         (Err (ErrSdk e), (record_metric RecordCacheMiss s)\<lparr>env_world := w\<rparr>)"
  | (panicked) w where "freshCache (clock (env_world s)) (te_types s) = None"
      "client (env_world s) = (Panic, w)"
      "List_types kc clock client locs s = (Panic, (record_metric RecordCacheMiss s)\<lparr>env_world := w\<rparr>)"
proof (cases "freshCache (clock (env_world s)) (te_types s)")
  case (Some types)
  with List_types_hit [of clock s types] show thesis by (intro hit) simp_all
next
  case None
  with List_types_miss [of clock s kc client locs]
  have miss: "List_types kc clock client locs s = List_refresh kc clock client locs s" by simp
  obtain r w where rw: "client (env_world s) = (r, w)" by (cases "client (env_world s)")
  show thesis
  proof (cases r)
    case (Ok sts)
    with rw show thesis using None by (intro refreshed) (auto simp: miss List_refresh_ok)
  next
    case (Err e)
    show thesis
    proof (cases "tp_cachedTypes (te_types s)")
      case None
      with rw Err show thesis using \<open>freshCache _ _ = None\<close> by (intro cold) (auto simp: miss List_refresh_err)
    next
      case (Some types)
      with rw Err show thesis using \<open>freshCache _ _ = None\<close>
        by (intro stale) (auto simp: miss List_refresh_err)
    qed
  next
    case Panic
    with rw show thesis using None by (intro panicked) (auto simp: miss List_refresh_panic)
  qed
qed

section \<open>Properties\<close>

text \<open>A listing against a warm cache reaches the caller without any hcloud call: the world, the
  cache and its marks are left as they are, one hit is counted and nothing else, and the answer
  does not depend on the client at all.\<close>

theorem warm_list_needs_no_api:
  assumes "tp_cachedTypes (te_types s) = Some types" and "clock (env_world s) < tp_cacheExpiry (te_types s)"
  shows "List_types kc clock client locs s =
           (Ok (offered kc clock locs types s), record_metric RecordCacheHit s) \<and>
         List_types kc clock client' locs s = List_types kc clock client locs s"
  using assms by (simp add: List_types_hit freshCache_Some_iff)

text \<open>A listing fails only when no catalogue was ever fetched and the API call fails, and the
  error it returns is the API's own; once a catalogue is cached, however old, no API failure makes
  a listing fail.\<close>

theorem list_fails_only_cold:
  "(\<exists>s'. List_types kc clock client locs s = (Err e, s')) \<longleftrightarrow>
     tp_cachedTypes (te_types s) = None \<and>
     (\<exists>e0 w. client (env_world s) = (Err e0, w) \<and> e = ErrSdk e0)"
  by (cases rule: list_cases [of clock s kc client locs]) (auto simp: Let_def cache_iffs)

text \<open>A catalogue, two clients and a state for the witnesses.\<close>

definition example_catalogue :: "instance_type list" where
  "example_catalogue = map toInstanceType [example_type]"

type_synonym toy_world = "go_time \<times> (sdk_error, server_type list) outcome"

definition toy_clock :: "toy_world \<Rightarrow> go_time" where "toy_clock w = fst w"

text \<open>A call takes a second and answers what the world holds.\<close>

definition toy_types_client :: "toy_world server_type_client" where
  "toy_types_client w = (snd w, (fst w + second, snd w))"

definition toy_tenv :: "go_time \<Rightarrow> (sdk_error, server_type list) outcome \<Rightarrow> type_provider \<Rightarrow> toy_world tenv" where
  "toy_tenv now answer p =
     \<lparr>env_world = (now, answer), env_metrics = initial_metrics, te_types = p\<rparr>"

definition toy_down :: "(sdk_error, server_type list) outcome" where
  "toy_down = Err (SdkError None ''503'')"

text \<open>C27: When the refresh of an expired cache fails, the last catalogue is served, with availability
  as of the moment after the call; neither the catalogue nor its expiry changes, so every later
  listing tries the API again, and one miss and one stale answer are counted.\<close>

theorem expired_list_serves_last_catalogue:
  assumes "tp_cachedTypes (te_types s) = Some types" and "tp_cacheExpiry (te_types s) \<le> clock (env_world s)"
    and "client (env_world s) = (Err e, w)"
  shows "\<exists>s'. List_types kc clock client locs s = (Ok (offered kc clock locs types s'), s') \<and>
      env_world s' = w \<and> te_types s' = te_types s \<and>
      env_metrics s' = RecordCacheStale (RecordCacheMiss (env_metrics s)) \<and>
      (tp_cacheExpiry (te_types s) \<le> now \<longrightarrow> freshCache now (te_types s') = None)"
  using assms
  by (cases rule: list_cases [of clock s kc client locs])
     (auto simp: Let_def cache_iffs offered_def record_metric_def)

theorem expired_list_serves_last_catalogue_witness:
  "\<exists>s'. List_types example_core toy_clock toy_types_client [''nbg1'']
      (toy_tenv (7 * hour) toy_down (store 5 example_catalogue NewTypeProvider)) =
        (Ok (offered example_core toy_clock [''nbg1''] example_catalogue s'), s')"
  using expired_list_serves_last_catalogue
      [of "toy_tenv (7 * hour) toy_down (store 5 example_catalogue NewTypeProvider)"
      example_catalogue toy_clock toy_types_client "SdkError None ''503''" "(7 * hour + second, toy_down)"
      example_core "[''nbg1'']" 0]
  by (auto simp: toy_tenv_def toy_clock_def store_def cacheTTL_def time_defs toy_types_client_def toy_down_def)

text \<open>C26: A refresh that succeeds answers with the catalogue hcloud returned, and that catalogue is
  then served without a further API call until exactly six hours after it was stored, whatever the
  locations, the marks made meanwhile and the state of the API.\<close>

theorem refreshed_list_stays_warm:
  assumes "freshCache (clock (env_world s)) (te_types s) = None"
    and "client (env_world s) = (Ok sts, w)"
    and "List_types kc clock client locs s = (r, s')"
    and "te_types s'' = (te_types s')\<lparr>tp_unavailable := u\<rparr>"
  shows "r = Ok (offered kc clock locs (map toInstanceType sts) s') \<and> env_world s' = w \<and>
    (clock (env_world s'') < clock w + 6 * hour \<longrightarrow>
       List_types kc clock client'' locs'' s'' =
         (Ok (offered kc clock locs'' (map toInstanceType sts) s''), record_metric RecordCacheHit s'')) \<and>
    (clock w + 6 * hour \<le> clock (env_world s'') \<longrightarrow>
       List_types kc clock client'' locs'' s'' = List_refresh kc clock client'' locs'' s'')"
proof -
  from assms(1-3) have s': "r = Ok (offered kc clock locs (map toInstanceType sts) s')" "env_world s' = w"
      "te_types s' = store (clock w) (map toInstanceType sts) (te_types s)"
    by (auto simp: List_types_miss List_refresh_ok Let_def)
  then have "tp_cachedTypes (te_types s'') = Some (map toInstanceType sts)"
      "tp_cacheExpiry (te_types s'') = clock w + 6 * hour"
    using assms(4) by (simp_all add: store_def cacheTTL_def)
  with s' show ?thesis by (auto simp: freshCache_def List_types_hit List_types_miss)
qed

theorem refreshed_list_stays_warm_witness:
  "fst (List_types example_core toy_clock toy_types_client [''nbg1''] (toy_tenv 5 (Ok [example_type]) NewTypeProvider)) =
     Ok (offered example_core toy_clock [''nbg1''] example_catalogue
          (snd (List_types example_core toy_clock toy_types_client [''nbg1'']
                  (toy_tenv 5 (Ok [example_type]) NewTypeProvider))))"
proof -
  let ?s = "toy_tenv 5 (Ok [example_type]) NewTypeProvider"
  obtain r s' where rs: "List_types example_core toy_clock toy_types_client [''nbg1''] ?s = (r, s')"
    by (cases "List_types example_core toy_clock toy_types_client [''nbg1''] ?s")
  have 1: "freshCache (toy_clock (env_world ?s)) (te_types ?s) = None"
    by (simp add: toy_tenv_def NewTypeProvider_def freshCache_def)
  have 2: "toy_types_client (env_world ?s) = (Ok [example_type], (5 + second, Ok [example_type]))"
    by (simp add: toy_tenv_def toy_types_client_def)
  have 3: "te_types s' = (te_types s')\<lparr>tp_unavailable := tp_unavailable (te_types s')\<rparr>" by simp
  from refreshed_list_stays_warm [OF 1 2 rs 3] rs show ?thesis by (simp add: example_catalogue_def)
qed

section \<open>What a listing shows\<close>

definition offering_seen ::
  "karp_core \<Rightarrow> go_time \<Rightarrow> type_provider \<Rightarrow> string \<Rightarrow> offering \<Rightarrow> offering" where
  "offering_seen kc now p name off =
     off\<lparr>off_Available := off_Available off \<and> \<not> isUnavailable now name (zone_of kc off) (tp_unavailable p)\<rparr>"

lemma zone_of_available [simp]: "zone_of kc (off\<lparr>off_Available := b\<rparr>) = zone_of kc off"
  by (simp add: zone_of_def)

lemma zone_of_seen [simp]: "zone_of kc (offering_seen kc now p name off) = zone_of kc off"
  by (simp add: offering_seen_def)

lemma offered_offerings:
  "(\<exists>it \<in> set (offered kc clock locs types s). it_Name it = n \<and> off \<in> set (it_Offerings it)) \<longleftrightarrow>
     (\<exists>it \<in> set types. it_Name it = n \<and>
        (\<exists>o' \<in> set (it_Offerings it). (locs = [] \<or> zone_of kc o' \<in> set locs) \<and>
           off = offering_seen kc (clock (env_world s)) (te_types s) n o'))"
proof -
  have "(\<exists>it \<in> set (applyAvailability kc now c ts). it_Name it = n \<and> off \<in> set (it_Offerings it)) \<longleftrightarrow>
        (\<exists>o'. (\<exists>it \<in> set ts. it_Name it = n \<and> o' \<in> set (it_Offerings it)) \<and>
           off = available_offering kc now c n o')" for now c ts
    by (auto simp: applyAvailability_def)
  then show ?thesis
    by (auto simp: offered_def filter_by_locations_offerings offering_seen_def available_offering_def)
qed

lemma list_ok_offered:
  assumes "List_types kc clock client locs s = (Ok its, s')"
  shows "\<exists>types. tp_cachedTypes (te_types s') = Some types \<and> its = offered kc clock locs types s' \<and>
           tp_unavailable (te_types s') = tp_unavailable (te_types s)"
  using assms
  by (cases rule: list_cases [of clock s kc client locs])
     (auto simp: Let_def cache_iffs offered_def)

text \<open>C24: What a listing shows is the cached catalogue, no offering more and none less: an offering
  appears under a type exactly when the catalogue has it in a requested location (any, when none is
  requested), and it is shown available exactly when the catalogue has it available and the pair of
  type and location carries no live mark; in every other respect it is the catalogue's offering.\<close>

theorem list_shows_catalogue:
  assumes "List_types kc clock client locs s = (Ok its, s')"
  shows "\<exists>types. tp_cachedTypes (te_types s') = Some types \<and>
    ((\<exists>it \<in> set its. it_Name it = n \<and> off \<in> set (it_Offerings it)) \<longleftrightarrow>
       (\<exists>it \<in> set types. it_Name it = n \<and>
          (\<exists>o' \<in> set (it_Offerings it). (locs = [] \<or> zone_of kc o' \<in> set locs) \<and>
             off = o'\<lparr>off_Available := off_Available o' \<and>
                \<not> isUnavailable (clock (env_world s')) n (zone_of kc o') (tp_unavailable (te_types s))\<rparr>)))"
  using list_ok_offered [OF assms] by (auto simp: offered_offerings offering_seen_def)

theorem list_shows_catalogue_witness:
  "\<exists>its. fst (List_types example_core toy_clock toy_types_client [''nbg1'']
      (toy_tenv 10 toy_down (store 5 example_catalogue NewTypeProvider))) = Ok its \<and>
     (\<exists>it \<in> set its. it_Name it = ''cax11'' \<and>
       (\<exists>off \<in> set (it_Offerings it). zone_of example_core off = ''nbg1'' \<and> off_Available off))"
proof -
  let ?s = "toy_tenv 10 toy_down (store 5 example_catalogue NewTypeProvider)"
  have run: "List_types example_core toy_clock toy_types_client [''nbg1''] ?s =
      (Ok (offered example_core toy_clock [''nbg1''] example_catalogue ?s), record_metric RecordCacheHit ?s)"
    by (rule List_types_hit) (simp add: freshCache_def toy_tenv_def toy_clock_def store_def cacheTTL_def time_defs)
  define off where "off = make_offering ''nbg1'' (hourlyNetPrice (priced ''4.5'' '''' (Some ''nbg1'')))"
  have z: "zone_of example_core off = ''nbg1''"
    unfolding off_def by (rule offering_zone [OF core_spec_parts(1) [OF example_core_spec]])
  have a: "off_Available off" by (simp add: off_def make_offering_def example_prices)
  have m: "\<not> isUnavailable t ''cax11'' l (tp_unavailable (te_types ?s))" for t l
    by (simp add: toy_tenv_def NewTypeProvider_def newUnavailableCache_def isUnavailable_def)
  have "off\<lparr>off_Available := True\<rparr> = off" using a by (cases off) simp
  moreover have "off \<in> set (it_Offerings (toInstanceType example_type))"
    by (simp add: off_def toInstanceType_def Let_def example_type_def priced_def)
  ultimately have "\<exists>it \<in> set example_catalogue. it_Name it = ''cax11'' \<and>
      (\<exists>o' \<in> set (it_Offerings it). ([''nbg1''] = [] \<or> zone_of example_core o' \<in> set [''nbg1'']) \<and>
         off = o'\<lparr>off_Available := off_Available o' \<and>
            \<not> isUnavailable (toy_clock (env_world (record_metric RecordCacheHit ?s))) ''cax11''
               (zone_of example_core o') (tp_unavailable (te_types ?s))\<rparr>)"
    using z a m by (auto simp: example_catalogue_def toInstanceType_def Let_def example_type_def intro!: bexI [of _ off])
  moreover have "tp_cachedTypes (te_types ?s) = Some example_catalogue"
    by (simp add: toy_tenv_def)
  ultimately show ?thesis
    using list_shows_catalogue [OF run, of "''cax11''" off] z a unfolding run by auto
qed

lemma isUnavailable_mark_same [simp]:
  "isUnavailable now st loc (markUnavailable t st loc c) \<longleftrightarrow> now < t + uc_ttl c"
  by (simp add: isUnavailable_def markUnavailable_def)

text \<open>C25: An offering that failed with a capacity error is shown unavailable by every listing that
  ends less than five minutes later, whether the catalogue comes from the cache, from hcloud or from
  an expired copy; its entry stays listed wherever the catalogue has it, so running nodes of that
  type keep their offering.\<close>

theorem failed_offering_hidden_but_listed:
  assumes "te_types s = MarkUnavailable t st loc p" and "uc_ttl (tp_unavailable p) = 5 * minute"
    and "List_types kc clock client locs s = (Ok its, s')"
    and "clock (env_world s') < t + 5 * minute"
  shows "(\<nexists>it off. it \<in> set its \<and> it_Name it = st \<and> off \<in> set (it_Offerings it) \<and>
            zone_of kc off = loc \<and> off_Available off) \<and>
         (\<exists>types. tp_cachedTypes (te_types s') = Some types \<and>
           ((\<exists>it \<in> set its. it_Name it = st \<and> (\<exists>off \<in> set (it_Offerings it). zone_of kc off = loc)) \<longleftrightarrow>
            (locs = [] \<or> loc \<in> set locs) \<and>
            (\<exists>it \<in> set types. it_Name it = st \<and> (\<exists>off \<in> set (it_Offerings it). zone_of kc off = loc))))"
proof -
  obtain types where types: "tp_cachedTypes (te_types s') = Some types"
      "its = offered kc clock locs types s'" "tp_unavailable (te_types s') = tp_unavailable (te_types s)"
    using list_ok_offered [OF assms(3)] by blast
  have gone: "isUnavailable (clock (env_world s')) st loc (tp_unavailable (te_types s'))"
    using assms(1,2,4) types(3) by (simp add: MarkUnavailable_def)
  have char: "(\<exists>it \<in> set its. it_Name it = st \<and> off \<in> set (it_Offerings it)) \<longleftrightarrow>
      (\<exists>it \<in> set types. it_Name it = st \<and>
        (\<exists>o' \<in> set (it_Offerings it). (locs = [] \<or> zone_of kc o' \<in> set locs) \<and>
           off = offering_seen kc (clock (env_world s')) (te_types s') st o'))" for off
    unfolding types(2) by (rule offered_offerings)
  have "\<not> off_Available off"
    if "it \<in> set its" "it_Name it = st" "off \<in> set (it_Offerings it)" "zone_of kc off = loc" for it off
    using char [of off] that gone by (auto simp: offering_seen_def)
  moreover have "(\<exists>it \<in> set its. it_Name it = st \<and> (\<exists>off \<in> set (it_Offerings it). zone_of kc off = loc)) \<longleftrightarrow>
            (locs = [] \<or> loc \<in> set locs) \<and>
            (\<exists>it \<in> set types. it_Name it = st \<and> (\<exists>off \<in> set (it_Offerings it). zone_of kc off = loc))"
    using char by (metis (no_types, lifting) zone_of_seen)
  ultimately show ?thesis using types(1) by blast
qed

theorem failed_offering_hidden_but_listed_witness:
  "\<exists>its s'. List_types example_core toy_clock toy_types_client []
      (mark_unavailable toy_clock ''cax11'' ''nbg1'' (toy_tenv 10 (Ok [example_type]) NewTypeProvider)) = (Ok its, s') \<and>
     (\<nexists>it off. it \<in> set its \<and> it_Name it = ''cax11'' \<and> off \<in> set (it_Offerings it) \<and>
        zone_of example_core off = ''nbg1'' \<and> off_Available off)"
proof -
  let ?s = "mark_unavailable toy_clock ''cax11'' ''nbg1'' (toy_tenv 10 (Ok [example_type]) NewTypeProvider)"
  have te: "te_types ?s = MarkUnavailable 10 ''cax11'' ''nbg1'' NewTypeProvider"
    by (simp add: toy_tenv_def toy_clock_def)
  have ttl: "uc_ttl (tp_unavailable NewTypeProvider) = 5 * minute"
    by (simp add: NewTypeProvider_def newUnavailableCache_def)
  have run: "List_types example_core toy_clock toy_types_client [] ?s =
      List_refresh example_core toy_clock toy_types_client [] ?s"
    by (rule List_types_miss) (simp add: toy_tenv_def freshCache_def MarkUnavailable_def NewTypeProvider_def)
  have "toy_types_client (env_world ?s) = (Ok [example_type], (10 + second, Ok [example_type]))"
    by (simp add: toy_types_client_def toy_tenv_def)
  with List_refresh_ok [of toy_types_client ?s "[example_type]" "(10 + second, Ok [example_type])"
      example_core toy_clock "[]"] run
  obtain its s' where r: "List_types example_core toy_clock toy_types_client [] ?s = (Ok its, s')"
      "env_world s' = (10 + second, Ok [example_type])"
    by (simp add: Let_def)
  have "toy_clock (env_world s') < 10 + 5 * minute" by (simp add: r(2) toy_clock_def time_defs)
  from failed_offering_hidden_but_listed [OF te ttl r(1) this] r(1) show ?thesis by blast
qed

section \<open>The contract of a catalogue\<close>

text \<open>
  What the cloud provider relies on: the offerings of a listing lie in the requested locations, none
  that is shown available carries a mark, and marking takes effect at once. \<open>wf\<close> is the invariant
  the provider keeps of its state.
\<close>

locale catalogue =
  fixes listing :: "string list \<Rightarrow> ('s, err, instance_type list) call"
    and mark :: "string \<Rightarrow> string \<Rightarrow> 's \<Rightarrow> 's"
    and marked :: "'s \<Rightarrow> string \<Rightarrow> string \<Rightarrow> bool"
    and zone :: "offering \<Rightarrow> string"
    and wf :: "'s \<Rightarrow> bool"
  assumes listing_wf: "wf s \<Longrightarrow> listing locs s = (r, s') \<Longrightarrow> wf s'"
    and mark_wf: "wf s \<Longrightarrow> wf (mark st loc s)"
    and listing_zone: "listing locs s = (Ok its, s') \<Longrightarrow> it \<in> set its \<Longrightarrow> off \<in> set (it_Offerings it) \<Longrightarrow>
           locs = [] \<or> zone off \<in> set locs"
    and listing_unmarked: "listing locs s = (Ok its, s') \<Longrightarrow> it \<in> set its \<Longrightarrow> off \<in> set (it_Offerings it) \<Longrightarrow>
           off_Available off \<Longrightarrow> \<not> marked s' (it_Name it) (zone off)"
    and mark_marks: "wf s \<Longrightarrow> marked (mark st loc s) st loc"
begin

text \<open>An available offering can be launched where it says, and is not the one just marked.\<close>

definition launchable :: "string list \<Rightarrow> 's \<Rightarrow> string \<Rightarrow> offering \<Rightarrow> bool" where
  "launchable locs s n off \<longleftrightarrow>
     off_Available off \<and> (locs = [] \<or> zone off \<in> set locs) \<and> \<not> marked s n (zone off)"

lemma available_launchable:
  "listing locs s = (Ok its, s') \<Longrightarrow> it \<in> set its \<Longrightarrow> off \<in> set (it_Offerings it) \<Longrightarrow>
     off_Available off \<longleftrightarrow> launchable locs s' (it_Name it) off"
  using listing_zone listing_unmarked by (auto simp: launchable_def)

lemma marked_not_launchable:
  "wf s \<Longrightarrow> \<not> launchable locs (mark st (zone off) s) st off"
  using mark_marks by (auto simp: launchable_def)

end

definition ttl_wf :: "('w, 'z) tenv_scheme \<Rightarrow> bool" where
  "ttl_wf s \<longleftrightarrow> uc_ttl (tp_unavailable (te_types s)) = 5 * minute"

definition marked_now :: "('w \<Rightarrow> go_time) \<Rightarrow> ('w, 'z) tenv_scheme \<Rightarrow> string \<Rightarrow> string \<Rightarrow> bool" where
  "marked_now clock s st loc \<longleftrightarrow> isUnavailable (clock (env_world s)) st loc (tp_unavailable (te_types s))"

lemma List_types_keeps_marks:
  "List_types kc clock client locs s = (r, s') \<Longrightarrow> tp_unavailable (te_types s') = tp_unavailable (te_types s)"
  by (cases rule: list_cases [of clock s kc client locs]) (auto simp: Let_def)

lemma listed_offering:
  assumes "List_types kc clock client locs s = (Ok its, s')" and "it \<in> set its" and "off \<in> set (it_Offerings it)"
  shows "(locs = [] \<or> zone_of kc off \<in> set locs) \<and>
         (off_Available off \<longrightarrow> \<not> marked_now clock s' (it_Name it) (zone_of kc off))"
proof -
  obtain types where "its = offered kc clock locs types s'" using list_ok_offered [OF assms(1)] by blast
  then have "\<exists>it' \<in> set (offered kc clock locs types s'). it_Name it' = it_Name it \<and> off \<in> set (it_Offerings it')"
    using assms(2,3) by blast
  then show ?thesis unfolding offered_offerings by (auto simp: offering_seen_def marked_now_def)
qed

interpretation type_catalogue: catalogue "List_types kc clock client" "mark_unavailable clock"
    "marked_now clock" "zone_of kc" ttl_wf
  for kc clock client
proof unfold_locales
  fix locs s r s'
  show "ttl_wf s \<Longrightarrow> List_types kc clock client locs s = (r, s') \<Longrightarrow> ttl_wf s'"
    using List_types_keeps_marks [of kc clock client locs s r s'] by (simp add: ttl_wf_def)
next
  fix s st loc
  show "ttl_wf s \<Longrightarrow> ttl_wf (mark_unavailable clock st loc s)"
    by (simp add: ttl_wf_def MarkUnavailable_def markUnavailable_def)
  show "ttl_wf s \<Longrightarrow> marked_now clock (mark_unavailable clock st loc s) st loc"
    by (simp add: marked_now_def ttl_wf_def MarkUnavailable_def time_defs)
next
  fix locs s its s' it off
  assume "List_types kc clock client locs s = (Ok its, s')" "it \<in> set its" "off \<in> set (it_Offerings it)"
  note listed = listed_offering [OF this]
  show "locs = [] \<or> zone_of kc off \<in> set locs" using listed by blast
  show "off_Available off \<Longrightarrow> \<not> marked_now clock s' (it_Name it) (zone_of kc off)" using listed by blast
qed

end
