(* ===== verification/Selection.thy ===== *)
theory Selection
  imports Cloud_Provider Type_Cache_Correct
begin

text \<open>
  The selection loop of \<open>Create\<close>: it is a scan for the best candidate, so the type it picks is the
  cheapest launchable one with ties broken by name, the choice does not depend on the order of the
  catalogue, and when it comes up empty the error names the right cause.
\<close>

section \<open>The order candidates are ranked in\<close>

text \<open>Price first, then name, as a linear order of its own.\<close>

datatype launch_rank = Launch_Rank (rank_price: rat) (rank_name: string)

instantiation launch_rank :: linorder
begin

definition less_eq_launch_rank :: "launch_rank \<Rightarrow> launch_rank \<Rightarrow> bool" where
  "less_eq_launch_rank x y \<longleftrightarrow>
     rank_price x < rank_price y \<or> rank_price x = rank_price y \<and> rank_name x \<le> rank_name y"

definition less_launch_rank :: "launch_rank \<Rightarrow> launch_rank \<Rightarrow> bool" where
  "less_launch_rank x y \<longleftrightarrow>
     rank_price x < rank_price y \<or> rank_price x = rank_price y \<and> rank_name x < rank_name y"

instance
  by standard (auto simp: less_eq_launch_rank_def less_launch_rank_def launch_rank.expand)

end

definition rank_of :: "instance_type \<times> offering \<Rightarrow> launch_rank" where
  "rank_of c = Launch_Rank (off_Price (snd c)) (it_Name (fst c))"

lemma better_candidate_rank: "better_candidate x y \<longleftrightarrow> rank_of x < rank_of y"
  by (simp add: better_candidate_def rank_of_def less_launch_rank_def)

interpretation cheapest: ranked_scan better_candidate rank_of
  by unfold_locales (rule better_candidate_rank)

section \<open>The loop as a scan\<close>

definition eligible :: "karp_core \<Rightarrow> node_class \<Rightarrow> selector_requirement list \<Rightarrow> instance_type \<Rightarrow> bool" where
  "eligible kc nc reqs it \<longleftrightarrow>
     kc_IsCompatible kc reqs (it_Requirements it) \<and> hasResolvedImage nc (hcloudArchFor kc it)"

definition cheapest_offering :: "karp_core \<Rightarrow> selector_requirement list \<Rightarrow> instance_type \<Rightarrow> offering option" where
  "cheapest_offering kc reqs it =
     kc_Cheapest kc (kc_Compatible kc (kc_Available kc (it_Offerings it)) reqs)"

definition candidate ::
  "karp_core \<Rightarrow> node_class \<Rightarrow> selector_requirement list \<Rightarrow> instance_type \<Rightarrow> (instance_type \<times> offering) option" where
  "candidate kc nc reqs it =
     (if eligible kc nc reqs it then map_option (Pair it) (cheapest_offering kc reqs it) else None)"

definition missing_archs ::
  "karp_core \<Rightarrow> node_class \<Rightarrow> selector_requirement list \<Rightarrow> instance_type set \<Rightarrow> string set" where
  "missing_archs kc nc reqs its =
     hcloudArchFor kc ` {it \<in> its. kc_IsCompatible kc reqs (it_Requirements it) \<and>
                                   \<not> hasResolvedImage nc (hcloudArchFor kc it)}"

definition blocked ::
  "karp_core \<Rightarrow> node_class \<Rightarrow> selector_requirement list \<Rightarrow> instance_type set \<Rightarrow> bool" where
  "blocked kc nc reqs its \<longleftrightarrow> (\<exists>it \<in> its. eligible kc nc reqs it \<and> cheapest_offering kc reqs it = None)"

lemma select_foldl:
  "foldl (select_step kc nc reqs) sel its =
     \<lparr>sel_best = scan_best better_candidate (sel_best sel) (List.map_filter (candidate kc nc reqs) its),
      archsMissingImages = archsMissingImages sel \<union> missing_archs kc nc reqs (set its),
      capacityBlocked = (capacityBlocked sel \<or> blocked kc nc reqs (set its))\<rparr>"
proof (induction its arbitrary: sel)
  case Nil
  then show ?case by (simp add: missing_archs_def blocked_def List.map_filter_simps)
next
  case (Cons it its)
  have m: "missing_archs kc nc reqs (insert it (set its)) =
      (if kc_IsCompatible kc reqs (it_Requirements it) \<and> \<not> hasResolvedImage nc (hcloudArchFor kc it)
       then {hcloudArchFor kc it} else {}) \<union> missing_archs kc nc reqs (set its)"
    by (auto simp: missing_archs_def)
  have b: "blocked kc nc reqs (insert it (set its)) \<longleftrightarrow>
      eligible kc nc reqs it \<and> cheapest_offering kc reqs it = None \<or> blocked kc nc reqs (set its)"
    by (auto simp: blocked_def)
  consider (incompatible) "\<not> kc_IsCompatible kc reqs (it_Requirements it)"
    | (imageless) "kc_IsCompatible kc reqs (it_Requirements it)" "\<not> hasResolvedImage nc (hcloudArchFor kc it)"
    | (full) "eligible kc nc reqs it" "cheapest_offering kc reqs it = None"
    | (fits) off where "eligible kc nc reqs it" "cheapest_offering kc reqs it = Some off"
    by (auto simp: eligible_def)
  then show ?case
  proof cases
    case incompatible
    then have "select_step kc nc reqs sel it = sel" "candidate kc nc reqs it = None"
      by (simp_all add: select_step_def candidate_def eligible_def)
    with incompatible show ?thesis by (simp add: Cons.IH m b List.map_filter_simps eligible_def)
  next
    case imageless
    then have "select_step kc nc reqs sel it =
        sel\<lparr>archsMissingImages := insert (hcloudArchFor kc it) (archsMissingImages sel)\<rparr>"
        "candidate kc nc reqs it = None"
      by (simp_all add: select_step_def candidate_def eligible_def)
    with imageless show ?thesis by (simp add: Cons.IH m b List.map_filter_simps eligible_def)
  next
    case full
    then have "select_step kc nc reqs sel it = sel\<lparr>capacityBlocked := True\<rparr>" "candidate kc nc reqs it = None"
      by (simp_all add: select_step_def candidate_def eligible_def cheapest_offering_def)
    with full show ?thesis by (auto simp: Cons.IH m b List.map_filter_simps eligible_def)
  next
    case fits
    then have c: "candidate kc nc reqs it = Some (it, off)" by (simp add: candidate_def)
    have step: "select_step kc nc reqs sel it =
        (case sel_best sel of
           None \<Rightarrow> sel\<lparr>sel_best := Some (it, off)\<rparr>
         | Some best \<Rightarrow> if better_candidate (it, off) best then sel\<lparr>sel_best := Some (it, off)\<rparr> else sel)"
      using fits by (simp add: select_step_def eligible_def cheapest_offering_def split: option.splits)
    show ?thesis
    proof (cases "sel_best sel")
      case None
      with fits c step show ?thesis by (simp add: Cons.IH m b eligible_def List.map_filter_simps)
    next
      case (Some best)
      with fits c step show ?thesis
        by (cases "better_candidate (it, off) best") (simp_all add: Cons.IH m b eligible_def List.map_filter_simps)
    qed
  qed
qed

lemma select_eq:
  "select kc nc reqs its =
     \<lparr>sel_best = scan_best better_candidate None (List.map_filter (candidate kc nc reqs) its),
      archsMissingImages = missing_archs kc nc reqs (set its),
      capacityBlocked = blocked kc nc reqs (set its)\<rparr>"
  by (simp add: select_def select_foldl no_selection_def)

lemma set_candidates: "set (List.map_filter f xs) = {y. \<exists>x \<in> set xs. f x = Some y}"
  by (force simp: List.map_filter_def)

lemma candidate_Some:
  "candidate kc nc reqs it = Some c \<longleftrightarrow>
     eligible kc nc reqs it \<and> fst c = it \<and> cheapest_offering kc reqs it = Some (snd c)"
  by (cases c) (auto simp: candidate_def)

lemma cheapest_offering_Some:
  assumes "core_offerings kc" and "cheapest_offering kc reqs it = Some off"
  shows "off \<in> set (it_Offerings it) \<and> off_Available off \<and> kc_IsCompatible kc reqs (off_Requirements off) \<and>
         (\<forall>off' \<in> set (it_Offerings it). off_Available off' \<and> kc_IsCompatible kc reqs (off_Requirements off') \<longrightarrow>
            off_Price off \<le> off_Price off')"
  using core_Cheapest_Some [OF assms(1) assms(2) [unfolded cheapest_offering_def]] assms(1)
  by (auto simp: core_Available core_Compatible)

lemma cheapest_offering_None:
  assumes "core_offerings kc"
  shows "cheapest_offering kc reqs it = None \<longleftrightarrow>
         (\<forall>off \<in> set (it_Offerings it). \<not> (off_Available off \<and> kc_IsCompatible kc reqs (off_Requirements off)))"
  using assms
  by (auto simp: cheapest_offering_def core_Cheapest_None core_Available core_Compatible filter_empty_conv)

section \<open>Properties of the selection\<close>

text \<open>What it takes to launch a type in an offering.\<close>

definition launch_option ::
  "karp_core \<Rightarrow> node_class \<Rightarrow> selector_requirement list \<Rightarrow> instance_type list \<Rightarrow> instance_type \<Rightarrow> offering \<Rightarrow> bool" where
  "launch_option kc nc reqs its it off \<longleftrightarrow>
     it \<in> set its \<and> off \<in> set (it_Offerings it) \<and> off_Available off \<and>
     kc_IsCompatible kc reqs (it_Requirements it) \<and> kc_IsCompatible kc reqs (off_Requirements off) \<and>
     hasResolvedImage nc (hcloudArchFor kc it)"

lemma selected_launch_option:
  assumes "core_offerings kc" and "sel_best (select kc nc reqs its) = Some (it, off)"
  shows "launch_option kc nc reqs its it off"
proof -
  have "(it, off) \<in> set (List.map_filter (candidate kc nc reqs) its)"
    using assms(2) cheapest.scan_best_is_best by (auto simp: select_eq)
  then show ?thesis
    using cheapest_offering_Some [OF assms(1)]
    by (auto simp: set_candidates candidate_Some launch_option_def eligible_def)
qed

lemma selected_rank_least:
  assumes "core_offerings kc" and "sel_best (select kc nc reqs its) = Some c"
    and "launch_option kc nc reqs its it' off'"
  shows "rank_of c \<le> rank_of (it', off')"
proof -
  from assms(3) have opt: "it' \<in> set its" "eligible kc nc reqs it'" "off' \<in> set (it_Offerings it')"
      "off_Available off'" "kc_IsCompatible kc reqs (off_Requirements off')"
    by (auto simp: launch_option_def eligible_def)
  then obtain off'' where c: "cheapest_offering kc reqs it' = Some off''"
    using cheapest_offering_None [OF assms(1), of reqs it'] by (cases "cheapest_offering kc reqs it'") auto
  then have "(it', off'') \<in> set (List.map_filter (candidate kc nc reqs) its)"
    using opt by (auto simp: set_candidates candidate_Some)
  then have "\<not> better_candidate (it', off'') c"
    using assms(2) cheapest.scan_best_is_best by (auto simp: select_eq)
  then have "rank_of c \<le> rank_of (it', off'')" by (simp add: better_candidate_rank)
  also have "\<dots> \<le> rank_of (it', off')"
    using cheapest_offering_Some [OF assms(1) c] opt by (auto simp: rank_of_def less_eq_launch_rank_def)
  finally show ?thesis .
qed

lemma nothing_selected_iff:
  assumes "core_offerings kc"
  shows "sel_best (select kc nc reqs its) = None \<longleftrightarrow> (\<nexists>it off. launch_option kc nc reqs its it off)"
proof
  assume none: "sel_best (select kc nc reqs its) = None"
  show "\<nexists>it off. launch_option kc nc reqs its it off"
  proof safe
    fix it off
    assume o: "launch_option kc nc reqs its it off"
    then obtain off'' where "cheapest_offering kc reqs it = Some off''"
      using cheapest_offering_None [OF assms, of reqs it]
      by (cases "cheapest_offering kc reqs it") (auto simp: launch_option_def)
    with o have "(it, off'') \<in> set (List.map_filter (candidate kc nc reqs) its)"
      by (auto simp: set_candidates candidate_Some launch_option_def eligible_def)
    with none show False by (auto simp: select_eq cheapest.scan_None_iff)
  qed
next
  assume "\<nexists>it off. launch_option kc nc reqs its it off"
  then show "sel_best (select kc nc reqs its) = None"
    using selected_launch_option [OF assms, of nc reqs its] by (cases "sel_best (select kc nc reqs its)") auto
qed

text \<open>C2: Selection picks a cheapest launch: an available offering of a compatible type with an image,
  compatible itself, such that no other such offering of any type is cheaper, or equally cheap under
  a type name that sorts earlier; and it picks one whenever there is any.\<close>

theorem selection_is_cheapest_launch:
  assumes "core_spec kc"
  shows "case sel_best (select kc nc reqs its) of
           None \<Rightarrow> \<nexists>it off. launch_option kc nc reqs its it off
         | Some (it, off) \<Rightarrow>
             launch_option kc nc reqs its it off \<and>
             (\<forall>it' off'. launch_option kc nc reqs its it' off' \<longrightarrow>
                off_Price off < off_Price off' \<or>
                off_Price off = off_Price off' \<and> it_Name it \<le> it_Name it')"
proof (cases "sel_best (select kc nc reqs its)")
  case None
  with nothing_selected_iff [OF core_spec_parts(2) [OF assms], of nc reqs its]
  have "\<nexists>it off. launch_option kc nc reqs its it off" by blast
  then show ?thesis unfolding None option.case .
next
  case (Some c)
  obtain it off where c: "c = (it, off)" by (cases c)
  have "off_Price off < off_Price off' \<or> off_Price off = off_Price off' \<and> it_Name it \<le> it_Name it'"
    if "launch_option kc nc reqs its it' off'" for it' off'
    using selected_rank_least [OF core_spec_parts(2) [OF assms] Some that]
    by (auto simp: c rank_of_def less_eq_launch_rank_def)
  with selected_launch_option [OF core_spec_parts(2) [OF assms]] Some c show ?thesis by simp
qed

text \<open>C18: The selection is reproducible: two listings of the same types in any order, with or without
  repetitions, give the same type, the same offering and the same verdict on missing images and
  capacity, as long as no two types share a name.\<close>

theorem selection_ignores_order:
  assumes "set its = set its'" and "inj_on it_Name (set its)"
  shows "select kc nc reqs its = select kc nc reqs its'"
proof -
  let ?cs = "\<lambda>its. List.map_filter (candidate kc nc reqs) its"
  have same: "set (?cs its) = set (?cs its')" using assms(1) by (simp add: set_candidates)
  have "scan_best better_candidate None (?cs its) = scan_best better_candidate None (?cs its')"
  proof (cases "scan_best better_candidate None (?cs its)")
    case None
    then have "?cs its = []" by (simp add: cheapest.scan_None_iff)
    then have "?cs its' = []" using same by (metis set_empty)
    with None show ?thesis by (simp add: cheapest.scan_None_iff)
  next
    case (Some c)
    then have "?cs its \<noteq> []" by auto
    then have "?cs its' \<noteq> []" using same by (metis set_empty)
    then obtain c' where c': "scan_best better_candidate None (?cs its') = Some c'"
      using cheapest.scan_None_iff by blast
    have "rank_of c = rank_of c'" by (rule cheapest.scan_best_same_rank [OF same Some c'])
    then have "it_Name (fst c) = it_Name (fst c')" by (simp add: rank_of_def)
    moreover have "c \<in> set (?cs its)" "c' \<in> set (?cs its)"
      using cheapest.scan_best_is_best [OF Some] cheapest.scan_best_is_best [OF c'] same by auto
    ultimately have "fst c = fst c'"
      using assms(2) by (auto simp: set_candidates candidate_Some dest: inj_onD)
    then have "c = c'"
      using \<open>c \<in> set (?cs its)\<close> \<open>c' \<in> set (?cs its)\<close>
      by (auto simp: set_candidates candidate_Some prod_eq_iff)
    with Some c' show ?thesis by simp
  qed
  then show ?thesis using assms(1) by (simp add: select_eq)
qed

text \<open>C19: When nothing can be launched, the error blames the NodeClass exactly when some type meets
  the claim's requirements and every one that does lacks an image; in every other case it is a
  missing capacity. Both make karpenter delete the claim and try another shape.\<close>

theorem empty_selection_blames_right_cause:
  assumes "core_spec kc" and "sel_best (select kc nc reqs its) = None"
  shows "let e = nothing_selected claim nc (select kc nc reqs its);
             compatible = {it \<in> set its. kc_IsCompatible kc reqs (it_Requirements it)}
         in (IsNodeClassNotReadyError e \<longleftrightarrow>
               compatible \<noteq> {} \<and> (\<forall>it \<in> compatible. \<not> hasResolvedImage nc (hcloudArchFor kc it))) \<and>
            (IsInsufficientCapacityError e \<longleftrightarrow> \<not> IsNodeClassNotReadyError e)"
proof -
  have all_blocked: "cheapest_offering kc reqs it = None" if "it \<in> set its" "eligible kc nc reqs it" for it
  proof (rule ccontr)
    assume "cheapest_offering kc reqs it \<noteq> None"
    then obtain off where "cheapest_offering kc reqs it = Some off" by blast
    with that have "(it, off) \<in> set (List.map_filter (candidate kc nc reqs) its)"
      by (auto simp: set_candidates candidate_Some)
    with assms(2) show False by (auto simp: select_eq cheapest.scan_None_iff)
  qed
  have "archsMissingImages (select kc nc reqs its) \<noteq> {} \<longleftrightarrow>
      (\<exists>it \<in> set its. kc_IsCompatible kc reqs (it_Requirements it) \<and> \<not> hasResolvedImage nc (hcloudArchFor kc it))"
    by (auto simp: select_eq missing_archs_def)
  moreover have "capacityBlocked (select kc nc reqs its) \<longleftrightarrow> (\<exists>it \<in> set its. eligible kc nc reqs it)"
    using all_blocked by (auto simp: select_eq blocked_def)
  ultimately show ?thesis
    by (auto simp: nothing_selected_def err_simps Let_def eligible_def)
qed

section \<open>Examples\<close>

definition toy_type :: "string \<Rightarrow> string \<Rightarrow> rat \<Rightarrow> string \<Rightarrow> instance_type" where
  "toy_type name arch price zone =
     \<lparr>it_Name = name,
      it_Requirements = new_requirements [in_req LabelInstanceTypeStable name, in_req LabelArchStable arch],
      it_Offerings = [\<lparr>off_Requirements = new_requirements
         [in_req CapacityTypeLabelKey CapacityTypeOnDemand, in_req LabelTopologyZone zone],
         off_Price = price, off_Available = True\<rparr>],
      it_Capacity = [], it_KubeReserved = []\<rparr>"

definition toy_spec :: node_class_spec where
  "toy_spec =
     \<lparr>spec_Locations = [''nbg1''],
      spec_ImageSelector = \<lparr>sel_Family = ''talos'', sel_Version = '''', sel_Selector = []\<rparr>,
      spec_NetworkID = 7, spec_FirewallIDs = [3], spec_SSHKeyIDs = [], spec_PlacementGroupStrategy = ''spread'',
      spec_Labels = [(''team'', ''a'')], spec_UserData = ''#!'', spec_UserDataSecretRef = None,
      spec_EnablePublicIPv4 = None, spec_EnablePublicIPv6 = None\<rparr>"

text \<open>A NodeClass at generation 2 with an image for one architecture only.\<close>

definition toy_class :: "resolved_image list \<Rightarrow> node_class" where
  "toy_class ris =
     \<lparr>nc_Name = ''default'', nc_Generation = 2, nc_Spec = toy_spec,
      nc_Conditions = [\<lparr>cond_Type = ConditionTypeImagesReady, cond_Status = CondTrue, cond_Reason = '''',
                        cond_Message = MsgNone, cond_ObservedGeneration = 2\<rparr>],
      nc_ResolvedImages = ris\<rparr>"

definition x86_only :: "resolved_image list" where
  "x86_only = [\<lparr>ri_Architecture = ArchitectureX86, ri_ImageID = 42\<rparr>]"

lemma toy_class_images [simp]: "CurrentResolvedImages (toy_class ris) = ris"
  by (simp add: CurrentResolvedImages_def ResolvedImagesGeneration_def toy_class_def)

lemma toy_type_arch [simp]:
  "hcloudArchFor example_core (toy_type name arch price zone) =
     (if arch = ''arm64'' then ArchitectureARM else ArchitectureX86)"
  by (simp add: hcloudArchFor_def example_core_def ex_any_def ex_get_def toy_type_def new_requirements_def
      in_req_def node_label_defs)

lemma toy_type_sel [simp]: "it_Name (toy_type name arch price zone) = name"
  by (simp add: toy_type_def)

lemma toy_compatible [simp]: "kc_IsCompatible example_core [] rs"
  by (simp add: example_core_def ex_compatible_def)

lemma toy_cheapest [simp]:
  "cheapest_offering example_core [] (toy_type name arch price zone) =
     Some (hd (it_Offerings (toy_type name arch price zone)))"
  by (simp add: cheapest_offering_def example_core_def ex_compatible_def toy_type_def)

lemma toy_has_image [simp]:
  "hasResolvedImage (toy_class x86_only) arch \<longleftrightarrow> arch = ArchitectureX86"
  by (auto simp: hasResolvedImage_def x86_only_def)

definition toy_types :: "instance_type list" where
  "toy_types = [toy_type ''cx32'' ''amd64'' 6 ''nbg1'', toy_type ''cax11'' ''arm64'' 3 ''nbg1'',
     toy_type ''cx22'' ''amd64'' 4 ''nbg1'', toy_type ''cpx11'' ''amd64'' 4 ''fsn1'']"

lemma toy_selection:
  "sel_best (select example_core (toy_class x86_only) [] toy_types) =
     Some (toy_type ''cpx11'' ''amd64'' 4 ''fsn1'', hd (it_Offerings (toy_type ''cpx11'' ''amd64'' 4 ''fsn1'')))"
proof -
  have "off_Price (hd (it_Offerings (toy_type n a p z))) = p" for n a p z by (simp add: toy_type_def)
  moreover have "''cpx11'' < ''cx22''" "\<not> ''cx32'' < ''cx22''" by code_simp+
  ultimately show ?thesis
    by (simp add: select_eq toy_types_def List.map_filter_simps candidate_def eligible_def better_candidate_def arch_defs)
qed

theorem selection_is_cheapest_launch_witness:
  "launch_option example_core (toy_class x86_only) [] toy_types (toy_type ''cpx11'' ''amd64'' 4 ''fsn1'')
     (hd (it_Offerings (toy_type ''cpx11'' ''amd64'' 4 ''fsn1'')))"
  using selection_is_cheapest_launch [OF example_core_spec, of "toy_class x86_only" "[]" toy_types]
  by (simp add: toy_selection)

theorem selection_ignores_order_witness:
  "select example_core (toy_class x86_only) [] toy_types = select example_core (toy_class x86_only) [] (rev toy_types)"
  by (rule selection_ignores_order) (auto simp: toy_types_def)

theorem empty_selection_blames_right_cause_witness:
  "IsNodeClassNotReadyError (nothing_selected empty_node_claim (toy_class x86_only)
     (select example_core (toy_class x86_only) [] [toy_type ''cax11'' ''arm64'' 3 ''nbg1'']))"
proof -
  have "sel_best (select example_core (toy_class x86_only) [] [toy_type ''cax11'' ''arm64'' 3 ''nbg1'']) = None"
    by (simp add: select_eq List.map_filter_simps candidate_def eligible_def arch_defs)
  from empty_selection_blames_right_cause [OF example_core_spec this, of empty_node_claim] show ?thesis
    by (simp add: Let_def arch_defs)
qed

end
