(* ===== verification/Launch.thy ===== *)
theory Launch
  imports Selection Instance_Correct
begin

text \<open>
  \<open>Create\<close>, \<open>Get\<close> and \<open>GetInstanceTypes\<close> of the cloud provider as wholes: what a successful launch
  was launched as, which errors karpenter core can see and when, which offerings a failure marks, and
  that the scheduler and the launch agree about architectures without an image.
\<close>

section \<open>Images\<close>

text \<open>The image a launch uses always has the architecture asked for: it is the entry the
  nodeclass controller recorded for that architecture under the current generation when there is
  one, and otherwise an image whose own architecture was compared.\<close>

theorem launch_image_has_architecture:
  assumes "resolveImage cp nc arch s = (Ok img, s')"
  shows "img_Architecture img = arch \<and>
         (case find (\<lambda>ri. ri_Architecture ri = arch) (CurrentResolvedImages nc) of
            Some ri \<Rightarrow> img_ID img = ri_ImageID ri \<and> s' = s
          | None \<Rightarrow> Resolve (cp_imageClient cp) (spec_ImageSelector (nc_Spec nc)) arch s = (Ok img, s'))"
  using assms
  by (auto simp: resolveImage_def status_image_def call_simps split: option.splits if_splits)

lemma resolveImage_from_status:
  assumes "hasResolvedImage nc arch" and "CurrentResolvedImages nc \<noteq> []"
  shows "\<exists>ri \<in> set (CurrentResolvedImages nc). ri_Architecture ri = arch \<and>
           resolveImage cp nc arch s = (Ok (status_image (ri_ImageID ri) arch), s)"
proof -
  from assms obtain ri where "find (\<lambda>ri. ri_Architecture ri = arch) (CurrentResolvedImages nc) = Some ri"
    by (cases "find (\<lambda>ri. ri_Architecture ri = arch) (CurrentResolvedImages nc)")
       (auto simp: hasResolvedImage_def Let_def list_ex_iff find_None_iff)
  moreover from this have "ri \<in> set (CurrentResolvedImages nc)" "ri_Architecture ri = arch"
    by (auto simp: find_Some_iff)
  ultimately show ?thesis by (auto simp: resolveImage_def return_call_def)
qed

text \<open>Gate and launch read one source: once the controller has reported on the current
  specification, an architecture selection lets through is launched from the reported entry without
  any call, so no lookup can fail after a candidate was chosen; and one selection skips has no entry.\<close>

theorem gate_and_launch_agree:
  assumes "CurrentResolvedImages nc \<noteq> []"
  shows "hasResolvedImage nc arch \<longleftrightarrow>
         (\<exists>i. (i \<in> ri_ImageID ` {ri \<in> set (CurrentResolvedImages nc). ri_Architecture ri = arch}) \<and>
            resolveImage cp nc arch s = (Ok (status_image i arch), s))"
  using resolveImage_from_status [OF _ assms, of arch cp s]
  by (auto simp: hasResolvedImage_def Let_def list_ex_iff assms)

text \<open>An image failure is typed for karpenter by what it proves: NodeClassNotReady exactly when the
  catalogue was read and holds no match, the family is not supported, or the match has the wrong
  architecture; an unreadable catalogue stays untyped and is retried, and no image failure is ever
  reported as missing capacity.\<close>

theorem image_failure_typing:
  assumes "resolveImage cp nc arch s = (Err e, s')"
  shows "\<not> IsInsufficientCapacityError e \<and>
         (IsNodeClassNotReadyError e \<longleftrightarrow>
            \<not> supported_family (spec_ImageSelector (nc_Spec nc)) \<or>
            (\<exists>images w. cp_imageClient cp (image_query (spec_ImageSelector (nc_Spec nc)) arch) (env_world s) = (Ok images, w) \<and>
               ((\<nexists>img. img \<in> set images \<and> selector_matches (spec_ImageSelector (nc_Spec nc)) img) \<or>
                (\<exists>img. Resolve (cp_imageClient cp) (spec_ImageSelector (nc_Spec nc)) arch s = (Ok img, s') \<and>
                   img_Architecture img \<noteq> arch))))"
proof -
  let ?sel = "spec_ImageSelector (nc_Spec nc)" and ?c = "cp_imageClient cp"
  have none: "find (\<lambda>ri. ri_Architecture ri = arch) (CurrentResolvedImages nc) = None"
    using assms by (auto simp: resolveImage_def return_call_def split: option.splits)
  show ?thesis
  proof (cases rule: Resolve_cases [of ?sel ?c arch s])
    case (unsupported e0)
    with assms none show ?thesis
      by (auto simp: resolveImage_def bind_call_def wrap_call_def err_simps)
  next
    case (found images w img)
    then show ?thesis using assms none pick_image_Some [OF found(4)]
      by (auto simp: resolveImage_def bind_call_def wrap_call_def fail_call_def return_call_def err_simps split: if_splits)
  next
    case (absent images w e0)
    then show ?thesis using assms none
      by (auto simp: resolveImage_def bind_call_def wrap_call_def err_simps pick_image_None)
  next
    case (unreadable e0 w e')
    from unreadable(4) have "\<not> IsPermanent e'" .
    have e: "e = ErrWrap ''resolving image: %w'' [] e'"
      using assms none unreadable by (auto simp: resolveImage_def bind_call_def wrap_call_def)
    have "\<not> IsInsufficientCapacityError e' \<and> \<not> IsNodeClassNotReadyError e'"
      using unreadable(3) Resolve_error_plain by blast
    with e unreadable show ?thesis by (simp add: err_simps)
  next
    case (panicked w)
    with assms none show ?thesis by (auto simp: resolveImage_def bind_call_def wrap_call_def)
  qed
qed

section \<open>Frame\<close>

text \<open>Only a listing and a mark change the instance-type provider.\<close>

lemma te_types_on_world [frame_intros]: "keeps te_types (on_world f)"
  by (auto simp: keeps_def on_world_def split: prod.splits)

lemma keeps_create: "keeps te_types (create p opts)"
  unfolding create_def resolve_placement_group_def getOrCreatePlacementGroup_def wait_for_actions_def Let_def
  by (intro frame_intros)

lemma keeps_Create [frame_intros]: "keeps te_types (Create clock p opts)"
proof (rule keepsI)
  fix s :: "('a, 'b) tenv_scheme" and r s'
  assume C: "Create clock p opts s = (r, s')"
  obtain r1 s1 where c: "create p opts s = (r1, s1)" by (cases "create p opts s")
  from keepsD [OF keeps_create c] C c show "te_types s' = te_types s"
    by (cases r1) (auto simp: Create_def Let_def)
qed

lemma keeps_resolveNodeClass [frame_intros]: "keeps te_types (resolveNodeClass cp ref)"
  unfolding resolveNodeClass_def by (intro frame_intros)

lemma keeps_Resolve [frame_intros]: "keeps te_types (Resolve client sel arch)"
  unfolding Resolve_def resolveUbuntu_def resolveTalos_def Let_def by (intro frame_intros)

lemma keeps_resolveImage [frame_intros]: "keeps te_types (resolveImage cp nc arch)"
  unfolding resolveImage_def by (intro frame_intros)

lemma keeps_resolveUserData [frame_intros]: "keeps te_types (resolveUserData cp nc)"
  unfolding resolveUserData_def by (intro frame_intros)

lemma record_skipped_frame [simp]:
  "te_types (record_skipped archs s) = te_types s" "env_world (record_skipped archs s) = env_world s"
proof -
  have "te_types (foldl (\<lambda>s arch. record_metric (RecordSelectionSkipped arch why) s) s as) = te_types s \<and>
        env_world (foldl (\<lambda>s arch. record_metric (RecordSelectionSkipped arch why) s) s as) = env_world s" for as why
    by (induction as arbitrary: s) simp_all
  then show "te_types (record_skipped archs s) = te_types s" "env_world (record_skipped archs s) = env_world s"
    by (simp_all add: record_skipped_def)
qed

section \<open>The course of a launch\<close>

text \<open>
  The first half of \<open>Create\<close> succeeded: the NodeClass was read, the types were listed and one of
  them was selected; \<open>s1\<close> is the state the second half runs in.
\<close>

definition reaches_launch ::
  "karp_core \<Rightarrow> ('w \<Rightarrow> go_time) \<Rightarrow> 'w cloud_provider \<Rightarrow> node_claim \<Rightarrow> ('w, 'z) tenv_scheme \<Rightarrow>
     node_class \<Rightarrow> instance_type list \<Rightarrow> ('w, 'z) tenv_scheme \<Rightarrow> instance_type \<Rightarrow> offering \<Rightarrow> bool" where
  "reaches_launch kc clock cp claim s nc its s1 selected off \<longleftrightarrow>
     (\<exists>s0. resolveNodeClass cp (ncl_NodeClassRef claim) s = (Ok nc, s0) \<and>
        List_types kc clock (cp_typeClient cp) (spec_Locations (nc_Spec nc)) s0 = (Ok its, s1) \<and>
        sel_best (select kc nc (ncl_Requirements claim) its) = Some (selected, off))"

lemma Create_cases:
  obtains (no_class) e where "CloudProvider_Create kc clock cp claim s = (Err (ErrWrap ''resolving node class: %w'' [] e), snd (resolveNodeClass cp (ncl_NodeClassRef claim) s))"
      "resolveNodeClass cp (ncl_NodeClassRef claim) s = (Err e, snd (resolveNodeClass cp (ncl_NodeClassRef claim) s))"
  | (no_list) nc s0 e s1 where "resolveNodeClass cp (ncl_NodeClassRef claim) s = (Ok nc, s0)"
      "List_types kc clock (cp_typeClient cp) (spec_Locations (nc_Spec nc)) s0 = (Err e, s1)"
      "CloudProvider_Create kc clock cp claim s = (Err (ErrWrap ''listing instance types: %w'' [] e), s1)"
  | (unselected) nc s0 its s1 where "resolveNodeClass cp (ncl_NodeClassRef claim) s = (Ok nc, s0)"
      "List_types kc clock (cp_typeClient cp) (spec_Locations (nc_Spec nc)) s0 = (Ok its, s1)"
      "sel_best (select kc nc (ncl_Requirements claim) its) = None"
      "CloudProvider_Create kc clock cp claim s =
         (Err (nothing_selected claim nc (select kc nc (ncl_Requirements claim) its)),
          record_skipped (archsMissingImages (select kc nc (ncl_Requirements claim) its)) s1)"
  | (selected) nc its s1 selected off where "reaches_launch kc clock cp claim s nc its s1 selected off"
      "CloudProvider_Create kc clock cp claim s =
         launch kc clock cp claim nc selected off
           (record_skipped (archsMissingImages (select kc nc (ncl_Requirements claim) its)) s1)"
  | (panicked) s' where "CloudProvider_Create kc clock cp claim s = (Panic, s')"
proof -
  obtain r0 s0 where c: "resolveNodeClass cp (ncl_NodeClassRef claim) s = (r0, s0)"
    by (cases "resolveNodeClass cp (ncl_NodeClassRef claim) s")
  show thesis
  proof (cases r0)
    case (Ok nc)
    obtain r1 s1 where l: "List_types kc clock (cp_typeClient cp) (spec_Locations (nc_Spec nc)) s0 = (r1, s1)"
      by (cases "List_types kc clock (cp_typeClient cp) (spec_Locations (nc_Spec nc)) s0")
    show thesis
    proof (cases r1)
      case its: (Ok its)
      show thesis
      proof (cases "sel_best (select kc nc (ncl_Requirements claim) its)")
        case None
        with c l Ok its show thesis
          by (intro unselected) (auto simp: CloudProvider_Create_def bind_call_def wrap_call_def Let_def)
      next
        case (Some so)
        with c l Ok its show thesis
          by (intro selected [of nc its s1 "fst so" "snd so"])
             (auto simp: CloudProvider_Create_def bind_call_def wrap_call_def Let_def reaches_launch_def
               split: prod.splits)
      qed
    next
      case (Err e)
      with c l Ok show thesis by (intro no_list) (auto simp: CloudProvider_Create_def bind_call_def wrap_call_def)
    next
      case Panic
      with c l Ok show thesis by (intro panicked) (auto simp: CloudProvider_Create_def bind_call_def wrap_call_def)
    qed
  next
    case (Err e)
    with c show thesis by (intro no_class) (auto simp: CloudProvider_Create_def bind_call_def wrap_call_def)
  next
    case Panic
    with c show thesis by (intro panicked) (auto simp: CloudProvider_Create_def bind_call_def wrap_call_def)
  qed
qed

lemma reached_offering:
  assumes "core_offerings kc" and "reaches_launch kc clock cp claim s nc its s1 selected off"
  shows "launch_option kc nc (ncl_Requirements claim) its selected off \<and>
         type_catalogue.launchable clock kc (spec_Locations (nc_Spec nc)) s1 (it_Name selected) off"
proof -
  from assms(2) obtain s0 where
      l: "List_types kc clock (cp_typeClient cp) (spec_Locations (nc_Spec nc)) s0 = (Ok its, s1)"
      and sel: "sel_best (select kc nc (ncl_Requirements claim) its) = Some (selected, off)"
    by (auto simp: reaches_launch_def)
  have o: "launch_option kc nc (ncl_Requirements claim) its selected off"
    by (rule selected_launch_option [OF assms(1) sel])
  then have "selected \<in> set its" "off \<in> set (it_Offerings selected)" "off_Available off"
    by (simp_all add: launch_option_def)
  with type_catalogue.available_launchable [OF l] o show ?thesis by blast
qed

lemma launch_server_ok_iff:
  "launch_server clock cp opts s = (Ok server, s') \<longleftrightarrow>
     Create clock (cp_instanceProvider cp) opts s = (Ok server, s')"
  by (auto simp: launch_server_def split: prod.splits outcome.splits)

lemma launch_server_err_iff:
  "launch_server clock cp opts s = (Err e, s') \<longleftrightarrow>
     (\<exists>e0 s1. Create clock (cp_instanceProvider cp) opts s = (Err e0, s1) \<and>
        e = ErrWrap ''creating server: %w'' [] e0 \<and>
        s' = (if IsInsufficientCapacityError e0
              then mark_unavailable clock (co_ServerType opts) (co_Location opts) s1 else s1))"
  by (auto simp: launch_server_def split: prod.splits outcome.splits)

lemma launch_ok:
  assumes "launch kc clock cp claim nc selected off s = (Ok c, s')"
  obtains img sa ud sb server where
    "resolveImage cp nc (hcloudArchFor kc selected) s = (Ok img, sa)"
    "resolveUserData cp nc sa = (Ok ud, sb)"
    "Create clock (cp_instanceProvider cp) (launch_opts kc claim nc selected off img ud) sb = (Ok (Some server), s')"
    "hydrate kc claim selected off (Some server) = Ok c"
proof -
  from assms obtain img sa ud sb server where
    "resolveImage cp nc (hcloudArchFor kc selected) s = (Ok img, sa)"
    "resolveUserData cp nc sa = (Ok ud, sb)"
    "Create clock (cp_instanceProvider cp) (launch_opts kc claim nc selected off img ud) sb = (Ok server, s')"
    "hydrate kc claim selected off server = Ok c"
    by (auto simp: launch_def bind_call_ok_iff wrap_call_ok_iff launch_server_ok_iff lift_outcome_apply)
  with that show thesis by (cases server) (auto simp: hydrate_def split: outcome.splits)
qed

definition described :: "karp_core \<Rightarrow> node_claim \<Rightarrow> instance_type \<Rightarrow> server \<Rightarrow> node_claim \<Rightarrow> bool" where
  "described kc claim selected server c \<longleftrightarrow>
     ncl_Name c = ncl_Name claim \<and>
     ncl_ProviderID c = FormatProviderID (srv_ID server) \<and>
     ncl_Capacity c = it_Capacity selected \<and>
     ncl_Allocatable c = kc_Allocatable kc selected \<and>
     ncl_ImageID c = (case srv_Image server of None \<Rightarrow> ncl_ImageID claim | Some i \<Rightarrow> FormatInt (img_ID i))"

text \<open>C1: A NodeClaim that comes back from \<open>Create\<close> describes a server hcloud really created, of an
  instance type and in a zone selection could choose: the zone is one the NodeClass allows, the
  offering was available and not marked, the image has the type's architecture, and the request sent
  is the one for that type, zone, image and NodeClass; nothing is launched in any other way.\<close>

theorem created_claim_is_selected_launch:
  assumes "core_spec kc" and "CloudProvider_Create kc clock cp claim s = (Ok c, s')"
  shows "\<exists>nc its s1 selected off img ud s2 server.
    reaches_launch kc clock cp claim s nc its s1 selected off \<and>
    launch_option kc nc (ncl_Requirements claim) its selected off \<and>
    (spec_Locations (nc_Spec nc) = [] \<or> zone_of kc off \<in> set (spec_Locations (nc_Spec nc))) \<and>
    \<not> isUnavailable (clock (env_world s1)) (it_Name selected) (zone_of kc off) (tp_unavailable (te_types s1)) \<and>
    img_Architecture img = hcloudArchFor kc selected \<and>
    Create clock (cp_instanceProvider cp) (launch_opts kc claim nc selected off img ud) s2 = (Ok (Some server), s') \<and>
    co_Location (launch_opts kc claim nc selected off img ud) = zone_of kc off \<and>
    described kc claim selected server c"
proof (cases rule: Create_cases [of kc clock cp claim s])
  case (selected nc its s1 it off)
  note parts = core_spec_parts [OF assms(1)]
  obtain img sa ud sb server where l:
    "resolveImage cp nc (hcloudArchFor kc it)
       (record_skipped (archsMissingImages (select kc nc (ncl_Requirements claim) its)) s1) = (Ok img, sa)"
    "Create clock (cp_instanceProvider cp) (launch_opts kc claim nc it off img ud) sb = (Ok (Some server), s')"
    "hydrate kc claim it off (Some server) = Ok c"
    using launch_ok [OF trans [OF selected(2) [symmetric] assms(2)]] by metis
  have "img_Architecture img = hcloudArchFor kc it"
    using l(1) by (auto simp: resolveImage_def status_image_def call_simps split: option.splits if_splits)
  moreover have "co_Location (launch_opts kc claim nc it off img ud) = zone_of kc off"
    by (simp add: launch_opts_def core_Zone [OF parts(1)])
  moreover have "described kc claim it server c"
    using l(3) by (auto simp: hydrate_def described_def split: outcome.splits)
  moreover have "(spec_Locations (nc_Spec nc) = [] \<or> zone_of kc off \<in> set (spec_Locations (nc_Spec nc))) \<and>
    \<not> isUnavailable (clock (env_world s1)) (it_Name it) (zone_of kc off) (tp_unavailable (te_types s1))"
    using reached_offering [OF parts(2) selected(1)]
    by (simp add: type_catalogue.launchable_def marked_now_def)
  ultimately show ?thesis using reached_offering [OF parts(2) selected(1)] selected(1) l(2) by blast
qed (use assms(2) in auto)

section \<open>Capacity failures\<close>

lemma reaches_launch_marks:
  assumes "reaches_launch kc clock cp claim s nc its s1 selected off"
  shows "tp_unavailable (te_types s1) = tp_unavailable (te_types s)"
proof -
  from assms obtain s0 where "resolveNodeClass cp (ncl_NodeClassRef claim) s = (Ok nc, s0)"
      "List_types kc clock (cp_typeClient cp) (spec_Locations (nc_Spec nc)) s0 = (Ok its, s1)"
    by (auto simp: reaches_launch_def)
  then show ?thesis
    using keepsD [OF keeps_resolveNodeClass] List_types_keeps_marks by metis
qed

lemma resolveImage_not_capacity:
  "resolveImage cp nc arch s = (Err e, s') \<Longrightarrow> \<not> IsInsufficientCapacityError e"
  by (auto simp: resolveImage_def call_simps err_simps split: option.splits if_splits dest: Resolve_error_plain)

lemma resolveUserData_not_capacity:
  "resolveUserData cp nc s = (Err e, s') \<Longrightarrow> \<not> IsInsufficientCapacityError e"
  by (auto simp: resolveUserData_def bind_call_def wrap_call_def fail_call_def return_call_def err_simps
      split: option.splits list.splits prod.splits outcome.splits)

lemma launch_err:
  assumes "launch kc clock cp claim nc selected off s = (Err e, s')"
  obtains (early) "\<not> IsInsufficientCapacityError e" "te_types s' = te_types s"
  | (create) opts sb e0 s1 where "co_ServerType opts = it_Name selected" "co_Location opts = kc_Zone kc off"
      "te_types sb = te_types s" "Create clock (cp_instanceProvider cp) opts sb = (Err e0, s1)"
      "te_types s1 = te_types s" "e = ErrWrap ''creating server: %w'' [] e0"
      "s' = (if IsInsufficientCapacityError e0 then mark_unavailable clock (it_Name selected) (kc_Zone kc off) s1 else s1)"
  | (hydrated) "te_types s' = te_types s" "\<exists>server. hydrate kc claim selected off server = Err e"
proof -
  obtain r sa where i: "resolveImage cp nc (hcloudArchFor kc selected) s = (r, sa)"
    by (cases "resolveImage cp nc (hcloudArchFor kc selected) s")
  have sa: "te_types sa = te_types s" by (rule keepsD [OF keeps_resolveImage i])
  show thesis
  proof (cases r)
    case (Err e1)
    with i assms sa show thesis
      by (intro early) (auto simp: launch_def bind_call_def dest: resolveImage_not_capacity)
  next
    case Panic
    with i assms show thesis by (simp add: launch_def bind_call_def)
  next
    case (Ok img)
    obtain r2 sb where u: "resolveUserData cp nc sa = (r2, sb)" by (cases "resolveUserData cp nc sa")
    have sb: "te_types sb = te_types s" using keepsD [OF keeps_resolveUserData u] sa by simp
    show thesis
    proof (cases r2)
      case (Err e1)
      with i u Ok assms sb show thesis
        by (intro early) (auto simp: launch_def bind_call_def wrap_call_def err_simps dest: resolveUserData_not_capacity)
    next
      case Panic
      with i u Ok assms show thesis by (simp add: launch_def bind_call_def wrap_call_def)
    next
      case (Ok ud)
      let ?opts = "launch_opts kc claim nc selected off img ud"
      obtain r3 s1 where c: "Create clock (cp_instanceProvider cp) ?opts sb = (r3, s1)"
        by (cases "Create clock (cp_instanceProvider cp) ?opts sb")
      have s1: "te_types s1 = te_types s" using keepsD [OF keeps_Create c] sb by simp
      have sel: "co_ServerType ?opts = it_Name selected" "co_Location ?opts = kc_Zone kc off"
        by (simp_all add: launch_opts_def)
      show thesis
      proof (cases r3)
        case (Err e0)
        with i u \<open>r = Ok img\<close> Ok assms c sel
        have "e = ErrWrap ''creating server: %w'' [] e0"
          "s' = (if IsInsufficientCapacityError e0 then mark_unavailable clock (it_Name selected) (kc_Zone kc off) s1 else s1)"
          by (auto simp: launch_def bind_call_def wrap_call_def launch_server_def)
        with create [OF sel sb _ s1] c Err show thesis by blast
      next
        case Panic
        with i u \<open>r = Ok img\<close> Ok assms c show thesis
          by (simp add: launch_def bind_call_def wrap_call_def launch_server_def)
      next
        case (Ok server)
        with i u \<open>r = Ok img\<close> \<open>r2 = Ok ud\<close> assms c have "s' = s1" "hydrate kc claim selected off server = Err e"
          by (auto simp: launch_def bind_call_def wrap_call_def launch_server_def lift_outcome_def)
        with s1 hydrated show thesis by blast
      qed
    qed
  qed
qed

lemma type_labels_never_err: "type_labels rs m \<noteq> Err e"
  by (induction rs m rule: type_labels.induct) (auto split: list.splits)

lemma hydrate_never_err: "hydrate kc claim selected off server \<noteq> Err e"
  using type_labels_never_err by (auto simp: hydrate_def split: outcome.splits option.splits)

lemma reaches_launch_det:
  "reaches_launch kc clock cp claim s nc its s1 it off \<Longrightarrow> reaches_launch kc clock cp claim s nc' its' s1' it' off' \<Longrightarrow>
     nc' = nc \<and> its' = its \<and> s1' = s1 \<and> it' = it \<and> off' = off"
  by (auto simp: reaches_launch_def)

lemma failed_launch_marks:
  assumes "core_spec kc" and "CloudProvider_Create kc clock cp claim s = (Err e, s')"
    and "reaches_launch kc clock cp claim s nc its s1 it off"
  shows "tp_unavailable (te_types s') =
    (if IsInsufficientCapacityError e
     then markUnavailable (clock (env_world s')) (it_Name it) (zone_of kc off) (tp_unavailable (te_types s))
     else tp_unavailable (te_types s))"
proof -
  let ?s2 = "record_skipped (archsMissingImages (select kc nc (ncl_Requirements claim) its)) s1"
  have "CloudProvider_Create kc clock cp claim s = launch kc clock cp claim nc it off ?s2"
    using assms(3)
    by (auto simp: CloudProvider_Create_def reaches_launch_def bind_call_def wrap_call_def Let_def)
  with assms(2) have l: "launch kc clock cp claim nc it off ?s2 = (Err e, s')" by simp
  have marks: "tp_unavailable (te_types ?s2) = tp_unavailable (te_types s)"
    using reaches_launch_marks [OF assms(3)] by simp
  have zone: "kc_Zone kc off = zone_of kc off" using core_spec_parts(1) [OF assms(1)] by (rule core_Zone)
  show ?thesis
  proof (rule launch_err [OF l])
    assume "\<not> IsInsufficientCapacityError e" "te_types s' = te_types ?s2"
    with marks show ?thesis by simp
  next
    fix opts sb e0 s3
    assume "te_types s3 = te_types ?s2" "e = ErrWrap ''creating server: %w'' [] e0"
      "s' = (if IsInsufficientCapacityError e0 then mark_unavailable clock (it_Name it) (kc_Zone kc off) s3 else s3)"
    with marks zone show ?thesis by (auto simp: err_simps MarkUnavailable_def)
  next
    assume "\<exists>server. hydrate kc claim it off server = Err e"
    then show ?thesis by (simp add: hydrate_never_err)
  qed
qed

lemma unreached_keeps_marks:
  assumes "CloudProvider_Create kc clock cp claim s = (Err e, s')"
    and "\<nexists>nc its s1 it off. reaches_launch kc clock cp claim s nc its s1 it off"
  shows "tp_unavailable (te_types s') = tp_unavailable (te_types s)"
proof (cases rule: Create_cases [of kc clock cp claim s])
  case (no_class e)
  with assms(1) keepsD [OF keeps_resolveNodeClass no_class(2)] show ?thesis by simp
next
  case (no_list nc s0 e s1)
  with assms(1) keepsD [OF keeps_resolveNodeClass no_list(1)] List_types_keeps_marks [OF no_list(2)]
  show ?thesis by simp
next
  case (unselected nc s0 its s1)
  with assms(1) keepsD [OF keeps_resolveNodeClass unselected(1)] List_types_keeps_marks [OF unselected(2)]
  show ?thesis by auto
qed (use assms in auto)

text \<open>C20: A failed \<open>Create\<close> marks an offering exactly when the failure is a missing capacity reported
  for a launch it attempted, and then exactly the pair of type and zone it attempted, from the moment
  the call returned; every other failure leaves the marks as they were.\<close>

theorem failed_create_marks_attempted_offering:
  assumes "core_spec kc" and "CloudProvider_Create kc clock cp claim s = (Err e, s')"
  shows "(\<exists>nc its s1 it off. reaches_launch kc clock cp claim s nc its s1 it off \<and> IsInsufficientCapacityError e \<and>
            tp_unavailable (te_types s') =
              markUnavailable (clock (env_world s')) (it_Name it) (zone_of kc off) (tp_unavailable (te_types s))) \<or>
         ((\<nexists>nc its s1 it off. reaches_launch kc clock cp claim s nc its s1 it off) \<or> \<not> IsInsufficientCapacityError e) \<and>
            tp_unavailable (te_types s') = tp_unavailable (te_types s)"
  using failed_launch_marks [OF assms] unreached_keeps_marks [OF assms(2)] by metis

text \<open>A launch that failed for capacity is routed around: no launch whose listing ends within five
  minutes of the failure attempts the same pair of type and zone, whatever the NodeClass and the claim
  it is for, as long as no other mark came in between.\<close>

theorem capacity_failure_routes_around:
  assumes "core_spec kc" and "CloudProvider_Create kc clock cp claim s = (Err e, s')"
    and "IsInsufficientCapacityError e" and "reaches_launch kc clock cp claim s nc its s1 it off"
    and "ttl_wf s" and "te_types t = te_types s'"
    and "reaches_launch kc clock cp' claim' t nc' its' t1 it' off'"
    and "clock (env_world t1) < clock (env_world s') + 5 * minute"
  shows "(it_Name it', zone_of kc off') \<noteq> (it_Name it, zone_of kc off)"
proof
  assume same: "(it_Name it', zone_of kc off') = (it_Name it, zone_of kc off)"
  have "tp_unavailable (te_types t1) =
      markUnavailable (clock (env_world s')) (it_Name it) (zone_of kc off) (tp_unavailable (te_types s))"
    using failed_launch_marks [OF assms(1,2,4)] assms(3,6) reaches_launch_marks [OF assms(7)] by simp
  then have "marked_now clock t1 (it_Name it') (zone_of kc off')"
    using same assms(5,8) by (simp add: marked_now_def ttl_wf_def)
  moreover have "\<not> marked_now clock t1 (it_Name it') (zone_of kc off')"
    using reached_offering [OF core_spec_parts(2) [OF assms(1)] assms(7)]
    by (simp add: type_catalogue.launchable_def)
  ultimately show False by contradiction
qed

section \<open>What the scheduler sees\<close>

text \<open>The scheduler and the launch agree on architectures without an image: in the types that
  \<open>GetInstanceTypes\<close> shows for a listing, an offering is available exactly when it is available in the
  listing and its type passes the image gate of \<open>Create\<close>; no type and no offering is dropped, so
  running nodes keep theirs.\<close>

theorem scheduler_sees_image_gate:
  "map it_Name (markImagelessArchesUnavailable kc its nc) = map it_Name its \<and>
   map (\<lambda>it. map off_Requirements (it_Offerings it)) (markImagelessArchesUnavailable kc its nc) =
     map (\<lambda>it. map off_Requirements (it_Offerings it)) its \<and>
   map (\<lambda>it. map off_Available (it_Offerings it)) (markImagelessArchesUnavailable kc its nc) =
     map (\<lambda>it. map (\<lambda>off. off_Available off \<and> hasResolvedImage nc (hcloudArchFor kc it)) (it_Offerings it)) its"
  by (auto simp: markImagelessArchesUnavailable_def)

lemma mark_imageless_arch [simp]:
  "hcloudArchFor kc (it\<lparr>it_Offerings := offs\<rparr>) = hcloudArchFor kc it"
  by (simp add: hcloudArchFor_def)

text \<open>C15: What the scheduler can schedule, \<open>Create\<close> can launch: an available offering compatible with a
  claim exists in the types shown for a NodeClass exactly when selection over the same listing picks
  one, so an imageless architecture never loops through create and delete.\<close>

theorem schedulable_iff_launchable:
  assumes "core_spec kc"
  shows "(\<exists>it \<in> set (markImagelessArchesUnavailable kc its nc). \<exists>off \<in> set (it_Offerings it).
            off_Available off \<and> kc_IsCompatible kc reqs (it_Requirements it) \<and>
            kc_IsCompatible kc reqs (off_Requirements off)) \<longleftrightarrow>
         sel_best (select kc nc reqs its) \<noteq> None"
proof -
  have "(\<exists>it \<in> set (markImagelessArchesUnavailable kc its nc). \<exists>off \<in> set (it_Offerings it).
            off_Available off \<and> kc_IsCompatible kc reqs (it_Requirements it) \<and>
            kc_IsCompatible kc reqs (off_Requirements off)) \<longleftrightarrow>
        (\<exists>it off. launch_option kc nc reqs its it off)"
    by (auto simp: markImagelessArchesUnavailable_def launch_option_def split: if_splits)
  also have "\<dots> \<longleftrightarrow> sel_best (select kc nc reqs its) \<noteq> None"
    using nothing_selected_iff [OF core_spec_parts(2) [OF assms], of nc reqs its] by auto
  finally show ?thesis .
qed

section \<open>A cloud provider to run\<close>

text \<open>
  The witnesses run on a provider with a warm catalogue of the four example types, a NodeClass with
  an image for x86 only, and an hcloud that answers every create with \<open>r\<close>.
\<close>

definition toy_servers :: "(sdk_error, server_create_result) outcome \<Rightarrow> toy_world server_client" where
  "toy_servers r =
     \<lparr>sc_Create = (\<lambda>opts w. (r, (fst w + second, snd w))), sc_DeleteWithResult = (\<lambda>srv w. (Ok (), w)),
      sc_GetByID = (\<lambda>i w. (Ok None, w)), sc_AllWithOpts = (\<lambda>q w. (Ok [], w))\<rparr>"

definition toy_kube :: "node_class \<Rightarrow> toy_world kube_client" where
  "toy_kube nc =
     \<lparr>kube_GetNodeClass = (\<lambda>n w. (Ok nc, w)), kube_GetSecretData = (\<lambda>ns n w. (Err (KubeNotFound ''secret''), w)),
      kube_UpdateStatus = (\<lambda>nc w. (Ok (), w))\<rparr>"

definition toy_provider ::
  "node_class \<Rightarrow> (sdk_error, image list) outcome \<Rightarrow> (sdk_error, server_create_result) outcome \<Rightarrow>
     toy_world cloud_provider" where
  "toy_provider nc imgs r =
     \<lparr>cp_kubeClient = toy_kube nc, cp_instanceProvider = NewProvider (toy_servers r) ''prod'',
      cp_typeClient = toy_types_client, cp_imageClient = (\<lambda>q w. (imgs, w))\<rparr>"

definition toy_claim :: node_claim where
  "toy_claim = empty_node_claim\<lparr>ncl_Name := ''nc-1'', ncl_NodeClassRef := Some ''default''\<rparr>"

definition toy_state :: "toy_world tenv" where
  "toy_state = toy_tenv 10 toy_down (store 5 toy_types NewTypeProvider)"

definition toy_server :: server where
  "toy_server =
     \<lparr>srv_ID = 99, srv_Image = None, srv_ServerType = None, srv_Location = None, srv_PrivateNet = [],
      srv_Firewalls = [], srv_Labels = []\<rparr>"

definition toy_created :: "(sdk_error, server_create_result) outcome" where
  "toy_created = Ok \<lparr>cr_Server = Some toy_server, cr_Action = None, cr_NextActions = []\<rparr>"

definition toy_full :: "(sdk_error, server_create_result) outcome" where
  "toy_full = Err (SdkError (Some \<lparr>he_Code = ErrorCodeResourceUnavailable, he_Message = ''''\<rparr>) '''')"

text \<open>What the provider lists in its location, and what is selected of it.\<close>

definition toy_listed :: "instance_type list" where
  "toy_listed = [toy_type ''cx32'' ''amd64'' 6 ''nbg1'', toy_type ''cax11'' ''arm64'' 3 ''nbg1'',
     toy_type ''cx22'' ''amd64'' 4 ''nbg1'']"

definition toy_pick :: instance_type where "toy_pick = toy_type ''cx22'' ''amd64'' 4 ''nbg1''"

definition toy_off :: offering where "toy_off = hd (it_Offerings toy_pick)"

lemma toy_zone [simp]:
  "zone_of example_core \<lparr>off_Requirements = new_requirements
      [in_req CapacityTypeLabelKey CapacityTypeOnDemand, in_req LabelTopologyZone zone],
    off_Price = p, off_Available = b\<rparr> = zone"
  by (simp add: zone_of_def example_core_def ex_any_def ex_get_def new_requirements_def in_req_def node_label_defs)

lemma toy_off_zone: "zone_of example_core toy_off = ''nbg1''"
  by (simp add: toy_off_def toy_pick_def toy_type_def)

lemma toy_list:
  "List_types example_core toy_clock toy_types_client [''nbg1''] toy_state =
     (Ok toy_listed, record_metric RecordCacheHit toy_state)"
proof -
  have "freshCache (toy_clock (env_world toy_state)) (te_types toy_state) = Some toy_types"
    by (simp add: toy_state_def toy_tenv_def toy_clock_def freshCache_def store_def cacheTTL_def time_defs)
  moreover have "offered example_core toy_clock [''nbg1''] toy_types toy_state = toy_listed"
    by (simp add: offered_def filterByLocations_def filter_type_def applyAvailability_def available_offering_def
        toy_types_def toy_listed_def toy_type_def toy_state_def toy_tenv_def NewTypeProvider_def store_def
        newUnavailableCache_def isUnavailable_def)
  ultimately show ?thesis by (simp add: List_types_hit)
qed

lemma toy_select:
  "select example_core (toy_class x86_only) [] toy_listed =
     \<lparr>sel_best = Some (toy_pick, toy_off), archsMissingImages = {ArchitectureARM}, capacityBlocked = False\<rparr>"
proof -
  have "off_Price (hd (it_Offerings (toy_type n a p z))) = p" for n a p z by (simp add: toy_type_def)
  then show ?thesis
    by (auto simp: select_eq toy_listed_def List.map_filter_simps candidate_def eligible_def better_candidate_def
        arch_defs toy_pick_def toy_off_def missing_archs_def blocked_def
        intro!: image_eqI [where x = "toy_type ''cax11'' ''arm64'' 3 ''nbg1''"])
qed

lemma toy_reaches:
  "reaches_launch example_core toy_clock (toy_provider (toy_class x86_only) imgs r) toy_claim toy_state
     (toy_class x86_only) toy_listed (record_metric RecordCacheHit toy_state) toy_pick toy_off"
proof -
  have "resolveNodeClass (toy_provider (toy_class x86_only) imgs r) (Some ''default'') toy_state =
      (Ok (toy_class x86_only), toy_state)"
    by (simp add: resolveNodeClass_def toy_provider_def toy_kube_def wrap_call_def on_world_def)
  moreover have "spec_Locations (nc_Spec (toy_class x86_only)) = [''nbg1'']" by (simp add: toy_class_def toy_spec_def)
  moreover have "cp_typeClient (toy_provider (toy_class x86_only) imgs r) = toy_types_client"
    by (simp add: toy_provider_def)
  ultimately show ?thesis
    using toy_list by (simp add: reaches_launch_def toy_claim_def empty_node_claim_def toy_select)
qed

lemma toy_runs:
  "CloudProvider_Create example_core toy_clock (toy_provider (toy_class x86_only) imgs r) toy_claim toy_state =
     launch example_core toy_clock (toy_provider (toy_class x86_only) imgs r) toy_claim (toy_class x86_only)
       toy_pick toy_off (record_skipped {ArchitectureARM} (record_metric RecordCacheHit toy_state))"
  using toy_reaches [of imgs r]
  by (auto simp: CloudProvider_Create_def reaches_launch_def bind_call_def wrap_call_def Let_def toy_select
      toy_claim_def empty_node_claim_def)

lemma toy_image [simp]:
  "resolveImage (toy_provider (toy_class x86_only) imgs r) (toy_class x86_only) (hcloudArchFor example_core toy_pick) s =
     (Ok (status_image 42 ArchitectureX86), s)"
  by (simp add: resolveImage_def x86_only_def toy_pick_def return_call_def)

lemma toy_user_data [simp]:
  "resolveUserData cp (toy_class x86_only) s = (Ok ''#!'', s)"
  by (simp add: resolveUserData_def toy_class_def toy_spec_def return_call_def)

lemmas toy_create_defs =
  Create_def create_def resolve_placement_group_def wait_for_actions_def bind_call_def wrap_call_def
  return_call_def on_world_def toy_provider_def toy_servers_def NewProvider_def Let_def

lemma toy_labels: "\<exists>labels. type_labels (it_Requirements toy_pick) [] = Ok labels"
  by (simp add: toy_pick_def toy_type_def new_requirements_def in_req_def)

lemma toy_create_ok:
  "\<exists>c s'. CloudProvider_Create example_core toy_clock (toy_provider (toy_class x86_only) imgs toy_created)
     toy_claim toy_state = (Ok c, s')"
proof -
  obtain labels where labels: "type_labels (it_Requirements toy_pick) [] = Ok labels" using toy_labels by blast
  have "\<exists>s1. Create toy_clock (cp_instanceProvider (toy_provider (toy_class x86_only) imgs toy_created)) opts s =
      (Ok (Some toy_server), s1)" for opts and s :: "toy_world tenv"
    by (simp add: toy_create_defs toy_created_def)
  then obtain s1 where "Create toy_clock (cp_instanceProvider (toy_provider (toy_class x86_only) imgs toy_created))
      (launch_opts example_core toy_claim (toy_class x86_only) toy_pick toy_off (status_image 42 ArchitectureX86) ''#!'')
      (record_skipped {ArchitectureARM} (record_metric RecordCacheHit toy_state)) = (Ok (Some toy_server), s1)"
    by blast
  then show ?thesis
    by (simp add: toy_runs launch_def bind_call_def wrap_call_def launch_server_def lift_outcome_def hydrate_def labels)
qed

lemma toy_create_full:
  "\<exists>e s'. CloudProvider_Create example_core toy_clock (toy_provider (toy_class x86_only) imgs toy_full)
     toy_claim toy_state = (Err e, s') \<and> IsInsufficientCapacityError e \<and> 10 \<le> toy_clock (env_world s')"
proof -
  have "\<exists>e0 s1. Create toy_clock (cp_instanceProvider (toy_provider (toy_class x86_only) imgs toy_full)) opts s =
      (Err e0, s1) \<and> IsInsufficientCapacityError e0 \<and> toy_clock (env_world s) \<le> toy_clock (env_world s1)"
    for opts and s :: "toy_world tenv"
    by (simp add: toy_create_defs toy_full_def hcloud_IsError_def err_simps toy_clock_def time_defs)
  then obtain e0 s1 where "Create toy_clock (cp_instanceProvider (toy_provider (toy_class x86_only) imgs toy_full))
      (launch_opts example_core toy_claim (toy_class x86_only) toy_pick toy_off (status_image 42 ArchitectureX86) ''#!'')
      (record_skipped {ArchitectureARM} (record_metric RecordCacheHit toy_state)) = (Err e0, s1)"
      "IsInsufficientCapacityError e0" "toy_clock (env_world (record_skipped {ArchitectureARM} (record_metric RecordCacheHit toy_state)))
         \<le> toy_clock (env_world s1)" by blast
  moreover have "toy_clock (env_world toy_state) = 10" by (simp add: toy_state_def toy_tenv_def toy_clock_def)
  ultimately show ?thesis
    by (simp add: toy_runs launch_def bind_call_def wrap_call_def launch_server_def err_simps)
qed

section \<open>Witnesses\<close>

theorem created_claim_is_selected_launch_witness:
  "\<exists>c s' server selected.
     CloudProvider_Create example_core toy_clock (toy_provider (toy_class x86_only) (Ok []) toy_created) toy_claim toy_state = (Ok c, s') \<and>
     described example_core toy_claim selected server c"
proof -
  obtain c s' where r: "CloudProvider_Create example_core toy_clock (toy_provider (toy_class x86_only) (Ok []) toy_created)
      toy_claim toy_state = (Ok c, s')" using toy_create_ok by blast
  from created_claim_is_selected_launch [OF example_core_spec r] r show ?thesis by blast
qed

theorem failed_create_marks_attempted_offering_witness:
  "\<exists>e s'. CloudProvider_Create example_core toy_clock (toy_provider (toy_class x86_only) (Ok []) toy_full) toy_claim toy_state = (Err e, s') \<and>
     tp_unavailable (te_types s') =
       markUnavailable (toy_clock (env_world s')) ''cx22'' ''nbg1'' (tp_unavailable (te_types toy_state))"
proof -
  obtain e s' where r: "CloudProvider_Create example_core toy_clock (toy_provider (toy_class x86_only) (Ok []) toy_full)
      toy_claim toy_state = (Err e, s')" "IsInsufficientCapacityError e" using toy_create_full by blast
  have "it_Name toy_pick = ''cx22''" by (simp add: toy_pick_def)
  with failed_create_marks_attempted_offering [OF example_core_spec r(1)] r toy_off_zone toy_reaches [of "Ok []" toy_full]
  show ?thesis by (metis reaches_launch_det)
qed

text \<open>After the failed launch on the type, a claim that needs it finds another: the next one in price.\<close>

theorem schedulable_iff_launchable_witness:
  "\<exists>it \<in> set (markImagelessArchesUnavailable example_core toy_listed (toy_class x86_only)).
     \<exists>off \<in> set (it_Offerings it). off_Available off"
  using schedulable_iff_launchable [OF example_core_spec, of toy_listed "toy_class x86_only" "[]"] toy_select
  by auto

end
