(* ===== verification/Drift.thy ===== *)
theory Drift
  imports Launch
begin

text \<open>
  What becomes of a launched server: the labels of its NodeClaim, reading it back with \<open>Get\<close>, and
  drift detection -- which differences count, that a server created for a NodeClaim has not drifted
  from it, and the two cases where drift detection and creation do not fit together.
\<close>

section \<open>Labels of a created NodeClaim\<close>

definition type_arch :: "server_type \<Rightarrow> string" where
  "type_arch st = (if st_Architecture st = ArchitectureARM then ''arm64'' else ''amd64'')"

text \<open>What the provider knows about a server of a type in a location.\<close>

definition provider_labels :: "server_type \<Rightarrow> string \<Rightarrow> string go_map" where
  "provider_labels st l =
     [(LabelInstanceTypeStable, st_Name st), (LabelArchStable, type_arch st),
      (CapacityTypeLabelKey, CapacityTypeOnDemand), (LabelCPUType, st_CPUType st),
      (LabelServerFamily, serverFamily (st_Name st)), (LabelTopologyZone, l)]"

lemma hydrated_labels:
  assumes "core_reads kc" and "go_map_ok (ncl_Labels claim)"
    and "it_Requirements it = it_Requirements (toInstanceType st)"
    and "off_Requirements off = off_Requirements (make_offering l pr)"
    and "hydrate kc claim it off (Some server) = Ok c"
  shows "map_of (ncl_Labels c) = map_of (provider_labels st l) ++ map_of (ncl_Labels claim)"
proof -
  obtain labels where labels: "type_labels (it_Requirements it) [] = Ok labels"
      "ncl_Labels c = map_put_all (ncl_Labels claim) (offering_labels kc (off_Requirements off) labels)"
    using assms(5) by (auto simp: hydrate_def split: outcome.splits)
  have "labels = map_put LabelServerFamily (serverFamily (st_Name st)) (map_put LabelCPUType (st_CPUType st)
      (map_put CapacityTypeLabelKey CapacityTypeOnDemand (map_put LabelArchStable (type_arch st)
      (map_put LabelInstanceTypeStable (st_Name st) []))))"
    using labels(1) unfolding assms(3)
    by (simp add: toInstanceType_def Let_def new_requirements_def in_req_def type_arch_def)
  moreover have "offering_labels kc (off_Requirements off) labels =
      map_put LabelTopologyZone l (map_put CapacityTypeLabelKey CapacityTypeOnDemand labels)"
    unfolding assms(4) by (simp add: make_offering_def new_requirements_def core_Any_single [OF assms(1)])
  ultimately have "map_of (offering_labels kc (off_Requirements off) labels) = map_of (provider_labels st l)"
    using node_label_keys_distinct by (auto simp: fun_eq_iff provider_labels_def)
  then show ?thesis by (simp add: labels(2) map_of_map_put_all [OF assms(2)])
qed

text \<open>C34: A created NodeClaim carries the labels of the type and offering it was launched as -- name,
  architecture, capacity type, CPU type, family and zone -- together with the labels it already had;
  where both name a key the NodeClaim's own value stays, also for the zone, so the zone label is the
  server's location exactly when the claim brought none or the same.\<close>

theorem created_claim_labels:
  assumes "core_spec kc" and "go_map_ok (ncl_Labels claim)"
    and "it_Requirements it = it_Requirements (toInstanceType st)"
    and "off_Requirements off = off_Requirements (make_offering l pr)"
    and "hydrate kc claim it off (Some server) = Ok c"
  shows "map_of (ncl_Labels c) = map_of (provider_labels st l) ++ map_of (ncl_Labels claim) \<and>
         (map_of (ncl_Labels c) LabelTopologyZone = Some (zone_of kc off) \<longleftrightarrow>
            map_of (ncl_Labels claim) LabelTopologyZone \<in> {None, Some (zone_of kc off)})"
proof -
  note reads = core_spec_parts(1) [OF assms(1)]
  have z: "zone_of kc off = l"
    using offering_zone [OF reads, of l pr] assms(4) by (simp add: zone_of_def)
  show ?thesis
    using hydrated_labels [OF reads assms(2-5)]
    by (auto simp: z provider_labels_def node_label_defs map_add_def split: option.splits)
qed

section \<open>Reading a created server back\<close>

text \<open>C35: What \<open>Create\<close> recorded leads back to the server: \<open>Get\<close> on the provider ID of a created
  NodeClaim asks hcloud for exactly the server that was created, and the claim it returns has the
  same provider ID, the image the claim was created with and the server's own labels.\<close>

theorem get_finds_created_server:
  assumes "hydrate kc claim it off (Some server) = Ok c"
    and "sc_GetByID (ip_client (cp_instanceProvider cp)) (srv_ID server) (env_world s) = (Ok (Some server), w)"
  shows "\<exists>c'. CloudProvider_Get cp (ncl_ProviderID c) s = (Ok c', s\<lparr>env_world := w\<rparr>) \<and>
           ncl_ProviderID c' = ncl_ProviderID c \<and>
           (srv_Image server \<noteq> None \<longrightarrow> ncl_ImageID c' = ncl_ImageID c) \<and>
           (go_map_ok (srv_Labels server) \<longrightarrow> map_of (ncl_Labels c') = map_of (srv_Labels server))"
proof -
  from assms(1) have c: "ncl_ProviderID c = FormatProviderID (srv_ID server)"
      "srv_Image server \<noteq> None \<longrightarrow> ncl_ImageID c = (case srv_Image server of Some i \<Rightarrow> FormatInt (img_ID i))"
    by (auto simp: hydrate_def split: outcome.splits option.splits)
  have "Get (cp_instanceProvider cp) (ncl_ProviderID c) s = (Ok (Some server), s\<lparr>env_world := w\<rparr>)"
    using assms(2)
    by (simp add: Get_def c(1) provider_id.dec_enc bind_call_def wrap_call_def lift_outcome_def on_world_def)
  then have "CloudProvider_Get cp (ncl_ProviderID c) s = (Ok (serverToNodeClaim server), s\<lparr>env_world := w\<rparr>)"
    by (simp add: CloudProvider_Get_def bind_call_def return_call_def)
  then show ?thesis
    using c by (auto simp: serverToNodeClaim_def map_of_map_put_all split: option.splits)
qed

section \<open>Drift\<close>

text \<open>The specification: what a server has to look like for its NodeClass and NodeClaim.\<close>

definition as_specified :: "node_class \<Rightarrow> node_claim \<Rightarrow> server \<Rightarrow> bool" where
  "as_specified nc claim server \<longleftrightarrow>
     (\<forall>i. srv_Image server = Some i \<longrightarrow> ncl_ImageID claim \<in> {'''', FormatInt (img_ID i)}) \<and>
     (0 <s spec_NetworkID (nc_Spec nc) \<longrightarrow> Some (spec_NetworkID (nc_Spec nc)) \<in> set (srv_PrivateNet server)) \<and>
     Some ` set (spec_FirewallIDs (nc_Spec nc)) \<subseteq> set (srv_Firewalls server) \<and>
     (\<forall>st. srv_ServerType server = Some st \<longrightarrow>
        map_of (ncl_Labels claim) LabelInstanceTypeStable \<in> {None, Some '''', Some (st_Name st)}) \<and>
     (\<forall>l. srv_Location server = Some l \<longrightarrow>
        spec_Locations (nc_Spec nc) = [] \<or> l \<in> set (spec_Locations (nc_Spec nc))) \<and>
     (\<forall>(k, v) \<in> set (spec_Labels (nc_Spec nc)). map_of (srv_Labels server) k = Some v)"

lemma set_map_filter_id: "x \<in> set (List.map_filter (\<lambda>y. y) ys) \<longleftrightarrow> Some x \<in> set ys"
  by (force simp: List.map_filter_def)

lemma drift_of_None: "drift_of nc claim server = None \<longleftrightarrow> as_specified nc claim server"
proof -
  have 1: "\<not> image_drifted claim server \<longleftrightarrow>
      (\<forall>i. srv_Image server = Some i \<longrightarrow> ncl_ImageID claim \<in> {'''', FormatInt (img_ID i)})"
    by (auto simp: image_drifted_def split: option.splits)
  have 2: "\<not> network_drifted nc server \<longleftrightarrow>
      (0 <s spec_NetworkID (nc_Spec nc) \<longrightarrow> Some (spec_NetworkID (nc_Spec nc)) \<in> set (srv_PrivateNet server))"
    by (auto simp: network_drifted_def list_ex_iff)
  have 3: "\<not> firewall_drifted nc server \<longleftrightarrow>
      Some ` set (spec_FirewallIDs (nc_Spec nc)) \<subseteq> set (srv_Firewalls server)"
    by (auto simp: firewall_drifted_def list_ex_iff set_map_filter_id)
  have 4: "\<not> server_type_drifted claim server \<longleftrightarrow>
      (\<forall>st. srv_ServerType server = Some st \<longrightarrow>
         map_of (ncl_Labels claim) LabelInstanceTypeStable \<in> {None, Some '''', Some (st_Name st)})"
    by (auto simp: server_type_drifted_def Let_def split: option.splits)
  have 5: "\<not> location_drifted nc server \<longleftrightarrow>
      (\<forall>l. srv_Location server = Some l \<longrightarrow>
         spec_Locations (nc_Spec nc) = [] \<or> l \<in> set (spec_Locations (nc_Spec nc)))"
    by (auto simp: location_drifted_def list_ex_iff split: option.splits)
  have 6: "\<not> labels_drifted nc server \<longleftrightarrow>
      (\<forall>(k, v) \<in> set (spec_Labels (nc_Spec nc)). map_of (srv_Labels server) k = Some v)"
    by (auto simp: labels_drifted_def list_ex_iff)
  have "drift_of nc claim server = None \<longleftrightarrow>
      \<not> image_drifted claim server \<and> \<not> network_drifted nc server \<and> \<not> firewall_drifted nc server \<and>
      \<not> server_type_drifted claim server \<and> \<not> location_drifted nc server \<and> \<not> labels_drifted nc server"
    by (simp add: drift_of_def)
  then show ?thesis unfolding 1 2 3 4 5 6 as_specified_def .
qed

lemma drift_of_nonempty: "drift_of nc claim server = Some r \<Longrightarrow> r \<noteq> ''''"
  by (auto simp: drift_of_def drift_reason_defs split: if_splits)

text \<open>C21: \<open>IsDrifted\<close> reports a reason exactly when the server differs from what its NodeClass and
  NodeClaim specify -- image, network, firewalls, server type, location or labels, extra firewalls,
  networks and labels being allowed -- and counts one drift for every reason it reports and none
  otherwise.\<close>

theorem drift_iff_not_as_specified:
  assumes "resolveNodeClass cp (ncl_NodeClassRef claim) s = (Ok nc, s1)"
    and "Get (cp_instanceProvider cp) (ncl_ProviderID claim) s1 = (Ok (Some server), s2)"
    and "IsDrifted cp claim s = (r, s')"
  shows "(\<exists>reason. r = Ok reason \<and> (reason = '''' \<longleftrightarrow> as_specified nc claim server) \<and>
           driftDetectedTotal (env_metrics s') =
             (if as_specified nc claim server then driftDetectedTotal (env_metrics s2)
              else inc reason (driftDetectedTotal (env_metrics s2)))) \<and>
         env_world s' = env_world s2"
  using assms drift_of_None [of nc claim server] drift_of_nonempty [of nc claim server]
  by (cases "drift_of nc claim server")
     (auto simp: IsDrifted_def bind_call_def wrap_call_def RecordDrift_def)

text \<open>Image drift compares the server with the NodeClaim only: neither a new image selector nor
  newly resolved images in status ever make a server drift, so repinning an image does not replace
  running nodes.\<close>

theorem drift_ignores_image_selection:
  "drift_of (nc\<lparr>nc_Generation := g, nc_Conditions := cs, nc_ResolvedImages := ris,
               nc_Spec := (nc_Spec nc)\<lparr>spec_ImageSelector := sel\<rparr>\<rparr>) claim server = drift_of nc claim server"
  by (cases "srv_Location server")
     (simp_all add: drift_of_def network_drifted_def firewall_drifted_def location_drifted_def labels_drifted_def)

section \<open>A server created for a NodeClaim\<close>

text \<open>A server as hcloud shows it after accepting a create request; fields still missing are nil.\<close>

definition shows_request :: "server_create_opts \<Rightarrow> server \<Rightarrow> bool" where
  "shows_request req server \<longleftrightarrow>
     map_of (srv_Labels server) = map_of (sco_Labels req) \<and>
     srv_Location server \<in> {None, Some (sco_Location req)} \<and>
     (\<forall>st. srv_ServerType server = Some st \<longrightarrow> st_Name st = sco_ServerType req) \<and>
     Some ` set (sco_Networks req) \<subseteq> set (srv_PrivateNet server) \<and>
     Some ` set (sco_Firewalls req) \<subseteq> set (srv_Firewalls server)"

text \<open>A NodeClass label that karpenter's own labels override with another value.\<close>

definition label_collision :: "string \<Rightarrow> create_opts \<Rightarrow> bool" where
  "label_collision cluster opts \<longleftrightarrow>
     (\<exists>(k, v) \<in> set (co_Labels opts). map_of (management_labels cluster opts) k \<noteq> None \<and>
                                      map_of (management_labels cluster opts) k \<noteq> Some v)"

lemma created_labels_cover:
  assumes "go_map_ok (co_Labels opts)"
  shows "(\<forall>(k, v) \<in> set (co_Labels opts). map_of (create_labels cluster opts) k = Some v) \<longleftrightarrow>
         \<not> label_collision cluster opts"
proof -
  have "map_of (create_labels cluster opts) k = Some v \<longleftrightarrow>
      map_of (management_labels cluster opts) k = None \<or> map_of (management_labels cluster opts) k = Some v"
    if "(k, v) \<in> set (co_Labels opts)" for k v
    using that assms by (auto simp: create_labels_lookup [OF assms] map_add_def go_map_in_set_iff split: option.splits)
  then show ?thesis by (auto simp: label_collision_def)
qed

text \<open>An instance-type label of the NodeClaim itself that is not the type launched; it survives the launch,
  because a NodeClaim's own labels are applied last.\<close>

definition type_collision :: "node_claim \<Rightarrow> instance_type \<Rightarrow> bool" where
  "type_collision claim it \<longleftrightarrow>
     (\<exists>v. map_of (ncl_Labels claim) LabelInstanceTypeStable = Some v \<and> v \<noteq> '''' \<and> v \<noteq> it_Name it)"

text \<open>C14: A server created for a NodeClaim in one of the NodeClass's locations has not drifted from it, as
  soon as hcloud shows what was requested, unless a label collides, and there are two such collisions.
  If the NodeClaim came with an instance-type label other than the type launched, server-type drift is
  reported once hcloud shows the type; failing that, a NodeClass label that uses one of karpenter's own
  keys with another value is reported, since the creation overrode it. In every other case no check
  fires, for image, network, firewalls, type, location or labels.\<close>

theorem fresh_launch_drifts_only_by_collision:
  assumes "core_spec kc" and "go_map_ok (ncl_Labels claim)" and "go_map_ok (spec_Labels (nc_Spec nc))"
    and "it_Requirements it = it_Requirements (toInstanceType st)" and "it_Name it = st_Name st"
    and "off_Requirements off = off_Requirements (make_offering l pr)"
    and "spec_Locations (nc_Spec nc) = [] \<or> zone_of kc off \<in> set (spec_Locations (nc_Spec nc))"
    and "opts = launch_opts kc claim nc it off img ud"
    and "shows_request (server_create_opts_for cluster opts pg) server"
    and "hydrate kc claim it off (Some server) = Ok c"
  shows "drift_of nc c server =
    (if type_collision claim it \<and> srv_ServerType server \<noteq> None then Some DriftServerType
     else if label_collision cluster opts then Some DriftLabels else None)"
proof -
  note reads = core_spec_parts(1) [OF assms(1)]
  have zone: "kc_Zone kc off = zone_of kc off" by (rule core_Zone [OF reads])
  have sr: "map_of (srv_Labels server) = map_of (create_labels cluster opts)"
      "srv_Location server \<in> {None, Some (zone_of kc off)}"
      "\<And>st'. srv_ServerType server = Some st' \<Longrightarrow> st_Name st' = it_Name it"
      "0 <s spec_NetworkID (nc_Spec nc) \<Longrightarrow> Some (spec_NetworkID (nc_Spec nc)) \<in> set (srv_PrivateNet server)"
      "Some ` set (spec_FirewallIDs (nc_Spec nc)) \<subseteq> set (srv_Firewalls server)"
    using assms(9) by (auto simp: shows_request_def server_create_opts_for_def assms(8) launch_opts_def zone)
  have "map_of (ncl_Labels c) LabelInstanceTypeStable =
      (case map_of (ncl_Labels claim) LabelInstanceTypeStable of None \<Rightarrow> Some (it_Name it) | Some v \<Rightarrow> Some v)"
    using hydrated_labels [OF reads assms(2,4,6,10)] assms(5)
    by (auto simp: provider_labels_def map_add_def split: option.splits)
  then have "server_type_drifted c server \<longleftrightarrow> type_collision claim it \<and> srv_ServerType server \<noteq> None"
    using sr(3) by (auto simp: server_type_drifted_def type_collision_def Let_def split: option.splits)
  moreover have "\<not> image_drifted c server"
    using assms(10) by (auto simp: hydrate_def image_drifted_def split: outcome.splits option.splits)
  moreover have "\<not> network_drifted nc server"
    using sr(4) by (auto simp: network_drifted_def list_ex_iff)
  moreover have "\<not> firewall_drifted nc server"
    using sr(5) by (auto simp: firewall_drifted_def list_ex_iff set_map_filter_id)
  moreover have "\<not> location_drifted nc server"
    using sr(2) assms(7) by (auto simp: location_drifted_def list_ex_iff split: option.splits)
  moreover have "labels_drifted nc server \<longleftrightarrow> label_collision cluster opts"
    using created_labels_cover [of opts cluster] assms(3)
    by (auto simp: labels_drifted_def list_ex_iff sr(1) assms(8) launch_opts_def)
  ultimately show ?thesis by (auto simp: drift_of_def)
qed

section \<open>Witnesses\<close>

definition arm_type :: instance_type where "arm_type = toInstanceType example_type"

definition arm_offering :: offering where "arm_offering = make_offering ''nbg1'' (F64_Fin 4, True)"

definition arm_opts :: create_opts where
  "arm_opts = launch_opts example_core toy_claim (toy_class []) arm_type arm_offering
     (status_image 42 ArchitectureARM) ''#!''"

definition arm_server :: server where
  "arm_server =
     \<lparr>srv_ID = 7, srv_Image = Some (status_image 42 ArchitectureARM), srv_ServerType = Some example_type,
      srv_Location = Some ''nbg1'', srv_PrivateNet = [Some 7], srv_Firewalls = [None, Some 3],
      srv_Labels = create_labels ''prod'' arm_opts\<rparr>"

lemma arm_zone: "zone_of example_core arm_offering = ''nbg1''"
  unfolding arm_offering_def by (rule offering_zone [OF core_spec_parts(1) [OF example_core_spec]])

lemma arm_hydrates: "\<exists>c. hydrate example_core toy_claim arm_type arm_offering (Some arm_server) = Ok c"
  by (simp add: hydrate_def arm_type_def toInstanceType_def Let_def new_requirements_def in_req_def)

lemma arm_requirements:
  "it_Requirements arm_type = it_Requirements (toInstanceType example_type)"
  "off_Requirements arm_offering = off_Requirements (make_offering ''nbg1'' (F64_Fin 4, True))"
  by (simp_all add: arm_type_def arm_offering_def)

lemma toy_claim_ok: "go_map_ok (ncl_Labels toy_claim)"
  by (simp add: toy_claim_def empty_node_claim_def)

theorem created_claim_labels_witness:
  "\<exists>c. hydrate example_core toy_claim arm_type arm_offering (Some arm_server) = Ok c \<and>
     map_of (ncl_Labels c) LabelTopologyZone = Some ''nbg1''"
proof -
  obtain c where c: "hydrate example_core toy_claim arm_type arm_offering (Some arm_server) = Ok c"
    using arm_hydrates by blast
  have "map_of (ncl_Labels toy_claim) LabelTopologyZone = None" by (simp add: toy_claim_def empty_node_claim_def)
  with created_claim_labels [OF example_core_spec toy_claim_ok arm_requirements c] c show ?thesis
    unfolding arm_zone by (metis insertI1)
qed

theorem get_finds_created_server_witness:
  "\<exists>c c'. hydrate example_core toy_claim arm_type arm_offering (Some arm_server) = Ok c \<and>
     CloudProvider_Get ((toy_provider (toy_class []) (Ok []) toy_created)
        \<lparr>cp_instanceProvider := NewProvider ((toy_servers toy_created)\<lparr>sc_GetByID := (\<lambda>i w. (Ok (Some arm_server), w))\<rparr>) ''prod''\<rparr>)
       (ncl_ProviderID c) toy_state = (Ok c', toy_state) \<and> ncl_ImageID c' = ncl_ImageID c"
proof -
  let ?cp = "(toy_provider (toy_class []) (Ok []) toy_created)
        \<lparr>cp_instanceProvider := NewProvider ((toy_servers toy_created)\<lparr>sc_GetByID := (\<lambda>i w. (Ok (Some arm_server), w))\<rparr>) ''prod''\<rparr>"
  obtain c where c: "hydrate example_core toy_claim arm_type arm_offering (Some arm_server) = Ok c"
    using arm_hydrates by blast
  have "sc_GetByID (ip_client (cp_instanceProvider ?cp)) (srv_ID arm_server) (env_world toy_state) =
      (Ok (Some arm_server), env_world toy_state)"
    by (simp add: NewProvider_def)
  from get_finds_created_server [OF c this] c show ?thesis by (auto simp: arm_server_def)
qed

theorem drift_iff_not_as_specified_witness:
  "\<exists>reason s'. IsDrifted ((toy_provider (toy_class []) (Ok []) toy_created)
        \<lparr>cp_instanceProvider := NewProvider ((toy_servers toy_created)\<lparr>sc_GetByID := (\<lambda>i w. (Ok (Some toy_server), w))\<rparr>) ''prod''\<rparr>)
       (toy_claim\<lparr>ncl_ProviderID := FormatProviderID 99\<rparr>) toy_state = (Ok reason, s') \<and> reason \<noteq> ''''"
proof -
  let ?cp = "(toy_provider (toy_class []) (Ok []) toy_created)
        \<lparr>cp_instanceProvider := NewProvider ((toy_servers toy_created)\<lparr>sc_GetByID := (\<lambda>i w. (Ok (Some toy_server), w))\<rparr>) ''prod''\<rparr>"
  let ?claim = "toy_claim\<lparr>ncl_ProviderID := FormatProviderID 99\<rparr>"
  have 1: "resolveNodeClass ?cp (ncl_NodeClassRef ?claim) toy_state = (Ok (toy_class []), toy_state)"
    by (simp add: resolveNodeClass_def toy_provider_def toy_kube_def toy_claim_def wrap_call_def on_world_def)
  have 2: "Get (cp_instanceProvider ?cp) (ncl_ProviderID ?claim) toy_state = (Ok (Some toy_server), toy_state)"
    by (simp add: Get_def provider_id.dec_enc bind_call_def wrap_call_def lift_outcome_def on_world_def NewProvider_def)
  obtain r s' where r: "IsDrifted ?cp ?claim toy_state = (r, s')" by (cases "IsDrifted ?cp ?claim toy_state")
  have "\<not> as_specified (toy_class []) ?claim toy_server"
    by (simp add: as_specified_def toy_class_def toy_spec_def toy_server_def)
  with drift_iff_not_as_specified [OF 1 2 r] r show ?thesis by auto
qed

theorem fresh_launch_drifts_only_by_collision_witness:
  "\<exists>c. hydrate example_core toy_claim arm_type arm_offering (Some arm_server) = Ok c \<and>
     drift_of (toy_class []) c arm_server = None"
proof -
  obtain c where c: "hydrate example_core toy_claim arm_type arm_offering (Some arm_server) = Ok c"
    using arm_hydrates by blast
  have ok: "go_map_ok (spec_Labels (nc_Spec (toy_class [])))" by (simp add: toy_class_def toy_spec_def)
  have n: "it_Name arm_type = st_Name example_type" by (simp add: arm_type_def toInstanceType_def Let_def)
  have i: "\<not> type_collision toy_claim arm_type"
    by (simp add: type_collision_def toy_claim_def empty_node_claim_def)
  have l: "spec_Locations (nc_Spec (toy_class [])) = [] \<or>
      zone_of example_core arm_offering \<in> set (spec_Locations (nc_Spec (toy_class [])))"
    by (simp add: arm_zone toy_class_def toy_spec_def)
  have "kc_Zone example_core arm_offering = ''nbg1''"
    using core_Zone [OF core_spec_parts(1) [OF example_core_spec]] arm_zone by simp
  then have sh: "shows_request (server_create_opts_for ''prod'' arm_opts None) arm_server"
    by (simp add: shows_request_def server_create_opts_for_def arm_server_def)
       (auto simp: arm_opts_def launch_opts_def toy_class_def toy_spec_def n)
  have "\<not> label_collision ''prod'' arm_opts"
    by (simp add: label_collision_def arm_opts_def launch_opts_def toy_class_def toy_spec_def management_labels_def
        server_label_defs toy_claim_def empty_node_claim_def)
  with fresh_launch_drifts_only_by_collision
      [OF example_core_spec toy_claim_ok ok arm_requirements(1) n arm_requirements(2) l arm_opts_def sh c] c i
  show ?thesis by auto
qed

end
