(* ===== verification/Node_Class_Machine.thy ===== *)
theory Node_Class_Machine
  imports Node_Class_Correct
begin

text \<open>
  The NodeClass object over time: users change its specification whenever they like, the world the
  APIs answer from moves, and reconciles run in three steps (validate and snapshot, resolve images,
  write the status) that anything may come between; a reconcile may also be lost. What must hold
  however these interleave is that status never offers an image for a selector it was not resolved
  under. The generation is the API server's: a change of the specification increments it.
\<close>

section \<open>Steps\<close>

datatype nc_phase = Idle | Validated node_class node_class | Resolved node_class node_class

text \<open>
  \<open>ms_answers\<close> remembers which image the catalogue named for which selector and architecture; the
  code keeps no such thing. A phase holds the object as read and as changed so far.
\<close>

record 'w nc_machine =
  ms_object :: node_class
  ms_phase :: nc_phase
  ms_env :: "'w env"
  ms_answers :: "(image_selector \<times> string \<times> int64) set"

definition answer_of :: "image_selector \<Rightarrow> string \<Rightarrow> (err, image) outcome \<Rightarrow> (image_selector \<times> string \<times> int64) set" where
  "answer_of sel arch r =
     (case r of Ok img \<Rightarrow> if img_Architecture img = arch then {(sel, arch, img_ID img)} else {}
      | Err e \<Rightarrow> {} | Panic \<Rightarrow> {})"

text \<open>The answers of the two lookups of \<open>resolveImages\<close>, in the state it starts from.\<close>

definition answers_in :: "'w controller \<Rightarrow> node_class \<Rightarrow> 'w env \<Rightarrow> (image_selector \<times> string \<times> int64) set" where
  "answers_in c nc s =
     (let sel = spec_ImageSelector (nc_Spec nc);
          (x, s1) = Resolve (ctl_images c) sel ArchitectureX86 s;
          (a, s2) = Resolve (ctl_images c) sel ArchitectureARM s1
      in answer_of sel ArchitectureX86 x \<union> answer_of sel ArchitectureARM a)"

text \<open>A status write replaces the status of the stored object and nothing else.\<close>

definition with_status :: "node_class \<Rightarrow> node_class \<Rightarrow> node_class" where
  "with_status obj nc = obj\<lparr>nc_Conditions := nc_Conditions nc, nc_ResolvedImages := nc_ResolvedImages nc\<rparr>"

inductive nc_step :: "cond_set \<Rightarrow> 'w controller \<Rightarrow> 'w nc_machine \<Rightarrow> 'w nc_machine \<Rightarrow> bool" for cs c where
  edit: "nc_Generation (ms_object m) \<noteq> - 1 \<Longrightarrow>
     nc_step cs c m (m\<lparr>ms_object := (ms_object m)\<lparr>nc_Spec := spec, nc_Generation := nc_Generation (ms_object m) + 1\<rparr>\<rparr>)"
| move: "nc_step cs c m (m\<lparr>ms_env := (ms_env m)\<lparr>env_world := w\<rparr>\<rparr>)"
| start: "ms_phase m = Idle \<Longrightarrow> validate_pass cs c (ms_object m) (ms_env m) = (Ok nc, s) \<Longrightarrow>
     nc_step cs c m (m\<lparr>ms_phase := Validated (ms_object m) nc, ms_env := s\<rparr>)"
| resolve: "ms_phase m = Validated stored nc \<Longrightarrow> reconcile_images cs c nc (ms_env m) = (Ok nc', s) \<Longrightarrow>
     nc_step cs c m (m\<lparr>ms_phase := Resolved stored nc', ms_env := s,
                       ms_answers := ms_answers m \<union> answers_in c nc (ms_env m)\<rparr>)"
| save: "ms_phase m = Resolved stored nc \<Longrightarrow> nc \<noteq> stored \<Longrightarrow>
     nc_step cs c m (m\<lparr>ms_object := with_status (ms_object m) nc, ms_phase := Idle\<rparr>)"
| unchanged: "ms_phase m = Resolved stored nc \<Longrightarrow> nc = stored \<Longrightarrow> nc_step cs c m (m\<lparr>ms_phase := Idle\<rparr>)"
| lost: "nc_step cs c m (m\<lparr>ms_phase := Idle\<rparr>)"

inductive_cases nc_stepE: "nc_step cs c m m'"

lemmas nc_step_cases [consumes 1, case_names edit move start resolve save unchanged lost] = nc_stepE

text \<open>A NodeClass as it is created: no status, and a generation the API server has set.\<close>

definition nc_initial :: "'w nc_machine \<Rightarrow> bool" where
  "nc_initial m \<longleftrightarrow>
     nc_Conditions (ms_object m) = [] \<and> nc_ResolvedImages (ms_object m) = [] \<and>
     nc_Generation (ms_object m) \<noteq> 0 \<and> ms_phase m = Idle \<and> ms_answers m = {}"

definition nc_reachable :: "cond_set \<Rightarrow> 'w controller \<Rightarrow> 'w nc_machine \<Rightarrow> bool" where
  "nc_reachable cs c m \<longleftrightarrow> (\<exists>m0. nc_initial m0 \<and> (nc_step cs c)\<^sup>*\<^sup>* m0 m)"

section \<open>The invariant\<close>

text \<open>
  A status is sound when its condition is not of a later generation, when nothing is recorded
  without a condition, and when entries stamped with the present generation were answered for the
  present selector.
\<close>

definition sound_status :: "(image_selector \<times> string \<times> int64) set \<Rightarrow> node_class \<Rightarrow> bool" where
  "sound_status answers nc \<longleftrightarrow>
     ResolvedImagesGeneration nc \<le> nc_Generation nc \<and>
     (find_cond ConditionTypeImagesReady (nc_Conditions nc) = None \<longrightarrow> nc_ResolvedImages nc = []) \<and>
     (\<forall>ri \<in> set (CurrentResolvedImages nc).
        (spec_ImageSelector (nc_Spec nc), ri_Architecture ri, ri_ImageID ri) \<in> answers)"

text \<open>A copy taken earlier: not newer than the object, and equal in its specification when as new.\<close>

definition earlier_copy :: "node_class \<Rightarrow> node_class \<Rightarrow> bool" where
  "earlier_copy obj nc \<longleftrightarrow>
     nc_Generation nc \<le> nc_Generation obj \<and> (nc_Generation nc = nc_Generation obj \<longrightarrow> nc_Spec nc = nc_Spec obj)"

definition reported_now :: "node_class \<Rightarrow> bool" where
  "reported_now nc \<longleftrightarrow> (\<exists>st. reported nc ConditionTypeImagesReady st)"

fun sound_phase :: "(image_selector \<times> string \<times> int64) set \<Rightarrow> node_class \<Rightarrow> nc_phase \<Rightarrow> bool" where
  "sound_phase answers obj Idle = True"
| "sound_phase answers obj (Validated stored nc) =
     (sound_status answers stored \<and> validated stored nc \<and> earlier_copy obj nc)"
| "sound_phase answers obj (Resolved stored nc) =
     (sound_status answers nc \<and> reported_now nc \<and> earlier_copy obj nc)"

definition nc_invariant :: "'w nc_machine \<Rightarrow> bool" where
  "nc_invariant m \<longleftrightarrow>
     nc_Generation (ms_object m) \<noteq> 0 \<and> sound_status (ms_answers m) (ms_object m) \<and>
     sound_phase (ms_answers m) (ms_object m) (ms_phase m)"

lemma sound_status_mono: "sound_status A nc \<Longrightarrow> A \<subseteq> B \<Longrightarrow> sound_status B nc"
  by (auto simp: sound_status_def)

lemma sound_phase_mono: "sound_phase A obj ph \<Longrightarrow> A \<subseteq> B \<Longrightarrow> sound_phase B obj ph"
  by (cases ph) (auto intro: sound_status_mono)

lemma map_put_all_source: "map_of (map_put_all kvs m) k = Some v \<Longrightarrow> (k, v) \<in> set kvs \<or> map_of m k = Some v"
  by (induction kvs m rule: map_put_all.induct) (auto split: if_splits)

lemma previous_ids_source:
  "map_of (previous_ids ris) arch = Some i \<Longrightarrow> \<exists>ri \<in> set ris. ri_Architecture ri = arch \<and> ri_ImageID ri = i"
  unfolding previous_ids_def using map_put_all_source [of "map (\<lambda>ri. (ri_Architecture ri, ri_ImageID ri)) ris" "[]" arch i]
  by auto

text \<open>What is carried forward was vouched for in the object as it was read.\<close>

lemma held_vouched:
  assumes "sound_status A stored" and "validated stored nc" and "map_of (held_ids nc) arch = Some i"
  shows "(spec_ImageSelector (nc_Spec nc), arch, i) \<in> A"
proof -
  have v: "nc_ResolvedImages nc = nc_ResolvedImages stored" "nc_Generation nc = nc_Generation stored"
    "nc_Spec nc = nc_Spec stored" "ResolvedImagesGeneration nc = images_generation stored"
    using assms(2) by (simp_all add: validated_def same_object_def)
  have cur: "images_generation stored = nc_Generation stored"
    using assms(3) v by (auto simp: held_ids_def drop_stale_def previous_ids_def split: if_splits)
  with assms(3) v have m: "map_of (previous_ids (nc_ResolvedImages stored)) arch = Some i"
    by (simp add: held_ids_def drop_stale_def)
  then obtain ri where ri: "ri \<in> set (nc_ResolvedImages stored)" "ri_Architecture ri = arch" "ri_ImageID ri = i"
    using previous_ids_source by blast
  then have "find_cond ConditionTypeImagesReady (nc_Conditions stored) \<noteq> None"
    using assms(1) by (auto simp: sound_status_def)
  with cur have "CurrentResolvedImages stored = nc_ResolvedImages stored"
    by (auto simp: CurrentResolvedImages_def ResolvedImagesGeneration_def images_ready_generation_find
        images_generation_def)
  with assms(1) ri v show ?thesis by (force simp: sound_status_def)
qed

lemma merge_resolved_in:
  "ri \<in> set (mg_resolved (merge_results prev rs)) \<Longrightarrow>
     \<exists>q \<in> set rs. ri_Architecture ri = ir_arch q \<and> entry_of prev q = Some (ri_ImageID ri)"
  unfolding merge_resolved by (force split: option.splits)

lemma resolved_sound:
  assumes "cond_spec cs" and "sound_status A stored" and "validated stored nc"
    and "reconcile_images cs c nc s = (Ok nc', s')"
  shows "sound_status (A \<union> answers_in c nc s) nc' \<and> reported_now nc' \<and> nc_Spec nc' = nc_Spec nc \<and>
         nc_Generation nc' = nc_Generation nc"
proof (rule reconcile_images_result [OF assms(1,4)])
  fix x a s1 s2
  assume r: "resolve_arch c nc ArchitectureX86 s = (Ok x, s1)" "resolve_arch c nc ArchitectureARM s1 = (Ok a, s2)"
    "nc_ResolvedImages nc' = mg_resolved (merge_results (held_ids nc) [x, a])"
    "nc_Spec nc' = nc_Spec nc" "nc_Generation nc' = nc_Generation nc"
    "reported nc' ConditionTypeImagesReady
       (if nc_ResolvedImages nc' \<noteq> [] then CondTrue
        else if mg_transient (merge_results (held_ids nc) [x, a]) \<noteq> [] then CondUnknown else CondFalse)"
  let ?sel = "spec_ImageSelector (nc_Spec nc)"
  let ?look = "Resolve (ctl_images c) ?sel"
  obtain rx ra where look: "?look ArchitectureX86 s = (rx, s1)" "?look ArchitectureARM s1 = (ra, s2)"
    using r(1,2) by (auto simp: resolve_arch_ok)
  have ans: "answers_in c nc s = answer_of ?sel ArchitectureX86 rx \<union> answer_of ?sel ArchitectureARM ra"
    by (simp add: answers_in_def look Let_def)
  have vouch: "(?sel, ir_arch q, i) \<in> A \<union> answer_of ?sel arch (fst (?look arch t))"
    if "resolve_arch c nc arch t = (Ok q, t')" "entry_of (held_ids nc) q = Some i" for q arch t t' i
    using entry_of_resolved [OF that(1), of "held_ids nc"] that(2) held_vouched [OF assms(2,3)]
    by (auto simp: image_after_def answer_of_def split: outcome.splits if_splits)
  have "(?sel, ri_Architecture ri, ri_ImageID ri) \<in> A \<union> answers_in c nc s" if "ri \<in> set (nc_ResolvedImages nc')" for ri
    using merge_resolved_in [OF that [unfolded r(3)]] vouch [OF r(1)] vouch [OF r(2)] by (auto simp: ans look)
  with r(4-6) show ?thesis
    by (auto simp: sound_status_def reported_now_def reported_def reported_current ResolvedImagesGeneration_def
        images_ready_generation_find CurrentResolvedImages_def)
qed

lemma word_less_Suc: "x \<noteq> - 1 \<Longrightarrow> x < x + 1 \<and> x + 1 \<noteq> 0" for x :: int64
proof -
  assume "x \<noteq> - 1"
  then have ne: "1 + x \<noteq> 0" using max_word_wrap [of x] by (metis add.commute)
  then show ?thesis using unatSuc [OF ne] by (simp add: word_less_nat_alt add.commute)
qed

lemma edit_sound:
  assumes "sound_status A obj" and "nc_Generation obj \<noteq> - 1"
  shows "sound_status A (obj\<lparr>nc_Spec := spec, nc_Generation := nc_Generation obj + 1\<rparr>)"
  using assms word_less_Suc [OF assms(2)]
  by (auto simp: sound_status_def ResolvedImagesGeneration_def CurrentResolvedImages_def)

lemma earlier_copy_edit:
  assumes "earlier_copy obj nc" and "nc_Generation obj \<noteq> - 1"
  shows "earlier_copy (obj\<lparr>nc_Spec := spec, nc_Generation := nc_Generation obj + 1\<rparr>) nc"
  using assms word_less_Suc [OF assms(2)] by (auto simp: earlier_copy_def)

lemma save_sound:
  assumes "sound_status A nc" and "reported_now nc" and "earlier_copy obj nc"
  shows "sound_status A (with_status obj nc)"
  using assms
  by (auto simp: sound_status_def reported_now_def reported_def earlier_copy_def with_status_def
      ResolvedImagesGeneration_def images_ready_generation_find CurrentResolvedImages_def)

lemma nc_step_invariant:
  assumes "cond_spec cs" and "nc_step cs c m m'" and "nc_invariant m"
  shows "nc_invariant m'"
  using assms(2)
proof (cases rule: nc_step_cases)
  case (edit spec)
  have "sound_phase (ms_answers m) (ms_object m') (ms_phase m)"
    using assms(3) earlier_copy_edit [OF _ edit(2)] edit(1)
    by (cases "ms_phase m") (auto simp: nc_invariant_def)
  with edit assms(3) edit_sound [OF _ edit(2)] word_less_Suc [OF edit(2)] show ?thesis
    by (auto simp: nc_invariant_def)
next
  case (start nc s)
  with assms(3) validate_pass_ok [OF assms(1) start(3)] show ?thesis
    by (auto simp: nc_invariant_def earlier_copy_def validated_def same_object_def)
next
  case (resolve stored nc nc' s)
  with assms(3) have "sound_status (ms_answers m) stored" "validated stored nc" "earlier_copy (ms_object m) nc"
    by (simp_all add: nc_invariant_def)
  with resolved_sound [OF assms(1) this(1,2) resolve(3)] assms(3) resolve show ?thesis
    by (simp add: nc_invariant_def earlier_copy_def sound_status_mono [OF _ Un_upper1])
next
  case (save stored nc)
  with assms(3) save_sound show ?thesis by (auto simp: nc_invariant_def with_status_def)
qed (use assms(3) in \<open>auto simp: nc_invariant_def\<close>)

lemma nc_initial_invariant: "nc_initial m \<Longrightarrow> nc_invariant m"
  by (simp add: nc_initial_def nc_invariant_def sound_status_def ResolvedImagesGeneration_def find_cond_def
      CurrentResolvedImages_def)

interpretation status: transition_system nc_initial "nc_step cs c" "\<lambda>m. cond_spec cs \<longrightarrow> nc_invariant m" for cs c
  by unfold_locales (auto intro: nc_initial_invariant nc_step_invariant)

lemma nc_reachable_invariant:
  assumes "cond_spec cs" and "nc_reachable cs c m"
  shows "nc_invariant m"
  using assms status.reachable_inv unfolding nc_reachable_def by blast

section \<open>A run\<close>

text \<open>A new NodeClass, and a catalogue that holds one snapshot.\<close>

definition new_machine :: "unit nc_machine" where
  "new_machine =
     \<lparr>ms_object = example_class\<lparr>nc_Conditions := [], nc_ResolvedImages := []\<rparr>, ms_phase = Idle,
      ms_env = still_env, ms_answers = {}\<rparr>"

abbreviation one_snapshot :: "unit controller" where
  "one_snapshot \<equiv> still_controller (Ok [talos_image 7 0])"

lemma one_snapshot_Resolve:
  "fst (Resolve (ctl_images one_snapshot) talos_selector arch s) = Ok (talos_image 7 0)"
proof -
  have pick: "pick_image talos_selector [talos_image 7 0] = Some (talos_image 7 0)"
  proof -
    have "\<not> (\<forall>img \<in> set [talos_image 7 0]. \<not> selector_matches talos_selector img)"
      using talos_example_matches(1) [of 7 0] by simp
    then obtain img where "pick_image talos_selector [talos_image 7 0] = Some img"
      unfolding pick_image_None [symmetric] by blast
    with pick_image_Some [OF this] show ?thesis by simp
  qed
  show ?thesis
    using talos_example_matches(2) pick
    by (cases rule: Resolve_cases [of talos_selector "ctl_images one_snapshot" arch s])
       (auto simp: still_controller_def still_images_def)
qed

lemma talos_image_sel [simp]: "img_Architecture (talos_image i t) = ArchitectureX86" "img_ID (talos_image i t) = i"
  by (simp_all add: talos_image_def)

lemma new_machine_initial: "nc_initial new_machine"
  by (simp add: nc_initial_def new_machine_def example_class_def)

lemma new_machine_run:
  "\<exists>m. nc_reachable example_conds one_snapshot m \<and> spec_ImageSelector (nc_Spec (ms_object m)) = talos_selector \<and>
     \<lparr>ri_Architecture = ArchitectureX86, ri_ImageID = 7\<rparr> \<in> set (CurrentResolvedImages (ms_object m))"
proof -
  let ?c = one_snapshot and ?m = new_machine
  let ?step = "nc_step example_conds ?c"
  let ?obj = "ms_object ?m"
  have ret: "clients_return ?c" by (rule still_controller_returns) simp
  obtain nc s where v: "validate_pass example_conds ?c ?obj (ms_env ?m) = (Ok nc, s)"
    using total_callE [OF total_validate_pass [OF ret]] by metis
  let ?m1 = "?m\<lparr>ms_phase := Validated ?obj nc, ms_env := s\<rparr>"
  obtain nc' s' where i: "reconcile_images example_conds ?c nc s = (Ok nc', s')"
    using total_callE [OF total_reconcile_images] ret unfolding clients_return_def by metis
  let ?m2 = "?m1\<lparr>ms_phase := Resolved ?obj nc', ms_env := s', ms_answers := {} \<union> answers_in ?c nc s\<rparr>"
  let ?m3 = "?m2\<lparr>ms_object := with_status ?obj nc', ms_phase := Idle\<rparr>"
  have vd: "validated ?obj nc" by (rule validate_pass_ok [OF example_conds_spec v])
  have sel: "spec_ImageSelector (nc_Spec nc) = talos_selector"
    using vd by (simp add: validated_def same_object_def new_machine_def example_class_def)
  have "nc_invariant ?m" by (rule nc_initial_invariant [OF new_machine_initial])
  then have sound: "sound_status {} ?obj" by (simp add: nc_invariant_def new_machine_def)
  have entry: "\<lparr>ri_Architecture = ArchitectureX86, ri_ImageID = 7\<rparr> \<in> set (nc_ResolvedImages nc')"
  proof (rule reconcile_images_result [OF example_conds_spec i])
    fix x a s1 s2
    assume r: "resolve_arch ?c nc ArchitectureX86 s = (Ok x, s1)"
      "nc_ResolvedImages nc' = mg_resolved (merge_results (held_ids nc) [x, a])"
    have "entry_of (held_ids nc) x = Some 7" "ir_arch x = ArchitectureX86"
      using entry_of_resolved [OF r(1)] by (simp_all add: sel one_snapshot_Resolve image_after_def)
    then show ?thesis by (simp add: r(2) merge_resolved)
  qed
  note r = resolved_sound [OF example_conds_spec sound vd i]
  have cur: "CurrentResolvedImages (with_status ?obj nc') = nc_ResolvedImages nc'"
    using r vd
    by (auto simp: CurrentResolvedImages_def with_status_def ResolvedImagesGeneration_def reported_now_def reported_def
        images_ready_generation_find validated_def same_object_def)
  have "nc' \<noteq> ?obj" using entry by (auto simp: new_machine_def)
  then have "?step ?m2 ?m3" using nc_step.save [of ?m2 ?obj nc' example_conds ?c] by simp
  moreover have "?step ?m1 ?m2" using nc_step.resolve [of ?m1 ?obj nc example_conds ?c nc' s'] i
    by (simp add: new_machine_def)
  moreover have "?step ?m ?m1" using nc_step.start [of ?m example_conds ?c nc s] v by (simp add: new_machine_def)
  ultimately have "?step\<^sup>*\<^sup>* ?m ?m3" by (meson converse_rtranclp_into_rtranclp rtranclp.rtrancl_refl)
  with new_machine_initial have "nc_reachable example_conds ?c ?m3" unfolding nc_reachable_def by blast
  moreover have "spec_ImageSelector (nc_Spec (ms_object ?m3)) = talos_selector"
    by (simp add: with_status_def new_machine_def example_class_def)
  ultimately show ?thesis using entry cur by (intro exI [of _ ?m3]) simp
qed

section \<open>Properties\<close>

text \<open>C3: However specification edits, catalogue changes, reconciles and lost status writes interleave, an
  image that status offers for an architecture is one the catalogue named, in some reconcile, for that
  architecture under the selector the object has now: an image resolved for an earlier selector is
  never offered, not even when the write of its status lands after the edit.\<close>

theorem offered_images_answer_present_selector:
  assumes "cond_spec cs" and "nc_reachable cs c m" and "ri \<in> set (CurrentResolvedImages (ms_object m))"
  shows "(spec_ImageSelector (nc_Spec (ms_object m)), ri_Architecture ri, ri_ImageID ri) \<in> ms_answers m"
  using nc_reachable_invariant [OF assms(1,2)] assms(3) by (simp add: nc_invariant_def sound_status_def)

theorem offered_images_answer_present_selector_witness:
  "\<exists>m. nc_reachable example_conds one_snapshot m \<and> (talos_selector, ArchitectureX86, 7) \<in> ms_answers m"
proof -
  obtain m where m: "nc_reachable example_conds one_snapshot m"
    "spec_ImageSelector (nc_Spec (ms_object m)) = talos_selector"
    "\<lparr>ri_Architecture = ArchitectureX86, ri_ImageID = 7\<rparr> \<in> set (CurrentResolvedImages (ms_object m))"
    using new_machine_run by blast
  with offered_images_answer_present_selector [OF example_conds_spec m(1,3)] show ?thesis by auto
qed

section \<open>One reconcile and its write\<close>

text \<open>A write of one condition leaves what the others report.\<close>

lemma set_cond_others:
  assumes "cond_spec cs" and "t \<in> conditionTypes" and "set_cond cs t st nc nc'"
    and "t' \<in> conditionTypes" and "t' \<noteq> t" and "reported nc t' st'"
  shows "reported nc' t' st'"
proof -
  obtain f where w: "writes_cond f t st" and nc': "nc' = f (cs_For cs nc)"
    using assms(3) cond_specD(2-4) [OF assms(1,2)]
    unfolding set_cond_def set_true_def set_false_def set_unknown_def by metis
  obtain c where c: "find_cond t' (nc_Conditions nc) = Some c" "cond_Status c = st'"
      "cond_ObservedGeneration c = nc_Generation nc" using assms(6) by (auto simp: reported_def)
  then have "find_cond t' (nc_Conditions (cs_For cs nc)) = Some c"
    using cond_For [OF assms(1,4), of nc] by simp
  then have "find_cond t' (nc_Conditions nc') = Some c"
    using w assms(4,5) unfolding writes_cond_def nc' by metis
  moreover have "nc_Generation nc' = nc_Generation nc"
    using set_cond_result [OF assms(1,2,3)] by (simp add: same_object_def)
  ultimately show ?thesis using c by (simp add: reported_def)
qed

text \<open>Status speaks of the present specification: all four conditions were written for its generation.\<close>

definition reports_present :: "node_class \<Rightarrow> bool" where
  "reports_present nc \<longleftrightarrow> (\<forall>t \<in> conditionTypes. \<exists>st. reported nc t st)"

lemma pass_reports_present:
  fixes s :: "('w, 'z) env_scheme"
  assumes cs: "cond_spec cs" and "reconcile_pass cs c nc s = (Ok nc', s')"
  shows "reports_present nc' \<and> nc_Spec nc' = nc_Spec nc \<and> nc_Generation nc' = nc_Generation nc"
proof -
  obtain nc3 s3 where v: "validate_pass cs c nc s = (Ok nc3, s3)" and so: "validated nc nc3"
      and i: "reconcile_images cs c nc3 s3 = (Ok nc', s')"
    by (rule reconcile_pass_stages [OF assms])
  obtain nc1 nc2 st1 st2 st3 where w: "set_cond cs ConditionTypeNetworkReady st1 nc nc1"
      "set_cond cs ConditionTypeResourcesReady st2 nc1 nc2" "set_cond cs ConditionTypeUserDataReady st3 nc2 nc3"
    using v reconcile_network_ok report_validation_ok unfolding validate_pass_def bind_call_ok_iff by meson
  obtain m s4 where "report_images cs c (drop_stale nc3) m s4 = (Ok nc', s')"
    using i unfolding reconcile_images_def Let_def bind_call_ok_iff by blast
  then obtain st4 where w4: "set_cond cs ConditionTypeImagesReady st4 ((drop_stale nc3)\<lparr>nc_ResolvedImages := mg_resolved m\<rparr>) nc'"
    using report_images_ok by blast
  have ct: "ConditionTypeNetworkReady \<in> conditionTypes" "ConditionTypeResourcesReady \<in> conditionTypes"
    "ConditionTypeUserDataReady \<in> conditionTypes" "ConditionTypeImagesReady \<in> conditionTypes"
    by (simp_all add: conditionTypes_def)
  have stale: "reported ((drop_stale nc3)\<lparr>nc_ResolvedImages := ris\<rparr>) t st = reported nc3 t st" for t st ris
    by (simp add: reported_def)
  note keep = set_cond_others [OF cs]
  have n: "reported nc1 ConditionTypeNetworkReady st1" using set_cond_result [OF cs ct(1) w(1)] by blast
  have n: "reported nc2 ConditionTypeNetworkReady st1" by (rule keep [OF ct(2) w(2) ct(1) _ n]) simp
  have n: "reported nc3 ConditionTypeNetworkReady st1" by (rule keep [OF ct(3) w(3) ct(1) _ n]) simp
  have n: "reported nc' ConditionTypeNetworkReady st1" by (rule keep [OF ct(4) w4 ct(1)]) (simp_all add: stale n)
  have r: "reported nc2 ConditionTypeResourcesReady st2" using set_cond_result [OF cs ct(2) w(2)] by blast
  have r: "reported nc3 ConditionTypeResourcesReady st2" by (rule keep [OF ct(3) w(3) ct(2) _ r]) simp
  have r: "reported nc' ConditionTypeResourcesReady st2" by (rule keep [OF ct(4) w4 ct(2)]) (simp_all add: stale r)
  have u: "reported nc3 ConditionTypeUserDataReady st3" using set_cond_result [OF cs ct(3) w(3)] by blast
  have u: "reported nc' ConditionTypeUserDataReady st3" by (rule keep [OF ct(4) w4 ct(3)]) (simp_all add: stale u)
  have "reported nc' ConditionTypeImagesReady st4" using set_cond_result [OF cs ct(4) w4] by blast
  with n r u have "reports_present nc'" by (auto simp: reports_present_def conditionTypes_def)
  moreover have "same_object ((drop_stale nc3)\<lparr>nc_ResolvedImages := mg_resolved m\<rparr>) nc'"
    using set_cond_result [OF cs ct(4) w4] by blast
  ultimately show ?thesis using so by (simp add: same_object_def validated_def)
qed

text \<open>
  The API server holds the object. The reads and the events of a reconcile leave it alone, and nobody
  edits it meanwhile; a status write that is answered with success has replaced its status, and one
  answered with an error may or may not have.
\<close>

definition holds_object :: "'w controller \<Rightarrow> ('w \<Rightarrow> node_class) \<Rightarrow> bool" where
  "holds_object c stored \<longleftrightarrow>
     (\<forall>i. keeps stored (ctl_networks c i) \<and> keeps stored (ctl_firewalls c i) \<and> keeps stored (ctl_sshKeys c i)) \<and>
     (\<forall>q. keeps stored (ctl_images c q)) \<and>
     (\<forall>ns n. keeps stored (kube_GetSecretData (ctl_kubeClient c) ns n)) \<and>
     (\<forall>eventf e w. ctl_recorder c = Some eventf \<longrightarrow> stored (eventf e w) = stored w) \<and>
     (\<forall>nc w r w'. kube_UpdateStatus (ctl_kubeClient c) nc w = (r, w') \<longrightarrow>
        (if r = Ok () then stored w' = with_status (stored w) nc
         else stored w' = stored w \<or> stored w' = with_status (stored w) nc))"

abbreviation object_in :: "('w \<Rightarrow> node_class) \<Rightarrow> ('w, 'z) env_scheme \<Rightarrow> node_class" where
  "object_in stored s \<equiv> stored (env_world s)"

lemma keeps_object_world: "keeps stored f \<Longrightarrow> keeps (\<lambda>s. stored (env_world s)) (on_world f)"
  by (auto simp: keeps_def on_world_def split: prod.splits)

lemma warnf_object: "holds_object c stored \<Longrightarrow> stored (env_world (warnf c nc r a m s)) = stored (env_world s)"
  by (auto simp: warnf_def holds_object_def split: option.splits)

lemma keeps_object_network:
  assumes "holds_object c stored"
  shows "keeps (\<lambda>s. stored (env_world s)) (reconcile_network cs c nc)"
proof (rule keepsI)
  fix s :: "('a, 'b) env_scheme" and r s'
  assume R: "reconcile_network cs c nc s = (r, s')"
  obtain x s1 where x: "on_world (ctl_networks c (spec_NetworkID (nc_Spec nc))) s = (x, s1)" by fastforce
  have "keeps stored (ctl_networks c (spec_NetworkID (nc_Spec nc)))" using assms by (simp add: holds_object_def)
  from keepsD [OF keeps_object_world [OF this] x] have "object_in stored s1 = object_in stored s" .
  with R x show "object_in stored s' = object_in stored s"
    by (auto simp: reconcile_network_def warnf_object [OF assms] split: outcome.splits option.splits)
qed

lemma keeps_object_check_all:
  fixes stored :: "'w \<Rightarrow> node_class"
  assumes "\<forall>i. keeps stored (get i)"
  shows "keeps (\<lambda>s :: ('w, 'z) env_scheme. stored (env_world s)) (check_all get f m fmt is')"
proof (induction is')
  case Nil
  then show ?case by (simp add: keeps_pure)
next
  case (Cons i is')
  show ?case
  proof (rule keepsI)
    fix s :: "('w, 'z) env_scheme" and r s'
    assume R: "check_all get f m fmt (i # is') s = (r, s')"
    obtain x s1 where x: "on_world (get i) s = (x, s1)" by fastforce
    have "object_in stored s1 = object_in stored s"
      using keepsD [OF keeps_object_world [OF assms [rule_format]] x] .
    moreover have "object_in stored s' = object_in stored s1"
      using R x keepsD [OF Cons.IH, of s1 r s'] by (auto split: outcome.splits option.splits)
    ultimately show "object_in stored s' = object_in stored s" by simp
  qed
qed

lemma keeps_object_user_data:
  assumes "holds_object c stored"
  shows "keeps (\<lambda>s. stored (env_world s)) (validateUserData c nc)"
proof (cases "spec_UserDataSecretRef (nc_Spec nc)")
  case None
  then show ?thesis by (simp add: validateUserData_def keeps_pure)
next
  case (Some ref)
  show ?thesis
  proof (rule keepsI)
    fix s :: "('a, 'b) env_scheme" and r s'
    assume R: "validateUserData c nc s = (r, s')"
    obtain x s1 where x: "on_world (kube_GetSecretData (ctl_kubeClient c) (ref_Namespace ref) (ref_Name ref)) s = (x, s1)"
      by fastforce
    have "keeps stored (kube_GetSecretData (ctl_kubeClient c) (ref_Namespace ref) (ref_Name ref))"
      using assms by (simp add: holds_object_def)
    from keepsD [OF keeps_object_world [OF this] x] R x Some
    show "object_in stored s' = object_in stored s" by (auto simp: validateUserData_def split: outcome.splits)
  qed
qed

lemma keeps_object_report:
  "holds_object c stored \<Longrightarrow> keeps (\<lambda>s. stored (env_world s)) (report_validation cs c t action v nc)"
  by (rule keepsI) (auto simp: report_validation_def warnf_object split: validation.splits)

lemma keeps_object_resolve:
  assumes "holds_object c stored"
  shows "keeps (\<lambda>s. stored (env_world s)) (resolve_arch c nc arch)"
proof (rule keepsI)
  fix s :: "('a, 'b) env_scheme" and r s'
  assume R: "resolve_arch c nc arch s = (r, s')"
  obtain x s1 where x: "Resolve (ctl_images c) (spec_ImageSelector (nc_Spec nc)) arch s = (x, s1)" by fastforce
  have "keeps (\<lambda>s. stored (env_world s)) (Resolve (ctl_images c) sel arch)" for sel
    unfolding Resolve_def resolveUbuntu_def resolveTalos_def Let_def
    by (intro frame_intros keeps_object_world) (use assms in \<open>simp_all add: holds_object_def\<close>)
  from keepsD [OF this x] R x show "object_in stored s' = object_in stored s"
    by (auto simp: resolve_arch_def split: outcome.splits)
qed

lemma keeps_object_images:
  "holds_object c stored \<Longrightarrow> keeps (\<lambda>s. stored (env_world s)) (report_images cs c nc m)"
  by (rule keepsI) (auto simp: report_images_def Let_def warnf_object split: if_splits option.splits)

lemma keeps_object_pass:
  assumes "holds_object c stored"
  shows "keeps (\<lambda>s. stored (env_world s)) (reconcile_pass cs c nc)"
proof -
  have get: "\<forall>i. keeps stored (ctl_firewalls c i)" "\<forall>i. keeps stored (ctl_sshKeys c i)"
    using assms by (simp_all add: holds_object_def)
  show ?thesis
    unfolding reconcile_pass_def validate_pass_def validateResources_def reconcile_images_def resolveImages_def Let_def
    by (intro frame_intros keeps_object_network keeps_object_check_all keeps_object_user_data keeps_object_report
        keeps_object_resolve keeps_object_images assms get)
qed

text \<open>C29: A reconcile that nobody edits under brings status up to date, or returns an error and is retried.
  Whatever status the object has, provided only that the clients return, \<open>Reconcile\<close> returns; when it
  returns without an error, the object in the API server has every one of its four conditions written for
  the present generation, offers all images it records, and has the specification it had; the only
  error it returns is the one its status write was answered with. So with a client whose writes
  succeed a single reconcile is enough.\<close>

theorem reconcile_reaches_current_status:
  fixes s :: "('w, 'z) env_scheme"
  assumes "cond_spec cs" and "clients_return c" and "holds_object c stored"
  shows "\<exists>r s'. Reconcile cs c (stored (env_world s)) s = (r, s') \<and>
    nc_Spec (stored (env_world s')) = nc_Spec (stored (env_world s)) \<and>
    nc_Generation (stored (env_world s')) = nc_Generation (stored (env_world s)) \<and>
    (case r of
       Ok d \<Rightarrow> d = resyncInterval \<and> reports_present (stored (env_world s')) \<and>
         CurrentResolvedImages (stored (env_world s')) = nc_ResolvedImages (stored (env_world s'))
     | Err e \<Rightarrow> \<exists>nc w ke. kube_UpdateStatus (ctl_kubeClient c) nc w = (Err ke, env_world s') \<and> e = ErrKube ke
     | Panic \<Rightarrow> False)"
proof -
  let ?obj = "stored (env_world s)"
  obtain nc s1 where p: "reconcile_pass cs c ?obj s = (Ok nc, s1)"
    using total_callE [OF total_reconcile_pass [OF assms(2)]] by metis
  have obj: "stored (env_world s1) = ?obj" using keepsD [OF keeps_object_pass [OF assms(3)] p] .
  note cur = pass_reports_present [OF assms(1) p]
  have offered: "CurrentResolvedImages nc' = nc_ResolvedImages nc'" if "reports_present nc'" for nc'
    using that reported_current by (auto simp: reports_present_def conditionTypes_def)
  have status: "reports_present (with_status ?obj nc)"
    using cur by (auto simp: reports_present_def reported_def with_status_def)
  show ?thesis
  proof (cases "nc = ?obj")
    case True
    then have "Reconcile cs c ?obj s = (Ok resyncInterval, s1)"
      using p by (simp add: Reconcile_def bind_call_def return_call_def)
    then show ?thesis using cur offered True obj by auto
  next
    case False
    obtain r w where u: "kube_UpdateStatus (ctl_kubeClient c) nc (env_world s1) = (r, w)" by fastforce
    have np: "r \<noteq> Panic" using assms(2) u by (auto simp: clients_return_def no_panicsD)
    have after: "if r = Ok () then stored w = with_status ?obj nc else stored w = ?obj \<or> stored w = with_status ?obj nc"
      using assms(3) u obj unfolding holds_object_def by metis
    then have same: "nc_Spec (stored w) = nc_Spec ?obj" "nc_Generation (stored w) = nc_Generation ?obj"
      by (auto simp: with_status_def split: if_splits)
    have run: "Reconcile cs c ?obj s = (case r of Ok x \<Rightarrow> Ok resyncInterval | Err ke \<Rightarrow> Err (ErrKube ke) | Panic \<Rightarrow> Panic,
        s1\<lparr>env_world := w\<rparr>)"
      using p False u
      by (simp add: Reconcile_def bind_call_def wrap_call_def on_world_def return_call_def split: outcome.split)
    show ?thesis
    proof (cases r)
      case (Ok x)
      then show ?thesis using run after same status offered by auto
    next
      case (Err ke)
      then show ?thesis using run u same by auto
    qed (use np in simp)
  qed
qed

text \<open>An API server that holds one object and accepts every status write; and no image at all.\<close>

definition kept_controller :: "node_class controller" where
  "kept_controller =
     \<lparr>ctl_kubeClient =
        \<lparr>kube_GetNodeClass = (\<lambda>n w. (Ok w, w)), kube_GetSecretData = (\<lambda>ns n w. (Ok [], w)),
         kube_UpdateStatus = (\<lambda>nc w. (Ok (), with_status w nc))\<rparr>,
      ctl_networks = (\<lambda>i w. (Ok (Some ()), w)), ctl_firewalls = (\<lambda>i w. (Ok (Some ()), w)),
      ctl_sshKeys = (\<lambda>i w. (Ok None, w)), ctl_images = (\<lambda>q w. (Ok [], w)), ctl_recorder = None\<rparr>"

definition edited_env :: "node_class env" where
  "edited_env = \<lparr>env_world = example_class\<lparr>nc_Generation := 4\<rparr>, env_metrics = initial_metrics\<rparr>"

theorem reconcile_reaches_current_status_witness:
  "\<not> reports_present (env_world edited_env) \<and>
   (\<exists>s'. Reconcile example_conds kept_controller (env_world edited_env) edited_env = (Ok resyncInterval, s') \<and>
      reports_present (env_world s') \<and> nc_Generation (env_world s') = 4)"
proof -
  have ret: "clients_return kept_controller" by (simp add: clients_return_def no_panics_def kept_controller_def)
  have held: "holds_object kept_controller (\<lambda>w. w)" by (simp add: holds_object_def keeps_def kept_controller_def)
  have writes: "kube_UpdateStatus (ctl_kubeClient kept_controller) nc w \<noteq> (Err ke, w')" for nc w ke w'
    by (simp add: kept_controller_def)
  obtain r s' where "Reconcile example_conds kept_controller (env_world edited_env) edited_env = (r, s')"
      "nc_Generation (env_world s') = nc_Generation (env_world edited_env)"
      "case r of Ok d \<Rightarrow> d = resyncInterval \<and> reports_present (env_world s') \<and>
           CurrentResolvedImages (env_world s') = nc_ResolvedImages (env_world s')
       | Err e \<Rightarrow> \<exists>nc w ke. kube_UpdateStatus (ctl_kubeClient kept_controller) nc w = (Err ke, env_world s') \<and> e = ErrKube ke
       | Panic \<Rightarrow> False"
    using reconcile_reaches_current_status [OF example_conds_spec ret held, of edited_env] by blast
  moreover have "\<not> reports_present (env_world edited_env)"
    by (simp add: reports_present_def conditionTypes_def edited_env_def example_class_def reported_def)
  moreover have "nc_Generation (env_world edited_env) = 4" by (simp add: edited_env_def)
  ultimately show ?thesis using writes by (auto split: outcome.splits)
qed

end
