(* ===== verification/Readiness.thy ===== *)
theory Readiness
  imports Node_Class_Machine Launch
begin

text \<open>
  The NodeClass controller and the cloud provider together: the conditions the one reports are about
  what the other does when it launches, and an image the other launches is one the first resolved for
  the present selector, or one it has just looked up.
\<close>

section \<open>User data\<close>

text \<open>C33: The controller's check of the userData Secret and the launch's reading of it agree: in the same
  state of the cluster the check passes exactly when a launch gets its user data, so
  \<open>UserDataReady\<close> is True for exactly the NodeClasses whose launches do not fail on user data.\<close>

theorem userdata_check_agrees_with_launch:
  "(\<exists>s'. validateUserData (c\<lparr>ctl_kubeClient := cp_kubeClient cp\<rparr>) nc s = (Ok Valid, s')) \<longleftrightarrow>
   (\<exists>u s'. resolveUserData cp nc s = (Ok u, s'))"
proof (cases "spec_UserDataSecretRef (nc_Spec nc)")
  case None
  then show ?thesis by (simp add: validateUserData_def resolveUserData_def return_call_def)
next
  case (Some ref)
  obtain r w where rw: "kube_GetSecretData (cp_kubeClient cp) (ref_Namespace ref) (ref_Name ref) (env_world s) = (r, w)"
    by (cases "kube_GetSecretData (cp_kubeClient cp) (ref_Namespace ref) (ref_Name ref) (env_world s)")
  show ?thesis
    by (cases r)
       (auto simp: Some rw validateUserData_def resolveUserData_def on_world_def bind_call_def wrap_call_def
          return_call_def fail_call_def split: option.splits list.splits)
qed

section \<open>Images\<close>

text \<open>C13: Whatever edits and reconciles went before, the image a launch uses for a NodeClass as stored has
  the architecture asked for, and it is either one the catalogue named for that architecture under the
  selector the NodeClass has now, taken from status without any call, or the answer of a lookup made
  on the spot under that selector.\<close>

theorem launched_image_answers_present_selector:
  fixes s :: "('w, 'z) env_scheme"
  assumes "cond_spec cs" and "nc_reachable cs c m" and "resolveImage cp (ms_object m) arch s = (Ok img, s')"
  shows "img_Architecture img = arch \<and>
    (let sel = spec_ImageSelector (nc_Spec (ms_object m)) in
       (sel, arch, img_ID img) \<in> ms_answers m \<and> s' = s \<or> Resolve (cp_imageClient cp) sel arch s = (Ok img, s'))"
proof (cases "find (\<lambda>ri. ri_Architecture ri = arch) (CurrentResolvedImages (ms_object m))")
  case None
  with assms(3) show ?thesis
    by (auto simp: resolveImage_def bind_call_ok_iff wrap_call_ok_iff return_call_apply fail_call_apply split: if_splits)
next
  case (Some ri)
  then have ri: "ri \<in> set (CurrentResolvedImages (ms_object m))" "ri_Architecture ri = arch"
    by (auto simp: find_Some_iff)
  have "nc_invariant m" by (rule nc_reachable_invariant [OF assms(1,2)])
  then have "(spec_ImageSelector (nc_Spec (ms_object m)), arch, ri_ImageID ri) \<in> ms_answers m"
    using ri by (auto simp: nc_invariant_def sound_status_def)
  with Some assms(3) show ?thesis
    by (auto simp: resolveImage_def return_call_apply status_image_def)
qed

text \<open>A provider for the NodeClass of the run, whose image client is never asked.\<close>

definition still_provider :: "unit cloud_provider" where
  "still_provider =
     \<lparr>cp_kubeClient = still_kube,
      cp_instanceProvider = NewProvider \<lparr>sc_Create = (\<lambda>p w. (Panic, w)), sc_DeleteWithResult = (\<lambda>p w. (Panic, w)),
          sc_GetByID = (\<lambda>p w. (Panic, w)), sc_AllWithOpts = (\<lambda>p w. (Panic, w))\<rparr> ''prod'',
      cp_typeClient = (\<lambda>w. (Panic, w)), cp_imageClient = (\<lambda>q w. (Panic, w))\<rparr>"

theorem launched_image_answers_present_selector_witness:
  "\<exists>m img. nc_reachable example_conds one_snapshot m \<and>
     resolveImage still_provider (ms_object m) ArchitectureX86 still_env = (Ok img, still_env) \<and>
     (talos_selector, ArchitectureX86, img_ID img) \<in> ms_answers m"
proof -
  obtain m where m: "nc_reachable example_conds one_snapshot m" "spec_ImageSelector (nc_Spec (ms_object m)) = talos_selector"
    "\<lparr>ri_Architecture = ArchitectureX86, ri_ImageID = 7\<rparr> \<in> set (CurrentResolvedImages (ms_object m))"
    using new_machine_run by blast
  let ?found = "find (\<lambda>ri. ri_Architecture ri = ArchitectureX86) (CurrentResolvedImages (ms_object m))"
  have "?found \<noteq> None" using m(3) unfolding find_None_iff by force
  then obtain ri where "?found = Some ri" by blast
  then have r: "resolveImage still_provider (ms_object m) ArchitectureX86 still_env =
      (Ok (status_image (ri_ImageID ri) ArchitectureX86), still_env)"
    by (simp add: resolveImage_def return_call_apply)
  have "fst (Resolve (cp_imageClient still_provider) talos_selector ArchitectureX86 still_env) \<noteq> Ok x" for x
    by (cases rule: Resolve_cases [of talos_selector "cp_imageClient still_provider" ArchitectureX86 still_env])
       (auto simp: still_provider_def)
  with launched_image_answers_present_selector [OF example_conds_spec m(1) r] m(1,2) r show ?thesis
    unfolding Let_def by (metis fst_conv)
qed

end
