(* ===== verification/Type_Cache_Conc.thy ===== *)
theory Type_Cache_Conc
  imports Type_Cache_Correct
begin

text \<open>
  The same \<open>List\<close> run by many goroutines at once. A step is one access to shared state: a check of the
  cache under \<open>mu\<close>, taking \<open>refreshMu\<close>, the answer of the API, a store, or the computation of
  availability. Between any two of them the clock may advance, marks may be made and other
  goroutines may take theirs. What the two mutexes are for is proved here.
\<close>

section \<open>Goroutines\<close>

text \<open>
  Where a call of \<open>List\<close> is. From \<open>Holding\<close> to \<open>Failed\<close> it holds \<open>refreshMu\<close>; \<open>Answering\<close> is reached with
  and without it, since the deferred unlock runs on return.
\<close>

datatype list_phase =
    Outside
  | Waiting "string list"
  | Holding "string list"
  | Fetching "string list"
  | Storing "string list" "server_type list"
  | Failed "string list" sdk_error
  | Answering "string list" "instance_type list"
  | Returned "(err, instance_type list) outcome"

text \<open>\<open>cs_stored\<close> remembers when the cache was stored, the last time first; the code keeps only the last.\<close>

record conc_state =
  cs_provider :: type_provider
  cs_now :: go_time
  cs_refreshMu :: "nat option"
  cs_phase :: "nat \<Rightarrow> list_phase"
  cs_stored :: "go_time list"

abbreviation goto :: "nat \<Rightarrow> list_phase \<Rightarrow> conc_state \<Rightarrow> conc_state" where
  "goto i ph s \<equiv> s\<lparr>cs_phase := (cs_phase s)(i := ph)\<rparr>"

definition unlock :: "nat \<Rightarrow> conc_state \<Rightarrow> conc_state" where
  "unlock i s = (if cs_refreshMu s = Some i then s\<lparr>cs_refreshMu := None\<rparr> else s)"

definition listed :: "karp_core \<Rightarrow> conc_state \<Rightarrow> string list \<Rightarrow> instance_type list \<Rightarrow> instance_type list" where
  "listed kc s locs types =
     applyAvailability kc (cs_now s) (tp_unavailable (cs_provider s)) (filterByLocations kc types locs)"

inductive conc_step :: "karp_core \<Rightarrow> conc_state \<Rightarrow> conc_state \<Rightarrow> bool" for kc where
  fast_hit: "cs_phase s i = Outside \<Longrightarrow> freshCache (cs_now s) (cs_provider s) = Some types \<Longrightarrow>
     conc_step kc s (goto i (Answering locs types) s)"
| fast_miss: "cs_phase s i = Outside \<Longrightarrow> freshCache (cs_now s) (cs_provider s) = None \<Longrightarrow>
     conc_step kc s (goto i (Waiting locs) s)"
| acquire: "cs_phase s i = Waiting locs \<Longrightarrow> cs_refreshMu s = None \<Longrightarrow>
     conc_step kc s (goto i (Holding locs) (s\<lparr>cs_refreshMu := Some i\<rparr>))"
| second_hit: "cs_phase s i = Holding locs \<Longrightarrow> freshCache (cs_now s) (cs_provider s) = Some types \<Longrightarrow>
     conc_step kc s (goto i (Answering locs types) s)"
| second_miss: "cs_phase s i = Holding locs \<Longrightarrow> freshCache (cs_now s) (cs_provider s) = None \<Longrightarrow>
     conc_step kc s (goto i (Fetching locs) s)"
| api_answers: "cs_phase s i = Fetching locs \<Longrightarrow> conc_step kc s (goto i (Storing locs sts) s)"
| api_fails: "cs_phase s i = Fetching locs \<Longrightarrow> conc_step kc s (goto i (Failed locs e) s)"
| stores: "cs_phase s i = Storing locs sts \<Longrightarrow>
     conc_step kc s (goto i (Answering locs (map toInstanceType sts))
       (s\<lparr>cs_provider := store (cs_now s) (map toInstanceType sts) (cs_provider s),
          cs_stored := cs_now s # cs_stored s\<rparr>))"
| falls_back: "cs_phase s i = Failed locs e \<Longrightarrow> staleCache (cs_now s) (cs_provider s) = Some (types, age) \<Longrightarrow>
     conc_step kc s (goto i (Answering locs types) s)"
| gives_up: "cs_phase s i = Failed locs e \<Longrightarrow> staleCache (cs_now s) (cs_provider s) = None \<Longrightarrow>
     conc_step kc s (unlock i (goto i (Returned (Err (ErrSdk e))) s))"
| answers: "cs_phase s i = Answering locs types \<Longrightarrow>
     conc_step kc s (unlock i (goto i (Returned (Ok (listed kc s locs types))) s))"
| calls_again: "cs_phase s i = Returned r \<Longrightarrow> conc_step kc s (goto i Outside s)"
| marks: "conc_step kc s (s\<lparr>cs_provider := MarkUnavailable (cs_now s) st loc (cs_provider s)\<rparr>)"
| ticks: "0 \<le> d \<Longrightarrow> conc_step kc s (s\<lparr>cs_now := cs_now s + d\<rparr>)"

inductive_cases conc_stepE: "conc_step kc s s'"

lemmas conc_step_cases [consumes 1, case_names fast_hit fast_miss acquire second_hit second_miss api_answers
    api_fails stores falls_back gives_up answers calls_again marks ticks] = conc_stepE

definition conc_initial :: "conc_state \<Rightarrow> bool" where
  "conc_initial s \<longleftrightarrow>
     cs_provider s = NewTypeProvider \<and> cs_refreshMu s = None \<and> (\<forall>i. cs_phase s i = Outside) \<and> cs_stored s = []"

definition conc_reachable :: "karp_core \<Rightarrow> conc_state \<Rightarrow> bool" where
  "conc_reachable kc s \<longleftrightarrow> (\<exists>s0. conc_initial s0 \<and> (conc_step kc)\<^sup>*\<^sup>* s0 s)"

section \<open>The invariant\<close>

text \<open>Phases that hold the refresh lock, those that may, and those committed to a refresh.\<close>

fun holds_lock :: "list_phase \<Rightarrow> bool" where
  "holds_lock (Holding locs) = True"
| "holds_lock (Fetching locs) = True"
| "holds_lock (Storing locs sts) = True"
| "holds_lock (Failed locs e) = True"
| "holds_lock _ = False"

fun may_hold_lock :: "list_phase \<Rightarrow> bool" where
  "may_hold_lock (Answering locs types) = True"
| "may_hold_lock ph = holds_lock ph"

fun refreshing :: "list_phase \<Rightarrow> bool" where
  "refreshing (Fetching locs) = True"
| "refreshing (Storing locs sts) = True"
| "refreshing _ = False"

definition lock_ok :: "conc_state \<Rightarrow> bool" where
  "lock_ok s \<longleftrightarrow>
     (\<forall>i. (holds_lock (cs_phase s i) \<longrightarrow> cs_refreshMu s = Some i) \<and>
          (cs_refreshMu s = Some i \<longrightarrow> may_hold_lock (cs_phase s i)))"

text \<open>The catalogue is the one of the last store, stores are at least a TTL apart, and whoever refreshes
  found the last one expired.\<close>

fun spaced :: "go_time list \<Rightarrow> bool" where
  "spaced (t # u # ts) \<longleftrightarrow> u + cacheTTL \<le> t \<and> spaced (u # ts)"
| "spaced _ \<longleftrightarrow> True"

definition expired :: "conc_state \<Rightarrow> bool" where
  "expired s \<longleftrightarrow> (case cs_stored s of [] \<Rightarrow> True | t # ts \<Rightarrow> t + cacheTTL \<le> cs_now s)"

definition cache_ok :: "conc_state \<Rightarrow> bool" where
  "cache_ok s \<longleftrightarrow>
     (case cs_stored s of
        [] \<Rightarrow> tp_cachedTypes (cs_provider s) = None
      | t # ts \<Rightarrow> tp_cachedTypes (cs_provider s) \<noteq> None \<and> tp_cacheExpiry (cs_provider s) = t + cacheTTL) \<and>
     spaced (cs_stored s) \<and>
     (\<forall>i. refreshing (cs_phase s i) \<longrightarrow> expired s)"

lemma may_hold_lockI: "holds_lock ph \<Longrightarrow> may_hold_lock ph"
  by (cases ph) simp_all

lemma refreshing_holds: "refreshing ph \<Longrightarrow> holds_lock ph"
  by (cases ph) simp_all

lemma unlock_sel [simp]:
  "cs_provider (unlock i s) = cs_provider s" "cs_now (unlock i s) = cs_now s" "cs_phase (unlock i s) = cs_phase s"
  "cs_stored (unlock i s) = cs_stored s"
  "cs_refreshMu (unlock i s) = (if cs_refreshMu s = Some i then None else cs_refreshMu s)"
  by (simp_all add: unlock_def)

lemma MarkUnavailable_sel [simp]:
  "tp_cachedTypes (MarkUnavailable t st loc p) = tp_cachedTypes p"
  "tp_cacheExpiry (MarkUnavailable t st loc p) = tp_cacheExpiry p"
  "tp_cachedAt (MarkUnavailable t st loc p) = tp_cachedAt p"
  by (simp_all add: MarkUnavailable_def)

lemma spaced_Cons: "spaced (t # ts) \<longleftrightarrow> spaced ts \<and> (case ts of [] \<Rightarrow> True | u # us \<Rightarrow> u + cacheTTL \<le> t)"
  by (cases ts) auto

lemma cold_expired:
  "cache_ok s \<Longrightarrow> freshCache (cs_now s) (cs_provider s) = None \<longleftrightarrow> expired s"
  by (auto simp: cache_ok_def expired_def cache_iffs split: list.splits)

lemma lock_ok_step:
  assumes "conc_step kc s s'" and "lock_ok s"
  shows "lock_ok s'"
  using assms(1)
proof (cases rule: conc_step_cases)
  case (gives_up i locs e)
  then have "cs_refreshMu s = Some i" using assms(2) by (simp add: lock_ok_def)
  with assms(2) gives_up show ?thesis by (auto simp: lock_ok_def)
qed (use assms(2) in \<open>auto simp: lock_ok_def split: if_splits dest: may_hold_lockI\<close>)

lemma cache_ok_step:
  assumes "conc_step kc s s'" and "lock_ok s" and "cache_ok s"
  shows "cache_ok s'"
  using assms(1)
proof (cases rule: conc_step_cases)
  case (stores i locs sts)
  have "expired s" using assms(3) stores(2) by (metis cache_ok_def refreshing.simps(2))
  moreover have "\<not> refreshing (cs_phase s j)" if "j \<noteq> i" for j
    using that assms(2) stores(2) refreshing_holds unfolding lock_ok_def by (metis holds_lock.simps(3) option.inject)
  ultimately show ?thesis using assms(3) stores
    by (auto simp: cache_ok_def spaced_Cons expired_def store_def split: list.splits)
next
  case (second_miss i locs)
  with cold_expired [OF assms(3)] have "expired s" by simp
  with assms(3) second_miss show ?thesis by (auto simp: cache_ok_def expired_def split: list.splits)
next
  case (api_answers i locs sts)
  then have "expired s" using assms(3) by (metis cache_ok_def refreshing.simps(1))
  with assms(3) api_answers show ?thesis by (auto simp: cache_ok_def expired_def split: list.splits)
next
  case (ticks d)
  with assms(3) show ?thesis by (auto simp: cache_ok_def expired_def split: list.splits intro: order_trans add_increasing2)
qed (use assms(3) in \<open>auto simp: cache_ok_def expired_def split: if_splits list.splits\<close>)

interpretation refreshes: transition_system conc_initial "conc_step kc" "\<lambda>s. lock_ok s \<and> cache_ok s" for kc
proof unfold_locales
  show "conc_initial s \<Longrightarrow> lock_ok s \<and> cache_ok s" for s
    by (simp add: conc_initial_def lock_ok_def cache_ok_def NewTypeProvider_def)
  show "lock_ok s \<and> cache_ok s \<Longrightarrow> conc_step kc s s' \<Longrightarrow> lock_ok s' \<and> cache_ok s'" for s s'
    using lock_ok_step cache_ok_step by blast
qed

lemma conc_reachable_ok:
  assumes "conc_reachable kc s"
  shows "lock_ok s \<and> cache_ok s"
  using assms refreshes.reachable_inv unfolding conc_reachable_def by blast

section \<open>What the mutexes are for\<close>

lemma spaced_head: "spaced (t # ts) \<Longrightarrow> u \<in> set ts \<Longrightarrow> u + cacheTTL \<le> t"
proof (induction ts arbitrary: t)
  case Nil
  then show ?case by simp
next
  case (Cons v ts)
  then have "v + cacheTTL \<le> t" "u = v \<or> u + cacheTTL \<le> v" by auto
  moreover have "0 \<le> cacheTTL" by (simp add: cacheTTL_def time_defs)
  ultimately show ?case by auto
qed

lemma expired_all: "spaced (cs_stored s) \<Longrightarrow> expired s \<Longrightarrow> t \<in> set (cs_stored s) \<Longrightarrow> t + cacheTTL \<le> cs_now s"
  using spaced_head [of "hd (cs_stored s)" "tl (cs_stored s)" t]
  by (cases "cs_stored s") (auto simp: expired_def cacheTTL_def time_defs)

text \<open>C10: However calls interleave, at most one goroutine has the catalogue request in flight, so a burst
  of misses makes one request at a time; and none is in flight before the catalogue stored last, if
  any, is six hours old, so the misses that waited behind a successful refresh make no request.\<close>

theorem one_refresh_in_flight:
  assumes "conc_reachable kc s" and "cs_phase s i = Fetching locs"
  shows "(\<forall>j locs'. cs_phase s j = Fetching locs' \<longrightarrow> j = i) \<and> (\<forall>t \<in> set (cs_stored s). t + 6 * hour \<le> cs_now s)"
proof -
  have ok: "lock_ok s" "cache_ok s" using conc_reachable_ok [OF assms(1)] by simp_all
  have "cs_refreshMu s = Some j" if "cs_phase s j = Fetching locs'" for j locs'
    using ok(1) that unfolding lock_ok_def by (metis holds_lock.simps(2))
  moreover have "expired s" using ok(2) assms(2) unfolding cache_ok_def by (metis refreshing.simps(1))
  moreover have "spaced (cs_stored s)" using ok(2) by (simp add: cache_ok_def)
  ultimately show ?thesis
    using assms(2) expired_all [of s] unfolding cacheTTL_def by (metis option.inject)
qed

lemma spaced_nth: "spaced ts \<Longrightarrow> Suc k < length ts \<Longrightarrow> ts ! Suc k + cacheTTL \<le> ts ! k"
proof (induction ts arbitrary: k rule: spaced.induct)
  case (1 t u ts)
  then show ?case by (cases k) auto
qed auto

text \<open>Over any run and any number of goroutines the catalogue is replaced at most once in six hours:
  every store is at least that much later than the one before it, and the cache holds the last.\<close>

theorem stores_six_hours_apart:
  assumes "conc_reachable kc s" and "Suc k < length (cs_stored s)"
  shows "cs_stored s ! Suc k + 6 * hour \<le> cs_stored s ! k \<and>
         tp_cacheExpiry (cs_provider s) = hd (cs_stored s) + 6 * hour"
proof -
  have "cache_ok s" using conc_reachable_ok [OF assms(1)] by simp
  then show ?thesis using spaced_nth [OF _ assms(2)] assms(2)
    by (auto simp: cache_ok_def cacheTTL_def split: list.splits)
qed

lemma conc_two_steps: "conc_step kc s s1 \<Longrightarrow> conc_step kc s1 s2 \<Longrightarrow> (conc_step kc)\<^sup>*\<^sup>* s s2"
  by (meson converse_rtranclp_into_rtranclp r_into_rtranclp)

text \<open>C23: A goroutine that finds the cache warm is never kept waiting by a refresh: whoever holds the
  refresh lock and whatever the API does, its next two steps are the check and the answer, and it
  neither takes nor releases the lock.\<close>

theorem warm_calls_never_wait:
  assumes "conc_reachable kc s" and "cs_phase s i = Outside"
    and "freshCache (cs_now s) (cs_provider s) = Some types"
  shows "\<exists>s1 s2. conc_step kc s s1 \<and> conc_step kc s1 s2 \<and>
           cs_phase s2 = (cs_phase s)(i := Returned (Ok (listed kc s locs types))) \<and>
           cs_refreshMu s2 = cs_refreshMu s \<and> cs_provider s2 = cs_provider s"
proof -
  let ?s1 = "goto i (Answering locs types) s"
  let ?s2 = "unlock i (goto i (Returned (Ok (listed kc ?s1 locs types))) ?s1)"
  have "cs_refreshMu s \<noteq> Some i"
    using conc_reachable_ok [OF assms(1)] assms(2) by (auto simp: lock_ok_def)
  moreover have "listed kc ?s1 locs types = listed kc s locs types" by (simp add: listed_def)
  moreover have "conc_step kc s ?s1" using assms(2,3) by (rule conc_step.fast_hit)
  moreover have "conc_step kc ?s1 ?s2" by (rule conc_step.answers) simp
  ultimately show ?thesis by (intro exI [of _ ?s1] exI [of _ ?s2]) simp
qed

lemma answering_finishes:
  assumes "cs_phase s i = Answering locs types"
  shows "\<exists>s'. conc_step kc s s' \<and> cs_phase s' = (cs_phase s)(i := Returned (Ok (listed kc s locs types))) \<and>
           cs_refreshMu s' = (if cs_refreshMu s = Some i then None else cs_refreshMu s) \<and>
           cs_provider s' = cs_provider s \<and> cs_now s' = cs_now s"
  by (rule exI, rule conjI, rule conc_step.answers [OF assms]) simp

text \<open>How many steps of its own a call that holds the lock has left at most.\<close>

fun steps_left :: "list_phase \<Rightarrow> nat" where
  "steps_left (Holding locs) = 4"
| "steps_left (Fetching locs) = 3"
| "steps_left (Storing locs sts) = 2"
| "steps_left (Failed locs e) = 2"
| "steps_left (Answering locs types) = 1"
| "steps_left _ = 0"

lemma holder_can_move:
  assumes "may_hold_lock (cs_phase s i)"
  shows "\<exists>s'. conc_step kc s s' \<and> cs_phase s' i \<noteq> cs_phase s i"
proof (cases "cs_phase s i")
  case (Holding locs)
  then show ?thesis using conc_step.second_hit [OF Holding] conc_step.second_miss [OF Holding]
    by (cases "freshCache (cs_now s) (cs_provider s)") force+
next
  case (Fetching locs)
  then show ?thesis using conc_step.api_fails [OF Fetching] by force
next
  case (Storing locs sts)
  then show ?thesis using conc_step.stores [OF Storing, of kc] by (intro exI conjI) (assumption, simp)
next
  case (Failed locs e)
  show ?thesis
  proof (cases "staleCache (cs_now s) (cs_provider s)")
    case None
    then show ?thesis using conc_step.gives_up [OF Failed None, of kc] Failed by (intro exI conjI) (assumption, simp)
  next
    case (Some ta)
    then obtain types age where "staleCache (cs_now s) (cs_provider s) = Some (types, age)" by (cases ta) auto
    then show ?thesis using conc_step.falls_back [OF Failed, of types age kc] Failed by (intro exI conjI) (assumption, simp)
  qed
next
  case (Answering locs types)
  then show ?thesis using answering_finishes [OF Answering, of kc] by auto
qed (use assms in auto)

text \<open>C22: The refresh lock is never leaked: its holder can always take a step (the only one that waits on
  anything but itself is the API's answer), no other goroutine's step disturbs it, and each of its own
  brings it closer to its return, at most four away, on the paths that end in an error or a stale
  catalogue as well; the lock is released exactly when it returns.\<close>

theorem refresh_lock_released:
  assumes "conc_reachable kc s" and "cs_refreshMu s = Some i"
  shows "steps_left (cs_phase s i) \<in> {1..4} \<and> (\<exists>s'. conc_step kc s s' \<and> cs_phase s' i \<noteq> cs_phase s i) \<and>
    (\<forall>s'. conc_step kc s s' \<longrightarrow>
       (if cs_phase s' i = cs_phase s i then cs_refreshMu s' = Some i
        else steps_left (cs_phase s' i) < steps_left (cs_phase s i) \<and>
             cs_refreshMu s' = (if steps_left (cs_phase s' i) = 0 then None else Some i)))"
proof -
  have may: "may_hold_lock (cs_phase s i)" and lock: "lock_ok s"
    using conc_reachable_ok [OF assms(1)] assms(2) by (auto simp: lock_ok_def)
  have "if cs_phase s' i = cs_phase s i then cs_refreshMu s' = Some i
        else steps_left (cs_phase s' i) < steps_left (cs_phase s i) \<and>
             cs_refreshMu s' = (if steps_left (cs_phase s' i) = 0 then None else Some i)" if "conc_step kc s s'" for s'
    using that assms(2) may by (cases rule: conc_step_cases) (auto simp: fun_upd_apply)
  moreover have "steps_left (cs_phase s i) \<in> {1..4}" using may by (cases "cs_phase s i") auto
  ultimately show ?thesis using holder_can_move [OF may] by blast
qed

section \<open>A call that runs alone\<close>

text \<open>Up to the answer of the API a call that finds no fresh catalogue has made three steps.\<close>

lemma miss_run:
  assumes "cs_phase s i = Outside" and "cs_refreshMu s = None" and "freshCache (cs_now s) (cs_provider s) = None"
  shows "(conc_step kc)\<^sup>*\<^sup>* s (goto i (Fetching locs) (s\<lparr>cs_refreshMu := Some i\<rparr>))"
proof -
  let ?w = "goto i (Waiting locs) s"
  let ?h = "goto i (Holding locs) (s\<lparr>cs_refreshMu := Some i\<rparr>)"
  have "conc_step kc s ?w" using assms(1,3) by (rule conc_step.fast_miss)
  moreover have "conc_step kc ?w ?h" using conc_step.acquire [of ?w i locs kc] assms(2) by simp
  moreover have "conc_step kc ?h (goto i (Fetching locs) (s\<lparr>cs_refreshMu := Some i\<rparr>))"
    using conc_step.second_miss [of ?h i locs kc] assms(3) by simp
  ultimately show ?thesis by (meson converse_rtranclp_into_rtranclp rtranclp.rtrancl_refl)
qed

lemma wait_for_api:
  assumes "cs_now s \<le> t"
  shows "conc_step kc s (s\<lparr>cs_now := t\<rparr>)"
  using conc_step.ticks [of "t - cs_now s" kc s] assms by simp

lemma steps_trans [trans]: "(conc_step kc)\<^sup>*\<^sup>* s u \<Longrightarrow> conc_step kc u v \<Longrightarrow> (conc_step kc)\<^sup>*\<^sup>* s v"
  by (rule rtranclp.rtrancl_into_rtrancl)

text \<open>The state in which a call that ran alone has left everything.\<close>

definition after_call :: "nat \<Rightarrow> (err, instance_type list) outcome \<Rightarrow> type_provider \<Rightarrow> go_time \<Rightarrow> conc_state \<Rightarrow> conc_state \<Rightarrow> bool" where
  "after_call i r p t s s' \<longleftrightarrow>
     cs_phase s' = (cs_phase s)(i := Returned r) \<and> cs_provider s' = p \<and> cs_now s' = t \<and> cs_refreshMu s' = None"

lemma answer_run:
  assumes "(conc_step kc)\<^sup>*\<^sup>* s u" and "cs_phase u = (cs_phase s)(i := Answering locs types)"
    and "cs_refreshMu u = None \<or> cs_refreshMu u = Some i"
  shows "\<exists>s'. (conc_step kc)\<^sup>*\<^sup>* s s' \<and> after_call i (Ok (listed kc u locs types)) (cs_provider u) (cs_now u) s s' \<and>
           cs_stored s' = cs_stored u"
proof -
  let ?v = "unlock i (goto i (Returned (Ok (listed kc u locs types))) u)"
  have "conc_step kc u ?v" by (rule conc_step.answers) (simp add: assms(2))
  with assms show ?thesis by (intro exI [of _ ?v]) (auto simp: after_call_def intro: steps_trans)
qed

lemma refresh_run:
  assumes "cs_phase s i = Outside" and "cs_refreshMu s = None" and "freshCache (cs_now s) (cs_provider s) = None"
    and "cs_now s \<le> t"
  shows "\<exists>u. (conc_step kc)\<^sup>*\<^sup>* s u \<and> cs_phase u = (cs_phase s)(i := Answering locs (map toInstanceType sts)) \<and>
           cs_refreshMu u = Some i \<and> cs_provider u = store t (map toInstanceType sts) (cs_provider s) \<and> cs_now u = t \<and>
           cs_stored u = t # cs_stored s"
proof -
  let ?f = "goto i (Fetching locs) (s\<lparr>cs_refreshMu := Some i\<rparr>)"
  let ?g = "?f\<lparr>cs_now := t\<rparr>"
  let ?h = "goto i (Storing locs sts) ?g"
  let ?u = "goto i (Answering locs (map toInstanceType sts))
      (?h\<lparr>cs_provider := store (cs_now ?h) (map toInstanceType sts) (cs_provider ?h), cs_stored := cs_now ?h # cs_stored ?h\<rparr>)"
  have "(conc_step kc)\<^sup>*\<^sup>* s ?f" by (rule miss_run [OF assms(1-3)])
  also have "conc_step kc ?f ?g" using wait_for_api [of ?f t kc] assms(4) by simp
  also have "conc_step kc ?g ?h" by (rule conc_step.api_answers) simp
  also have "conc_step kc ?h ?u" by (rule conc_step.stores) simp
  finally show ?thesis by (intro exI [of _ ?u]) simp
qed

lemma failed_run:
  assumes "cs_phase s i = Outside" and "cs_refreshMu s = None" and "freshCache (cs_now s) (cs_provider s) = None"
    and "cs_now s \<le> t"
  shows "\<exists>u. (conc_step kc)\<^sup>*\<^sup>* s u \<and> cs_phase u = (cs_phase s)(i := Failed locs e) \<and>
           cs_refreshMu u = Some i \<and> cs_provider u = cs_provider s \<and> cs_now u = t"
proof -
  let ?f = "goto i (Fetching locs) (s\<lparr>cs_refreshMu := Some i\<rparr>)"
  let ?g = "?f\<lparr>cs_now := t\<rparr>"
  have "(conc_step kc)\<^sup>*\<^sup>* s ?f" by (rule miss_run [OF assms(1-3)])
  also have "conc_step kc ?f ?g" using wait_for_api [of ?f t kc] assms(4) by simp
  also have "conc_step kc ?g (goto i (Failed locs e) ?g)" by (rule conc_step.api_fails) simp
  finally show ?thesis by (intro exI [of _ "goto i (Failed locs e) ?g"]) simp
qed

text \<open>C11: The whole-call model of \<open>List\<close> is the interleaved one with nobody else moving: whatever \<open>List\<close>
  returns, a goroutine alone can take the same call step by step to the same result, leaving the same
  catalogue, expiry and marks at the same time, and the lock free.\<close>

theorem list_alone_refines_whole_call:
  assumes "cs_phase s i = Outside" and "cs_refreshMu s = None"
    and "cs_provider s = te_types e" and "cs_now s = clock (env_world e)"
    and "List_types kc clock client locs e = (r, e')" and "r \<noteq> Panic"
    and "clock (env_world e) \<le> clock (env_world e')"
  shows "\<exists>s'. (conc_step kc)\<^sup>*\<^sup>* s s' \<and> cs_phase s' = (cs_phase s)(i := Returned r) \<and>
           cs_provider s' = te_types e' \<and> cs_now s' = clock (env_world e') \<and> cs_refreshMu s' = None"
proof (cases rule: list_cases [of clock e kc client locs])
  case (hit types)
  let ?u = "goto i (Answering locs types) s"
  have "conc_step kc s ?u" using hit(1) assms(1,3,4) by (intro conc_step.fast_hit) simp_all
  from answer_run [of kc s ?u i locs types, OF r_into_rtranclp, OF this] assms(2-5) hit(2) show ?thesis
    by (auto simp: after_call_def listed_def offered_def)
next
  case (refreshed sts w)
  with assms(5,7) have "cs_now s \<le> clock w" "r = Ok (offered kc clock locs (map toInstanceType sts) e')"
    "te_types e' = store (clock w) (map toInstanceType sts) (te_types e)" "env_world e' = w"
    by (auto simp: Let_def assms(4))
  note e' = this
  obtain u where u: "(conc_step kc)\<^sup>*\<^sup>* s u" "cs_phase u = (cs_phase s)(i := Answering locs (map toInstanceType sts))"
      "cs_refreshMu u = Some i" "cs_provider u = store (clock w) (map toInstanceType sts) (cs_provider s)"
      "cs_now u = clock w"
    using refresh_run [OF assms(1,2) _ e'(1)] refreshed(1) assms(3,4) by metis
  from answer_run [OF u(1,2)] u(3-5) e' assms(3) show ?thesis
    by (auto simp: after_call_def listed_def offered_def)
next
  case (stale x w types)
  with assms(5,7) have e': "cs_now s \<le> clock w" "r = Ok (offered kc clock locs types e')" "te_types e' = te_types e"
    "env_world e' = w"
    by (auto simp: Let_def assms(4) offered_def)
  obtain u where u: "(conc_step kc)\<^sup>*\<^sup>* s u" "cs_phase u = (cs_phase s)(i := Failed locs x)"
      "cs_refreshMu u = Some i" "cs_provider u = cs_provider s" "cs_now u = clock w"
    using failed_run [OF assms(1,2) _ e'(1)] stale(1) assms(3,4) by metis
  have "staleCache (cs_now u) (cs_provider u) = Some (types, cs_now u - tp_cachedAt (cs_provider u))"
    using stale(3) u(4) assms(3) by (simp add: staleCache_Some_iff)
  then have "conc_step kc u (goto i (Answering locs types) u)" using u(2) by (intro conc_step.falls_back) simp_all
  from answer_run [OF steps_trans [OF u(1) this], of i locs types] u(2-5) e' assms(3) show ?thesis
    by (auto simp: after_call_def listed_def offered_def)
next
  case (cold x w)
  with assms(5,7) have e': "cs_now s \<le> clock w" "r = Err (ErrSdk x)" "te_types e' = te_types e" "env_world e' = w"
    by (auto simp: assms(4))
  obtain u where u: "(conc_step kc)\<^sup>*\<^sup>* s u" "cs_phase u = (cs_phase s)(i := Failed locs x)"
      "cs_refreshMu u = Some i" "cs_provider u = cs_provider s" "cs_now u = clock w"
    using failed_run [OF assms(1,2) _ e'(1)] cold(1) assms(3,4) by metis
  let ?v = "unlock i (goto i (Returned (Err (ErrSdk x))) u)"
  have "staleCache (cs_now u) (cs_provider u) = None" using cold(3) u(4) assms(3) by (simp add: staleCache_None_iff)
  then have "conc_step kc u ?v" using u(2) by (intro conc_step.gives_up) simp_all
  with steps_trans [OF u(1) this] u e' assms(3) show ?thesis by (intro exI [of _ ?v]) simp
next
  case (panicked w)
  with assms(5,6) show ?thesis by simp
qed

section \<open>Runs for the witnesses\<close>

definition cold_start :: conc_state where
  "cold_start =
     \<lparr>cs_provider = NewTypeProvider, cs_now = 0, cs_refreshMu = None, cs_phase = (\<lambda>i. Outside), cs_stored = []\<rparr>"

lemma cold_start_initial: "conc_initial cold_start"
  by (simp add: conc_initial_def cold_start_def)

lemma cold_start_reaches: "(conc_step kc)\<^sup>*\<^sup>* cold_start s \<Longrightarrow> conc_reachable kc s"
  using cold_start_initial unfolding conc_reachable_def by blast

lemma cold_start_misses:
  "cs_phase cold_start i = Outside" "cs_refreshMu cold_start = None"
  "freshCache (cs_now cold_start) (cs_provider cold_start) = None" "cs_stored cold_start = []"
  by (simp_all add: cold_start_def NewTypeProvider_def freshCache_def)

lemma first_refresh:
  obtains s where "conc_reachable kc s" "cs_phase s = (\<lambda>i. Outside)" "cs_refreshMu s = None"
    "cs_provider s = store 5 [] NewTypeProvider" "cs_now s = 5" "cs_stored s = [5]"
proof -
  obtain u where u: "(conc_step kc)\<^sup>*\<^sup>* cold_start u" "cs_phase u = (cs_phase cold_start)(0 := Answering [] (map toInstanceType []))"
      "cs_refreshMu u = Some 0" "cs_provider u = store 5 (map toInstanceType []) (cs_provider cold_start)" "cs_now u = 5"
      "cs_stored u = 5 # cs_stored cold_start"
    using refresh_run [of cold_start 0 5 kc "[]" "[]"] cold_start_misses
    by (auto simp: cold_start_def)
  obtain v r where v: "(conc_step kc)\<^sup>*\<^sup>* cold_start v" "cs_phase v = (cs_phase cold_start)(0 := Returned r)"
      "cs_refreshMu v = None" "cs_provider v = cs_provider u" "cs_now v = 5" "cs_stored v = cs_stored u"
    using answer_run [OF u(1,2)] u(3,5) unfolding after_call_def by auto
  let ?s = "goto 0 Outside v"
  have "conc_step kc v ?s" by (rule conc_step.calls_again [where r = r]) (simp add: v(2))
  then have "conc_reachable kc ?s" by (rule cold_start_reaches [OF steps_trans [OF v(1)]])
  moreover have "cs_phase ?s = (\<lambda>i. Outside)" by (simp add: v(2) cold_start_def fun_eq_iff)
  moreover have "cs_refreshMu ?s = None" "cs_provider ?s = store 5 [] NewTypeProvider" "cs_now ?s = 5"
    "cs_stored ?s = [5]"
    using u v by (simp_all add: cold_start_def)
  ultimately show thesis by (rule that)
qed

theorem one_refresh_in_flight_witness:
  "\<exists>s. conc_reachable example_core s \<and> cs_phase s 3 = Fetching [''nbg1''] \<and>
     (\<forall>j locs'. cs_phase s j = Fetching locs' \<longrightarrow> j = 3)"
proof -
  let ?s = "goto 3 (Fetching [''nbg1'']) (cold_start\<lparr>cs_refreshMu := Some 3\<rparr>)"
  have r: "conc_reachable example_core ?s"
    by (rule cold_start_reaches [OF miss_run]) (simp_all add: cold_start_misses)
  have f: "cs_phase ?s 3 = Fetching [''nbg1'']" by simp
  from one_refresh_in_flight [OF r f] r f show ?thesis by blast
qed

theorem warm_calls_never_wait_witness:
  "\<exists>s s1 s2. conc_reachable example_core s \<and> conc_step example_core s s1 \<and> conc_step example_core s1 s2 \<and>
     cs_phase s2 = (cs_phase s)(4 := Returned (Ok (listed example_core s [] [])))"
proof -
  obtain s where s: "conc_reachable example_core s" "cs_phase s = (\<lambda>i. Outside)" "cs_refreshMu s = None"
    "cs_provider s = store 5 [] NewTypeProvider" "cs_now s = 5" "cs_stored s = [5]"
    by (rule first_refresh)
  have "freshCache (cs_now s) (cs_provider s) = Some []"
    by (simp add: s(4,5) freshCache_def store_def cacheTTL_def time_defs)
  from warm_calls_never_wait [OF s(1) _ this, of 4 "[]"] s(1,2) show ?thesis by metis
qed

theorem refresh_lock_released_witness:
  "\<exists>s. conc_reachable example_core s \<and> cs_refreshMu s = Some 3 \<and> steps_left (cs_phase s 3) \<in> {1..4} \<and>
     (\<exists>s'. conc_step example_core s s' \<and> cs_phase s' 3 \<noteq> cs_phase s 3)"
proof -
  let ?s = "goto 3 (Fetching [''nbg1'']) (cold_start\<lparr>cs_refreshMu := Some 3\<rparr>)"
  have r: "conc_reachable example_core ?s"
    by (rule cold_start_reaches [OF miss_run]) (simp_all add: cold_start_misses)
  from refresh_lock_released [OF r, of 3] r show ?thesis by (intro exI [of _ ?s]) simp
qed

theorem list_alone_refines_whole_call_witness:
  "\<exists>s'. (conc_step example_core)\<^sup>*\<^sup>* cold_start s' \<and>
     cs_phase s' = (cs_phase cold_start)(7 := Returned (Err (ErrSdk (SdkError None ''503'')))) \<and> cs_refreshMu s' = None"
proof -
  let ?e = "toy_tenv 0 toy_down NewTypeProvider"
  let ?e' = "(record_metric RecordCacheMiss ?e)\<lparr>env_world := (second, toy_down)\<rparr>"
  have "toy_types_client (env_world ?e) = (Err (SdkError None ''503''), (second, toy_down))"
    by (simp add: toy_tenv_def toy_types_client_def toy_down_def)
  moreover have "tp_cachedTypes (te_types ?e) = None" by (simp add: toy_tenv_def NewTypeProvider_def)
  ultimately have "List_types example_core toy_clock toy_types_client [] ?e = (Err (ErrSdk (SdkError None ''503'')), ?e')"
    using List_types_miss [of toy_clock ?e] List_refresh_err [of toy_types_client ?e] by (simp add: cache_iffs)
  from list_alone_refines_whole_call [OF _ _ _ _ this, of cold_start 7] show ?thesis
    by (auto simp: cold_start_def toy_tenv_def toy_clock_def time_defs)
qed

end
