(* ===== verification/Catalogue_Heap.thy ===== *)
theory Catalogue_Heap
  imports Selection
begin

text \<open>
  The catalogue passes with their pointers. \<open>filterByLocations\<close> returns the cached slice itself or types
  that share the cached offerings, \<open>applyAvailability\<close> copies types and offerings, and
  \<open>markImagelessArchesUnavailable\<close> then writes into the offerings it is given. The other theories treat
  all three as functions on values; that is right only because the copies keep the writes away from
  the cache and from each other, which is what is proved here on an explicit store.
\<close>

section \<open>The store\<close>

text \<open>
  A pointer is the index of its cell and allocation appends. The maps inside a type are never written,
  so they are values.
\<close>

record type_cell =
  tc_Name :: string
  tc_Requirements :: requirements
  tc_Offerings :: "nat list"
  tc_Capacity :: resource_list
  tc_KubeReserved :: resource_list

record heap =
  h_types :: "type_cell list"
  h_offs :: "offering list"

definition new_type :: "type_cell \<Rightarrow> heap \<Rightarrow> nat \<times> heap" where
  "new_type cell h = (length (h_types h), h\<lparr>h_types := h_types h @ [cell]\<rparr>)"

definition new_off :: "offering \<Rightarrow> heap \<Rightarrow> nat \<times> heap" where
  "new_off off h = (length (h_offs h), h\<lparr>h_offs := h_offs h @ [off]\<rparr>)"

definition read_type :: "heap \<Rightarrow> nat \<Rightarrow> instance_type" where
  "read_type h p =
     (let cell = h_types h ! p
      in \<lparr>it_Name = tc_Name cell, it_Requirements = tc_Requirements cell,
          it_Offerings = map (\<lambda>q. h_offs h ! q) (tc_Offerings cell),
          it_Capacity = tc_Capacity cell, it_KubeReserved = tc_KubeReserved cell\<rparr>)"

definition read_types :: "heap \<Rightarrow> nat list \<Rightarrow> instance_type list" where
  "read_types h ps = map (read_type h) ps"

lemma read_types_simps [simp]: "read_types h [] = []" "read_types h (p # ps) = read_type h p # read_types h ps"
  by (simp_all add: read_types_def)

section \<open>The passes\<close>

fun filter_loop :: "karp_core \<Rightarrow> string list \<Rightarrow> nat list \<Rightarrow> heap \<Rightarrow> nat list \<times> heap" where
  "filter_loop kc locations [] h = ([], h)"
| "filter_loop kc locations (p # ps) h =
     (let cell = h_types h ! p;
          filtered = filter (\<lambda>q. zone_of kc (h_offs h ! q) \<in> set locations) (tc_Offerings cell)
      in if filtered = [] then filter_loop kc locations ps h
         else (let (p', h1) = new_type (cell\<lparr>tc_Offerings := filtered\<rparr>) h;
                   (ps', h2) = filter_loop kc locations ps h1
               in (p' # ps', h2)))"

definition filter_in :: "karp_core \<Rightarrow> nat list \<Rightarrow> string list \<Rightarrow> heap \<Rightarrow> nat list \<times> heap" where
  "filter_in kc types locations h = (if locations = [] then (types, h) else filter_loop kc locations types h)"

fun copy_offerings ::
  "karp_core \<Rightarrow> go_time \<Rightarrow> unavailable_cache \<Rightarrow> string \<Rightarrow> nat list \<Rightarrow> heap \<Rightarrow> nat list \<times> heap" where
  "copy_offerings kc now c name [] h = ([], h)"
| "copy_offerings kc now c name (q # qs) h =
     (let (q', h1) = new_off (available_offering kc now c name (h_offs h ! q)) h;
          (qs', h2) = copy_offerings kc now c name qs h1
      in (q' # qs', h2))"

fun apply_in :: "karp_core \<Rightarrow> go_time \<Rightarrow> unavailable_cache \<Rightarrow> nat list \<Rightarrow> heap \<Rightarrow> nat list \<times> heap" where
  "apply_in kc now c [] h = ([], h)"
| "apply_in kc now c (p # ps) h =
     (let cell = h_types h ! p;
          (qs, h1) = copy_offerings kc now c (tc_Name cell) (tc_Offerings cell) h;
          (p', h2) = new_type (cell\<lparr>tc_Offerings := qs\<rparr>) h1;
          (ps', h3) = apply_in kc now c ps h2
      in (p' # ps', h3))"

fun clear_offerings :: "nat list \<Rightarrow> heap \<Rightarrow> heap" where
  "clear_offerings [] h = h"
| "clear_offerings (q # qs) h =
     clear_offerings qs (h\<lparr>h_offs := (h_offs h)[q := (h_offs h ! q)\<lparr>off_Available := False\<rparr>]\<rparr>)"

fun mark_in :: "karp_core \<Rightarrow> node_class \<Rightarrow> nat list \<Rightarrow> heap \<Rightarrow> heap" where
  "mark_in kc nc [] h = h"
| "mark_in kc nc (p # ps) h =
     mark_in kc nc ps
       (if hasResolvedImage nc (hcloudArchFor kc (read_type h p)) then h
        else clear_offerings (tc_Offerings (h_types h ! p)) h)"

text \<open>What a listing and the marking after it do, from the pointers of the cached catalogue.\<close>

definition scheduler_view ::
  "karp_core \<Rightarrow> go_time \<Rightarrow> unavailable_cache \<Rightarrow> node_class \<Rightarrow> string list \<Rightarrow> nat list \<Rightarrow> heap \<Rightarrow> nat list \<times> heap" where
  "scheduler_view kc now c nc locations cached h =
     (let (ps, h1) = filter_in kc cached locations h;
          (qs, h2) = apply_in kc now c ps h1
      in (qs, mark_in kc nc qs h2))"

section \<open>Growing the store\<close>

text \<open>Every pointer in use is of an allocated cell.\<close>

definition type_ok :: "heap \<Rightarrow> nat \<Rightarrow> bool" where
  "type_ok h p \<longleftrightarrow> p < length (h_types h) \<and> (\<forall>q \<in> set (tc_Offerings (h_types h ! p)). q < length (h_offs h))"

definition grows :: "heap \<Rightarrow> heap \<Rightarrow> bool" where
  "grows h h' \<longleftrightarrow> (\<exists>ts os. h_types h' = h_types h @ ts \<and> h_offs h' = h_offs h @ os)"

lemma grows_refl [simp]: "grows h h"
  by (simp add: grows_def)

lemma grows_trans [trans]: "grows h h1 \<Longrightarrow> grows h1 h2 \<Longrightarrow> grows h h2"
  by (auto simp: grows_def)

lemma grows_new: "grows h (h\<lparr>h_types := h_types h @ ts\<rparr>)" "grows h (h\<lparr>h_offs := h_offs h @ os\<rparr>)"
  by (auto simp: grows_def)

lemma grows_cells:
  assumes "grows h h'" and "type_ok h p"
  shows "h_types h' ! p = h_types h ! p" "type_ok h' p" "read_type h' p = read_type h p"
proof -
  obtain ts os where g: "h_types h' = h_types h @ ts" "h_offs h' = h_offs h @ os" using assms(1) by (auto simp: grows_def)
  have p: "p < length (h_types h)" "\<And>q. q \<in> set (tc_Offerings (h_types h ! p)) \<Longrightarrow> q < length (h_offs h)"
    using assms(2) by (auto simp: type_ok_def)
  show c: "h_types h' ! p = h_types h ! p" using g p by (simp add: nth_append)
  show "type_ok h' p" using g p c by (auto simp: type_ok_def intro: trans_less_add1)
  show "read_type h' p = read_type h p" using g p c by (auto simp: read_type_def Let_def nth_append)
qed

lemma grows_read: "grows h h' \<Longrightarrow> \<forall>p \<in> set ps. type_ok h p \<Longrightarrow> read_types h' ps = read_types h ps"
  by (simp add: read_types_def grows_cells)

lemma grows_length: "grows h h' \<Longrightarrow> length (h_offs h) \<le> length (h_offs h')"
  by (auto simp: grows_def)

section \<open>The passes read back\<close>

lemma filter_loop_reads:
  assumes "filter_loop kc locs ps h = (ps', h')" and "\<forall>p \<in> set ps. type_ok h p"
  shows "grows h h' \<and> h_offs h' = h_offs h \<and> (\<forall>p \<in> set ps'. type_ok h' p) \<and>
         read_types h' ps' = filter (\<lambda>it. it_Offerings it \<noteq> []) (map (filter_type kc locs) (read_types h ps))"
  using assms
proof (induction ps arbitrary: ps' h)
  case Nil
  then show ?case by (simp add: read_types_def)
next
  case (Cons p ps)
  let ?cell = "h_types h ! p"
  let ?f = "filter (\<lambda>q. zone_of kc (h_offs h ! q) \<in> set locs) (tc_Offerings ?cell)"
  have ft: "filter_type kc locs (read_type h p) = (read_type h p)\<lparr>it_Offerings := map (\<lambda>q. h_offs h ! q) ?f\<rparr>"
    by (simp add: filter_type_def read_type_def Let_def filter_map comp_def)
  show ?case
  proof (cases "?f = []")
    case True
    with Cons.prems(1) have "filter_loop kc locs ps h = (ps', h')" by (simp add: Let_def)
    with Cons.IH [OF this] Cons.prems(2) True ft show ?thesis by simp
  next
    case False
    let ?h1 = "h\<lparr>h_types := h_types h @ [?cell\<lparr>tc_Offerings := ?f\<rparr>]\<rparr>"
    let ?p = "length (h_types h)"
    obtain rest where rest: "filter_loop kc locs ps ?h1 = (rest, h')" "ps' = ?p # rest"
      using Cons.prems(1) False by (auto simp: Let_def new_type_def split: prod.splits)
    have g1: "grows h ?h1" by (rule grows_new)
    have "\<forall>p \<in> set ps. type_ok ?h1 p" using Cons.prems(2) grows_cells(2) [OF g1] by simp
    note IH = Cons.IH [OF rest(1) this]
    have p: "type_ok ?h1 ?p" using Cons.prems(2) by (simp add: type_ok_def nth_append)
    have "read_type h' ?p = filter_type kc locs (read_type h p)"
      using grows_cells(3) [OF _ p, of h'] IH unfolding ft
      by (simp add: read_type_def Let_def nth_append)
    moreover have "read_types ?h1 ps = read_types h ps" using grows_read [OF g1] Cons.prems(2) by simp
    moreover have "it_Offerings (filter_type kc locs (read_type h p)) \<noteq> []" using False ft by simp
    moreover have "grows h h'" using g1 IH grows_trans by blast
    ultimately show ?thesis using IH rest(2) grows_cells(2) [OF _ p, of h'] by simp
  qed
qed

lemma filter_in_reads:
  assumes "filter_in kc ps locs h = (ps', h')" and "\<forall>p \<in> set ps. type_ok h p"
  shows "grows h h' \<and> (\<forall>p \<in> set ps'. type_ok h' p) \<and> read_types h' ps' = filterByLocations kc (read_types h ps) locs"
  using assms filter_loop_reads [of kc locs ps h ps' h'] by (auto simp: filter_in_def filterByLocations_def split: if_splits)

lemma copy_offerings_result:
  assumes "\<forall>q \<in> set qs. q < length (h_offs h)"
  shows "copy_offerings kc now c name qs h =
    ([length (h_offs h) ..< length (h_offs h) + length qs],
     h\<lparr>h_offs := h_offs h @ map (\<lambda>q. available_offering kc now c name (h_offs h ! q)) qs\<rparr>)"
  using assms
proof (induction qs arbitrary: h)
  case Nil
  then show ?case by simp
next
  case (Cons q qs)
  let ?h1 = "h\<lparr>h_offs := h_offs h @ [available_offering kc now c name (h_offs h ! q)]\<rparr>"
  have "map (\<lambda>q. available_offering kc now c name (h_offs ?h1 ! q)) qs =
      map (\<lambda>q. available_offering kc now c name (h_offs h ! q)) qs"
    using Cons.prems by (simp add: nth_append)
  moreover have "\<forall>q \<in> set qs. q < length (h_offs ?h1)" using Cons.prems by auto
  ultimately show ?case using Cons.IH [of ?h1] by (simp add: new_off_def Let_def upt_rec)
qed

text \<open>The offerings of the copies are cells of their own, shared with nothing allocated before and with no
  other copy.\<close>

definition own_offerings :: "heap \<Rightarrow> nat list \<Rightarrow> nat list" where
  "own_offerings h ps = concat (map (\<lambda>p. tc_Offerings (h_types h ! p)) ps)"

lemma own_offerings_grows: "grows h h' \<Longrightarrow> \<forall>p \<in> set ps. type_ok h p \<Longrightarrow> own_offerings h' ps = own_offerings h ps"
  by (induction ps) (simp_all add: own_offerings_def grows_cells)

lemma apply_in_reads:
  assumes "apply_in kc now c ps h = (ps', h')" and "\<forall>p \<in> set ps. type_ok h p"
  shows "grows h h' \<and> (\<forall>p \<in> set ps'. type_ok h' p) \<and> read_types h' ps' = applyAvailability kc now c (read_types h ps) \<and>
         (\<forall>q \<in> set (own_offerings h' ps'). length (h_offs h) \<le> q) \<and> distinct (own_offerings h' ps')"
  using assms
proof (induction ps arbitrary: ps' h)
  case Nil
  then show ?case by (simp add: read_types_def applyAvailability_def own_offerings_def)
next
  case (Cons p ps)
  let ?cell = "h_types h ! p"
  let ?n = "length (h_offs h)" and ?m = "length (tc_Offerings (h_types h ! p))"
  let ?offs = "map (\<lambda>q. available_offering kc now c (tc_Name ?cell) (h_offs h ! q)) (tc_Offerings ?cell)"
  let ?h1 = "h\<lparr>h_offs := h_offs h @ ?offs\<rparr>"
  let ?h2 = "?h1\<lparr>h_types := h_types h @ [?cell\<lparr>tc_Offerings := [?n ..< ?n + ?m]\<rparr>]\<rparr>"
  let ?p = "length (h_types h)"
  have "copy_offerings kc now c (tc_Name ?cell) (tc_Offerings ?cell) h = ([?n ..< ?n + ?m], ?h1)"
    using Cons.prems(2) by (intro copy_offerings_result) (simp add: type_ok_def)
  then obtain rest where rest: "apply_in kc now c ps ?h2 = (rest, h')" "ps' = ?p # rest"
    using Cons.prems(1) by (auto simp: Let_def new_type_def split: prod.splits)
  have g: "grows h ?h2" by (auto simp: grows_def)
  have ok: "\<forall>p \<in> set ps. type_ok ?h2 p" using Cons.prems(2) grows_cells(2) [OF g] by simp
  note IH = Cons.IH [OF rest(1) ok]
  have p: "type_ok ?h2 ?p" by (auto simp: type_ok_def nth_append)
  have cell: "h_types h' ! ?p = ?cell\<lparr>tc_Offerings := [?n ..< ?n + ?m]\<rparr>"
    using grows_cells(1) [OF _ p, of h'] IH by simp
  have "map (\<lambda>q. (h_offs h @ ?offs) ! q) [?n ..< ?n + ?m] = ?offs"
    by (rule nth_equalityI) (auto simp: nth_append)
  then have "read_type h' ?p =
      (read_type h p)\<lparr>it_Offerings := map (available_offering kc now c (it_Name (read_type h p))) (it_Offerings (read_type h p))\<rparr>"
    using grows_cells(3) [OF _ p, of h'] IH by (simp add: read_type_def Let_def comp_def)
  moreover have "read_types ?h2 ps = read_types h ps" using grows_read [OF g] Cons.prems(2) by simp
  moreover have "own_offerings h' ps' = [?n ..< ?n + ?m] @ own_offerings h' rest"
    by (simp add: own_offerings_def rest(2) cell)
  moreover have "grows h h'" using g IH grows_trans by blast
  ultimately show ?case using IH rest(2) grows_cells(2) [OF _ p, of h']
    by (auto simp: applyAvailability_def)
qed

section \<open>Writing into the copies\<close>

lemma clear_offerings_sel [simp]:
  "h_types (clear_offerings qs h) = h_types h" "length (h_offs (clear_offerings qs h)) = length (h_offs h)"
  by (induction qs h rule: clear_offerings.induct) simp_all

lemma clear_offerings_nth:
  "\<forall>q \<in> set qs. q < length (h_offs h) \<Longrightarrow>
     h_offs (clear_offerings qs h) ! i =
       (if i \<in> set qs then (h_offs h ! i)\<lparr>off_Available := False\<rparr> else h_offs h ! i)"
  by (induction qs h rule: clear_offerings.induct) (auto simp: nth_list_update)

lemma mark_in_sel [simp]:
  "h_types (mark_in kc nc ps h) = h_types h" "length (h_offs (mark_in kc nc ps h)) = length (h_offs h)"
  by (induction ps arbitrary: h) simp_all

lemma mark_in_untouched:
  assumes "\<forall>p \<in> set ps. type_ok h p" and "i \<notin> set (own_offerings h ps)"
  shows "h_offs (mark_in kc nc ps h) ! i = h_offs h ! i"
  using assms
proof (induction ps arbitrary: h)
  case Nil
  then show ?case by simp
next
  case (Cons p ps)
  let ?h1 = "if hasResolvedImage nc (hcloudArchFor kc (read_type h p)) then h
             else clear_offerings (tc_Offerings (h_types h ! p)) h"
  have "\<forall>p \<in> set ps. type_ok ?h1 p" "i \<notin> set (own_offerings ?h1 ps)"
    using Cons.prems by (auto simp: type_ok_def own_offerings_def)
  then have "h_offs (mark_in kc nc ps ?h1) ! i = h_offs ?h1 ! i" by (rule Cons.IH)
  then show ?case using Cons.prems clear_offerings_nth [of "tc_Offerings (h_types h ! p)" h i]
    by (simp add: type_ok_def own_offerings_def)
qed

lemma read_type_cong:
  "h_types h' = h_types h \<Longrightarrow> \<forall>q \<in> set (tc_Offerings (h_types h ! p)). h_offs h' ! q = h_offs h ! q \<Longrightarrow>
     read_type h' p = read_type h p"
  by (simp add: read_type_def Let_def)

lemma mark_in_reads:
  assumes "\<forall>p \<in> set ps. type_ok h p" and "distinct (own_offerings h ps)"
  shows "read_types (mark_in kc nc ps h) ps = markImagelessArchesUnavailable kc (read_types h ps) nc"
  using assms
proof (induction ps arbitrary: h)
  case Nil
  then show ?case by (simp add: read_types_def markImagelessArchesUnavailable_def)
next
  case (Cons p ps)
  let ?qs = "tc_Offerings (h_types h ! p)"
  let ?h1 = "if hasResolvedImage nc (hcloudArchFor kc (read_type h p)) then h else clear_offerings ?qs h"
  have ok: "\<forall>p \<in> set ps. type_ok ?h1 p" and d: "distinct (own_offerings ?h1 ps)"
    and own: "own_offerings ?h1 ps = own_offerings h ps" and disj: "set ?qs \<inter> set (own_offerings h ps) = {}"
    using Cons.prems by (auto simp: type_ok_def own_offerings_def)
  have qs: "\<forall>q \<in> set ?qs. q < length (h_offs h)" using Cons.prems(1) by (simp add: type_ok_def)
  have "read_types ?h1 ps = read_types h ps"
    unfolding read_types_def
  proof (rule map_cong)
    fix p' assume "p' \<in> set ps"
    then have "set (tc_Offerings (h_types h ! p')) \<subseteq> set (own_offerings h ps)" by (auto simp: own_offerings_def)
    with disj qs show "read_type ?h1 p' = read_type h p'"
      by (intro read_type_cong) (auto simp: clear_offerings_nth)
  qed simp
  moreover have "read_type (mark_in kc nc ps ?h1) p = read_type ?h1 p"
  proof (rule read_type_cong)
    have "h_types ?h1 = h_types h" by simp
    moreover have "q \<notin> set (own_offerings ?h1 ps)" if "q \<in> set ?qs" for q using disj that unfolding own by blast
    ultimately show "\<forall>q \<in> set (tc_Offerings (h_types ?h1 ! p)). h_offs (mark_in kc nc ps ?h1) ! q = h_offs ?h1 ! q"
      using mark_in_untouched [OF ok] by metis
  qed simp
  moreover have "read_type ?h1 p =
      (if hasResolvedImage nc (hcloudArchFor kc (read_type h p)) then read_type h p
       else (read_type h p)\<lparr>it_Offerings := map (\<lambda>off. off\<lparr>off_Available := False\<rparr>) (it_Offerings (read_type h p))\<rparr>)"
    using qs by (simp add: read_type_def Let_def clear_offerings_nth)
  ultimately show ?case using Cons.IH [OF ok d] by (simp add: markImagelessArchesUnavailable_def)
qed

section \<open>The catalogue is out of reach\<close>

text \<open>C16: Although the marking writes into the offerings of a listing in place, and a listing starts from
  the pointers of the cached catalogue, the cached catalogue reads the same afterwards, and the
  result reads as the three passes applied to values: no mark and no missing image is ever baked into
  the cache, and clearing one type does not touch another.\<close>

theorem scheduler_view_leaves_catalogue:
  assumes "\<forall>p \<in> set cached. type_ok h p" and "scheduler_view kc now c nc locs cached h = (qs, h')"
  shows "read_types h' qs =
           markImagelessArchesUnavailable kc
             (applyAvailability kc now c (filterByLocations kc (read_types h cached) locs)) nc \<and>
         read_types h' cached = read_types h cached"
proof -
  obtain ps h1 h2 where f: "filter_in kc cached locs h = (ps, h1)" and a: "apply_in kc now c ps h1 = (qs, h2)"
    and h': "h' = mark_in kc nc qs h2"
    using assms(2) by (auto simp: scheduler_view_def split: prod.splits)
  note F = filter_in_reads [OF f assms(1)]
  have ok1: "\<forall>p \<in> set ps. type_ok h1 p" using F by blast
  note A = apply_in_reads [OF a ok1]
  have g: "grows h h2" using F A grows_trans by blast
  have "read_type h' p = read_type h2 p" if "p \<in> set cached" for p
    unfolding h'
  proof (rule read_type_cong)
    have "type_ok h p" using assms(1) that by blast
    have "\<forall>q \<in> set (tc_Offerings (h_types h2 ! p)). q < length (h_offs h)"
      using \<open>type_ok h p\<close> grows_cells(1) [OF g \<open>type_ok h p\<close>] by (simp add: type_ok_def)
    moreover have "length (h_offs h) \<le> length (h_offs h1)" using F grows_length by blast
    ultimately show "\<forall>q \<in> set (tc_Offerings (h_types h2 ! p)). h_offs (mark_in kc nc qs h2) ! q = h_offs h2 ! q"
      using A by (intro ballI mark_in_untouched) force+
  qed simp
  then have "read_types h' cached = read_types h2 cached" by (simp add: read_types_def)
  with grows_read [OF g assms(1)] mark_in_reads [of qs h2 kc nc] A F show ?thesis by (simp add: h')
qed

text \<open>The catalogue of one arm type, and a NodeClass without an arm image.\<close>

definition arm_type :: instance_type where "arm_type = toy_type ''cax11'' ''arm64'' 3 ''nbg1''"

definition arm_heap :: heap where
  "arm_heap =
     \<lparr>h_types = [\<lparr>tc_Name = it_Name arm_type, tc_Requirements = it_Requirements arm_type, tc_Offerings = [0],
                 tc_Capacity = it_Capacity arm_type, tc_KubeReserved = it_KubeReserved arm_type\<rparr>],
      h_offs = it_Offerings arm_type\<rparr>"

theorem scheduler_view_leaves_catalogue_witness:
  "\<exists>qs h'. scheduler_view example_core 10 (newUnavailableCache 5) (toy_class x86_only) [] [0] arm_heap = (qs, h') \<and>
     read_types h' [0] = [arm_type] \<and> off_Available (hd (it_Offerings arm_type)) \<and>
     (\<forall>it \<in> set (read_types h' qs). \<forall>off \<in> set (it_Offerings it). \<not> off_Available off)"
proof -
  have ok: "\<forall>p \<in> set [0]. type_ok arm_heap p" by (simp add: type_ok_def arm_heap_def arm_type_def toy_type_def)
  have read: "read_types arm_heap [0] = [arm_type]"
    by (simp add: read_type_def arm_heap_def arm_type_def toy_type_def)
  obtain qs h' where run: "scheduler_view example_core 10 (newUnavailableCache 5) (toy_class x86_only) [] [0] arm_heap = (qs, h')"
    by fastforce
  have "hcloudArchFor example_core arm_type = ArchitectureARM" by (simp add: arm_type_def)
  then have "\<forall>it \<in> set (markImagelessArchesUnavailable example_core (applyAvailability example_core 10 c
      (filterByLocations example_core [arm_type] [])) (toy_class x86_only)). \<forall>off \<in> set (it_Offerings it). \<not> off_Available off" for c
    by (simp add: markImagelessArchesUnavailable_def applyAvailability_def filterByLocations_def hcloudArchFor_def arch_defs)
  moreover have "off_Available (hd (it_Offerings arm_type))" by (simp add: arm_type_def toy_type_def)
  ultimately show ?thesis using scheduler_view_leaves_catalogue [OF ok run] run unfolding read by auto
qed

end
