(* ===== verification/Go_Heap.thy ===== *)
theory Go_Heap
  imports Go_Prelude "HOL-Library.Sublist"
begin

text \<open>
  Go memory with pointers, for the routines whose result is about sharing. Memory is an arena per type
  of cell: a list of arrays, to which allocation appends. A pointer is an array and an index into it, so
  that the address of a slice element is a pointer too; \<open>new\<close> allocates an array of one cell. A slice is
  an array with an offset and a length; its capacity is left out, for nothing appends here.
\<close>

type_synonym 'x arena = "'x list list"
type_synonym ptr = "nat \<times> nat"

record slice =
  s_arr :: nat
  s_off :: nat
  s_len :: nat

section \<open>Operations\<close>

definition load :: "'x arena \<Rightarrow> ptr \<Rightarrow> 'x" where
  "load A p = A ! fst p ! snd p"

definition put :: "ptr \<Rightarrow> 'x \<Rightarrow> 'x arena \<Rightarrow> 'x arena" where
  "put p v A = A[fst p := (A ! fst p)[snd p := v]]"

definition new_cell :: "'x \<Rightarrow> 'x arena \<Rightarrow> ptr \<times> 'x arena" where
  "new_cell z A = ((length A, 0), A @ [[z]])"

definition make_slice :: "nat \<Rightarrow> 'x \<Rightarrow> 'x arena \<Rightarrow> slice \<times> 'x arena" where
  "make_slice n z A = (\<lparr>s_arr = length A, s_off = 0, s_len = n\<rparr>, A @ [replicate n z])"

definition slot :: "slice \<Rightarrow> nat \<Rightarrow> ptr" where
  "slot s i = (s_arr s, s_off s + i)"

definition elems :: "'x arena \<Rightarrow> slice \<Rightarrow> 'x list" where
  "elems A s = map (\<lambda>i. load A (slot s i)) [0..<s_len s]"

text \<open>The built-in \<open>copy\<close>: as many elements as both slices have, read before any is written.\<close>

definition go_copy :: "slice \<Rightarrow> slice \<Rightarrow> 'x arena \<Rightarrow> 'x arena" where
  "go_copy dst src A =
     (let xs = take (s_len dst) (elems A src); cells = A ! s_arr dst
      in A[s_arr dst := take (s_off dst) cells @ xs @ drop (s_off dst + length xs) cells])"

text \<open>\<open>for i := range src { f(&src[i], &dst[i]) }\<close>, where \<open>f\<close> fills one cell from the other.\<close>

fun copy_each :: "('x \<Rightarrow> 'x) \<Rightarrow> slice \<Rightarrow> slice \<Rightarrow> nat list \<Rightarrow> 'x arena \<Rightarrow> 'x arena" where
  "copy_each f src dst [] A = A"
| "copy_each f src dst (i # is') A =
     copy_each f src dst is' (put (slot dst i) (f (load A (slot src i))) A)"

section \<open>Reachable cells\<close>

text \<open>
  A pointer is good when its cell exists and lies in an array at or above a floor. With floor 0 that is
  all the program may follow; with the size of the arena at some earlier moment it says that the cell
  was allocated since.
\<close>

definition ptr_ok :: "nat \<Rightarrow> 'x arena \<Rightarrow> ptr \<Rightarrow> bool" where
  "ptr_ok n A p \<longleftrightarrow> n \<le> fst p \<and> fst p < length A \<and> snd p < length (A ! fst p)"

definition slice_ok :: "nat \<Rightarrow> 'x arena \<Rightarrow> slice \<Rightarrow> bool" where
  "slice_ok n A s \<longleftrightarrow> n \<le> s_arr s \<and> s_arr s < length A \<and> s_off s + s_len s \<le> length (A ! s_arr s)"

text \<open>What lies at or above the floor is as it was; there may be more arrays.\<close>

definition ext :: "nat \<Rightarrow> 'x arena \<Rightarrow> 'x arena \<Rightarrow> bool" where
  "ext n A B \<longleftrightarrow> n \<le> length A \<and> n \<le> length B \<and> prefix (drop n A) (drop n B)"

lemma ext_array:
  assumes "ext n A B" and "n \<le> k" and "k < length A"
  shows "B ! k = A ! k" "k < length B"
proof -
  obtain C where C: "drop n B = drop n A @ C" using assms(1) by (auto simp: ext_def prefix_def)
  have "B ! k = drop n B ! (k - n)" using assms by (simp add: ext_def)
  also have "\<dots> = drop n A ! (k - n)" using assms by (simp add: C nth_append diff_less_mono)
  finally show "B ! k = A ! k" using assms by (simp add: ext_def)
  have "length (drop n B) = length (drop n A) + length C" by (simp add: C)
  with assms show "k < length B" by (auto simp: ext_def)
qed

lemma ext_refl: "n \<le> length A \<Longrightarrow> ext n A A"
  by (simp add: ext_def)

lemma ext_trans: "ext n A B \<Longrightarrow> ext n B C \<Longrightarrow> ext n A C"
  by (auto simp: ext_def intro: prefix_order.trans)

lemma ext_append [simp]: "ext 0 A (A @ xs)"
  by (simp add: ext_def)

lemma ext_zero [simp]: "ext 0 A B \<longleftrightarrow> prefix A B"
  by (simp add: ext_def)

lemma ext_raise: "prefix A B \<Longrightarrow> n \<le> length A \<Longrightarrow> ext n A B"
  by (auto simp: ext_def prefix_def)

lemma prefix_beyond: "prefix A B \<Longrightarrow> length A \<le> k \<Longrightarrow> prefix A (B[k := x])"
  by (auto simp: prefix_def list_update_append)

lemma ptr_ok_ext: "ptr_ok n A p \<Longrightarrow> ext n A B \<Longrightarrow> ptr_ok n B p \<and> load B p = load A p"
  by (simp add: ptr_ok_def load_def ext_array)

lemma slice_ok_ext: "slice_ok n A s \<Longrightarrow> ext n A B \<Longrightarrow> slice_ok n B s \<and> elems B s = elems A s"
  by (simp add: slice_ok_def elems_def load_def slot_def ext_array)

lemma ptr_ok_floor: "ptr_ok n A p \<Longrightarrow> m \<le> n \<Longrightarrow> ptr_ok m A p"
  by (simp add: ptr_ok_def)

lemma slice_ok_floor: "slice_ok n A s \<Longrightarrow> m \<le> n \<Longrightarrow> slice_ok m A s"
  by (simp add: slice_ok_def)

lemma slot_ok: "slice_ok n A s \<Longrightarrow> i < s_len s \<Longrightarrow> ptr_ok n A (slot s i)"
  by (simp add: slice_ok_def ptr_ok_def slot_def)

lemma load_put: "ptr_ok n A p \<Longrightarrow> load (put p v A) q = (if q = p then v else load A q)"
  by (cases p; cases q) (auto simp: load_def put_def ptr_ok_def nth_list_update)

lemma ptr_ok_put [simp]: "ptr_ok n (put p v A) q \<longleftrightarrow> ptr_ok n A q"
  by (cases "fst q = fst p"; cases "fst p < length A") (auto simp: put_def ptr_ok_def)

lemma slice_ok_put [simp]: "slice_ok n (put p v A) s \<longleftrightarrow> slice_ok n A s"
  by (cases "s_arr s = fst p"; cases "fst p < length A") (auto simp: put_def slice_ok_def)

lemma prefix_put: "prefix A B \<Longrightarrow> length A \<le> fst p \<Longrightarrow> prefix A (put p v B)"
  by (simp add: put_def prefix_beyond)

lemma slot_inj [simp]: "slot s i = slot s j \<longleftrightarrow> i = j"
  by (simp add: slot_def)

lemma elems_nth [simp]: "i < s_len s \<Longrightarrow> elems A s ! i = load A (slot s i)"
  by (simp add: elems_def)

lemma elems_length [simp]: "length (elems A s) = s_len s"
  by (simp add: elems_def)

section \<open>Copying\<close>

text \<open>The four shapes of copy the generated code uses, each for a field that may be nil.\<close>

fun copy_slice :: "'x \<Rightarrow> slice option \<Rightarrow> 'x arena \<Rightarrow> slice option \<times> 'x arena" where
  "copy_slice z None A = (None, A)"
| "copy_slice z (Some src) A =
     (let (dst, A1) = make_slice (s_len src) z A in (Some dst, go_copy dst src A1))"

fun copy_slice_each :: "'x \<Rightarrow> ('x \<Rightarrow> 'x) \<Rightarrow> slice option \<Rightarrow> 'x arena \<Rightarrow> slice option \<times> 'x arena" where
  "copy_slice_each z f None A = (None, A)"
| "copy_slice_each z f (Some src) A =
     (let (dst, A1) = make_slice (s_len src) z A in (Some dst, copy_each f src dst [0..<s_len src] A1))"

fun copy_map :: "ptr option \<Rightarrow> ('k \<times> 'v) list arena \<Rightarrow> ptr option \<times> ('k \<times> 'v) list arena" where
  "copy_map None A = (None, A)"
| "copy_map (Some src) A =
     (let (dst, A1) = new_cell [] A in (Some dst, put dst (map_put_all (load A1 src) (load A1 dst)) A1))"

fun copy_ref :: "'x \<Rightarrow> ptr option \<Rightarrow> 'x arena \<Rightarrow> ptr option \<times> 'x arena" where
  "copy_ref z None A = (None, A)"
| "copy_ref z (Some src) A =
     (let (dst, A1) = new_cell z A in (Some dst, put dst (load A1 src) A1))"

definition read_slice :: "'x arena \<Rightarrow> slice option \<Rightarrow> 'x list" where
  "read_slice A so = (case so of None \<Rightarrow> [] | Some s \<Rightarrow> elems A s)"

definition read_map :: "('k \<times> 'v) list arena \<Rightarrow> ptr option \<Rightarrow> ('k \<times> 'v) list" where
  "read_map A po = (case po of None \<Rightarrow> [] | Some p \<Rightarrow> load A p)"

definition read_ref :: "'x arena \<Rightarrow> ptr option \<Rightarrow> 'x option" where
  "read_ref A po = map_option (load A) po"

definition map_ok :: "nat \<Rightarrow> ('k \<times> 'v) list arena \<Rightarrow> ptr \<Rightarrow> bool" where
  "map_ok n A p \<longleftrightarrow> ptr_ok n A p \<and> go_map_ok (load A p)"

definition opt_ok :: "('p \<Rightarrow> bool) \<Rightarrow> 'p option \<Rightarrow> bool" where
  "opt_ok ok po \<longleftrightarrow> (case po of None \<Rightarrow> True | Some p \<Rightarrow> ok p)"

lemma opt_ok_simps [simp]: "opt_ok ok None" "opt_ok ok (Some p) \<longleftrightarrow> ok p"
  by (simp_all add: opt_ok_def)

text \<open>What a copy of one field promises of its arena: the copy is new, reads like the original and is
  nil exactly when that is; nothing that existed is written.\<close>

definition copied ::
  "('x arena \<Rightarrow> 'p option \<Rightarrow> 'v) \<Rightarrow> (nat \<Rightarrow> 'x arena \<Rightarrow> 'p \<Rightarrow> bool) \<Rightarrow>
     'p option \<Rightarrow> 'x arena \<Rightarrow> 'p option \<Rightarrow> 'x arena \<Rightarrow> bool" where
  "copied read ok po A po' A' \<longleftrightarrow>
     prefix A A' \<and> opt_ok (ok (length A) A') po' \<and> read A' po' = read A po \<and> (po' = None \<longleftrightarrow> po = None)"

lemma new_cell_ok: "new_cell z A = (p, B) \<Longrightarrow> p = (length A, 0) \<and> B = A @ [[z]] \<and> ptr_ok (length A) B p"
  by (auto simp: new_cell_def ptr_ok_def)

lemma make_slice_ok:
  "make_slice n z A = (s, B) \<Longrightarrow>
     s = \<lparr>s_arr = length A, s_off = 0, s_len = n\<rparr> \<and> B = A @ [replicate n z] \<and> slice_ok (length A) B s"
  by (auto simp: make_slice_def slice_ok_def)

lemma copy_slice_copied:
  assumes "copy_slice z so A = (so', A')" and "opt_ok (slice_ok 0 A) so"
  shows "copied read_slice slice_ok so A so' A'"
proof (cases so)
  case None
  with assms show ?thesis by (simp add: copied_def)
next
  case (Some src)
  let ?dst = "\<lparr>s_arr = length A, s_off = 0, s_len = s_len src\<rparr>"
  let ?B = "A @ [replicate (s_len src) z]"
  have src: "slice_ok 0 A src" using assms(2) Some by simp
  then have el: "elems ?B src = elems A src" using slice_ok_ext [OF src, of ?B] by simp
  have A': "A' = A @ [elems A src]" and so': "so' = Some ?dst"
    using assms(1) Some by (auto simp: make_slice_def go_copy_def el Let_def)
  have "elems A' ?dst = elems A src"
    by (rule nth_equalityI) (simp_all add: A', simp add: load_def slot_def)
  then show ?thesis using Some so' A' by (simp add: copied_def read_slice_def slice_ok_def)
qed

lemma copy_each_ok:
  assumes "slice_ok n A dst" and "prefix A0 A" and "length A0 \<le> s_arr dst" and "slice_ok 0 A0 src"
    and "set is' \<subseteq> {..<s_len src}" and "s_len src = s_len dst" and "distinct is'"
  shows "prefix A0 (copy_each f src dst is' A) \<and> slice_ok n (copy_each f src dst is' A) dst \<and>
         (\<forall>i. load (copy_each f src dst is' A) (slot dst i) =
                (if i \<in> set is' then f (load A0 (slot src i)) else load A (slot dst i)))"
  using assms
proof (induction is' arbitrary: A)
  case Nil
  then show ?case by simp
next
  case (Cons i is')
  let ?v = "f (load A0 (slot src i))" and ?B = "put (slot dst i) (f (load A0 (slot src i))) A"
  have src: "load A (slot src i) = load A0 (slot src i)"
    using ptr_ok_ext [OF slot_ok [OF Cons.prems(4)], of i A] Cons.prems(2,5) by simp
  have ok: "ptr_ok n A (slot dst i)" using slot_ok [OF Cons.prems(1)] Cons.prems(5,6) by simp
  have "prefix A0 ?B" using Cons.prems(2,3) by (intro prefix_put) (simp_all add: slot_def)
  from Cons.IH [OF _ this Cons.prems(3,4)] Cons.prems have IH: "prefix A0 (copy_each f src dst is' ?B)"
      "slice_ok n (copy_each f src dst is' ?B) dst"
      "\<And>j. load (copy_each f src dst is' ?B) (slot dst j) =
              (if j \<in> set is' then f (load A0 (slot src j)) else load ?B (slot dst j))"
    by simp_all
  show ?case using IH Cons.prems(7) by (auto simp: src load_put [OF ok])
qed

lemma copy_slice_each_copied:
  assumes "copy_slice_each z f so A = (so', A')" and "opt_ok (slice_ok 0 A) so" and "\<And>x. f x = x"
  shows "copied read_slice slice_ok so A so' A'"
proof (cases so)
  case None
  with assms show ?thesis by (simp add: copied_def)
next
  case (Some src)
  obtain dst B where mk: "make_slice (s_len src) z A = (dst, B)" by fastforce
  note dst = make_slice_ok [OF mk]
  have A': "A' = copy_each f src dst [0..<s_len src] B" and so': "so' = Some dst"
    using assms(1) Some mk by simp_all
  have "prefix A A' \<and> slice_ok (length A) A' dst \<and>
        (\<forall>i. load A' (slot dst i) = (if i \<in> set [0..<s_len src] then f (load A (slot src i)) else load B (slot dst i)))"
    unfolding A' by (rule copy_each_ok) (use dst assms(2) Some in \<open>auto\<close>)
  moreover from this have "elems A' dst = elems A src"
    by (intro nth_equalityI) (use dst assms(3) in simp_all)
  ultimately show ?thesis using Some so' by (simp add: copied_def read_slice_def)
qed

lemma map_put_fresh: "k \<notin> fst ` set m \<Longrightarrow> map_put k v m = m @ [(k, v)]"
  by (induction m) (auto simp: map_put_def)

lemma map_put_all_fresh: "go_map_ok (m @ kvs) \<Longrightarrow> map_put_all kvs m = m @ kvs"
proof (induction kvs m rule: map_put_all.induct)
  case (2 k v kvs m)
  then have "map_put k v m = m @ [(k, v)]" by (intro map_put_fresh) (simp add: go_map_ok_def)
  with 2 show ?case by simp
qed simp

lemma copy_map_copied:
  assumes "copy_map po A = (po', A')" and "opt_ok (map_ok 0 A) po"
  shows "copied read_map map_ok po A po' A'"
proof (cases po)
  case None
  with assms show ?thesis by (simp add: copied_def)
next
  case (Some src)
  let ?B = "A @ [[[]]]"
  have src: "ptr_ok 0 A src" "go_map_ok (load A src)" using assms(2) Some by (simp_all add: map_ok_def)
  then have ld: "load ?B src = load A src" using ptr_ok_ext [OF src(1), of ?B] by simp
  have "load ?B (length A, 0) = []" by (simp add: load_def)
  then have "po' = Some (length A, 0)" "A' = put (length A, 0) (load A src) ?B"
    using assms(1) Some src ld map_put_all_fresh [of "[]" "load A src"] by (simp_all add: new_cell_def)
  then show ?thesis using Some src by (simp add: copied_def read_map_def map_ok_def ptr_ok_def load_def put_def)
qed

lemma copy_ref_copied:
  assumes "copy_ref z po A = (po', A')" and "opt_ok (ptr_ok 0 A) po"
  shows "copied read_ref ptr_ok po A po' A'"
proof (cases po)
  case None
  with assms show ?thesis by (simp add: copied_def)
next
  case (Some src)
  let ?B = "A @ [[z]]"
  have ld: "load ?B src = load A src" using ptr_ok_ext [of 0 A src ?B] assms(2) Some by simp
  then have "po' = Some (length A, 0)" "A' = put (length A, 0) (load A src) ?B"
    using assms(1) Some by (simp_all add: new_cell_def)
  then show ?thesis using Some by (simp add: copied_def read_ref_def ptr_ok_def load_def put_def)
qed


section \<open>Fields that stay readable\<close>

text \<open>The contract the three shapes of field share: what is reachable through the field reads the same
  after anything that happens below its floor or in new cells. It is enough to follow two copies made
  one after the other in the same arena.\<close>



locale heap_field =
  fixes read :: "'x arena \<Rightarrow> 'p option \<Rightarrow> 'v" and ok :: "nat \<Rightarrow> 'x arena \<Rightarrow> 'p \<Rightarrow> bool"
  assumes stable: "ok n A p \<Longrightarrow> ext n A B \<Longrightarrow> ok n B p \<and> read B (Some p) = read A (Some p)"
    and lower: "ok n A p \<Longrightarrow> m \<le> n \<Longrightarrow> ok m A p"
    and nil_reads: "read A None = read B None"
begin

lemma field_kept: "opt_ok (ok n A) po \<Longrightarrow> ext n A B \<Longrightarrow> opt_ok (ok n B) po \<and> read B po = read A po"
  using stable nil_reads by (cases po) auto

lemma field_lower: "opt_ok (ok n A) po \<Longrightarrow> m \<le> n \<Longrightarrow> opt_ok (ok m A) po"
  using lower by (cases po) auto

lemma copied_then:
  assumes "copied read ok a A a' B" and "prefix B C"
  shows "copied read ok a A a' C"
proof -
  have "prefix A B" and ok: "opt_ok (ok (length A) B) a'" using assms(1) by (simp_all add: copied_def)
  moreover have "ext (length A) B C" using assms(2) \<open>prefix A B\<close> by (intro ext_raise prefix_length_le)
  note field_kept [OF ok this]
  ultimately show ?thesis using assms by (auto simp: copied_def intro: prefix_order.trans)
qed

lemma copied_after:
  assumes "copied read ok b B b' C" and "prefix A B" and "opt_ok (ok 0 A) b"
  shows "copied read ok b A b' C"
  using assms field_kept [OF assms(3), of B] prefix_length_le [OF assms(2)]
  by (auto simp: copied_def intro: prefix_order.trans field_lower)

end

interpretation slice_field: heap_field read_slice slice_ok
proof
  show "slice_ok n B p \<and> read_slice B (Some p) = read_slice A (Some p)"
    if "slice_ok n A p" "ext n A B" for n A p B
    using slice_ok_ext [OF that] by (simp add: read_slice_def)
qed (erule (1) slice_ok_floor, simp add: read_slice_def)

interpretation map_field: heap_field read_map map_ok
proof
  show "map_ok n B p \<and> read_map B (Some p) = read_map A (Some p)"
    if "map_ok n A p" "ext n A B" for n A p B
    using ptr_ok_ext [of n A p B] that by (simp add: map_ok_def read_map_def)
  show "map_ok m A p" if "map_ok n A p" "m \<le> n" for n A p m
    using ptr_ok_floor [of n A p m] that by (simp add: map_ok_def)
qed (simp add: read_map_def)

interpretation ref_field: heap_field read_ref ptr_ok
proof
  show "ptr_ok n B p \<and> read_ref B (Some p) = read_ref A (Some p)"
    if "ptr_ok n A p" "ext n A B" for n A p B
    using ptr_ok_ext [OF that] by (simp add: read_ref_def)
qed (erule (1) ptr_ok_floor, simp add: read_ref_def)


text \<open>Two fields of a struct may live in one arena, copied one after the other.\<close>

locale field_copier = heap_field +
  fixes copy :: "'b option \<Rightarrow> 'a arena \<Rightarrow> 'b option \<times> 'a arena"
  assumes copy_copied: "copy po A = (po', A') \<Longrightarrow> opt_ok (ok 0 A) po \<Longrightarrow> copied read ok po A po' A'"
begin

lemma two_copies:
  assumes "copy a A = (a', B)" and "copy b B = (b', C)" and "opt_ok (ok 0 A) a" and "opt_ok (ok 0 A) b"
  shows "copied read ok a A a' C \<and> copied read ok b A b' C"
proof -
  have one: "copied read ok a A a' B" by (rule copy_copied [OF assms(1,3)])
  then have g: "prefix A B" by (simp add: copied_def)
  have two: "copied read ok b B b' C"
    by (rule copy_copied [OF assms(2)]) (use field_kept [OF assms(4), of B] g in simp)
  then have "prefix B C" by (simp add: copied_def)
  then show ?thesis using copied_then [OF one] copied_after [OF two g assms(4)] by simp
qed

end

interpretation slice_copier: field_copier read_slice slice_ok "copy_slice z" for z
  by unfold_locales (rule copy_slice_copied)

interpretation map_copier: field_copier read_map map_ok copy_map
  by unfold_locales (rule copy_map_copied)

interpretation ref_copier: field_copier read_ref ptr_ok "copy_ref z" for z
  by unfold_locales (rule copy_ref_copied)

end
