(* ===== verification/Deep_Copy_Correct.thy ===== *)
theory Deep_Copy_Correct
  imports Deep_Copy
begin

text \<open>
  The deep copies share nothing with their originals: one contract, \<open>deep_copier\<close>, for every generated
  \<open>DeepCopyInto\<close>, and one, \<open>pointer_copier\<close>, that carries it over to \<open>DeepCopy\<close>.
\<close>

section \<open>What a struct reads as\<close>

definition read_selector :: "go_store \<Rightarrow> selector_cell \<Rightarrow> image_selector" where
  "read_selector h c = \<lparr>sel_Family = slc_Family c, sel_Version = slc_Version c,
     sel_Selector = read_map (st_maps h) (slc_Selector c)\<rparr>"

definition read_spec :: "go_store \<Rightarrow> spec_cell \<Rightarrow> node_class_spec" where
  "read_spec h c = \<lparr>spec_Locations = read_slice (st_strings h) (sc_Locations c),
     spec_ImageSelector = read_selector h (sc_ImageSelector c),
     spec_NetworkID = sc_NetworkID c,
     spec_FirewallIDs = read_slice (st_ints h) (sc_FirewallIDs c),
     spec_SSHKeyIDs = read_slice (st_ints h) (sc_SSHKeyIDs c),
     spec_PlacementGroupStrategy = sc_PlacementGroupStrategy c,
     spec_Labels = read_map (st_maps h) (sc_Labels c),
     spec_UserData = sc_UserData c,
     spec_UserDataSecretRef = read_ref (st_refs h) (sc_UserDataSecretRef c),
     spec_EnablePublicIPv4 = read_ref (st_bools h) (sc_EnablePublicIPv4 c),
     spec_EnablePublicIPv6 = read_ref (st_bools h) (sc_EnablePublicIPv6 c)\<rparr>"

definition read_status :: "go_store \<Rightarrow> status_cell \<Rightarrow> condition list \<times> resolved_image list" where
  "read_status h c = (read_slice (st_conds h) (stc_Conditions c), read_slice (st_images h) (stc_ResolvedImages c))"

definition read_class :: "go_store \<Rightarrow> class_cell \<Rightarrow> node_class" where
  "read_class h c = \<lparr>nc_Name = om_Name (cc_ObjectMeta c), nc_Generation = om_Generation (cc_ObjectMeta c),
     nc_Spec = read_spec h (cc_Spec c), nc_Conditions = fst (read_status h (cc_Status c)),
     nc_ResolvedImages = snd (read_status h (cc_Status c))\<rparr>"

definition read_list :: "go_store \<Rightarrow> list_cell \<Rightarrow> list_meta \<times> node_class list" where
  "read_list h c = (lc_ListMeta c, map (read_class h) (read_slice (st_classes h) (lc_Items c)))"

section \<open>What a struct may reach\<close>

text \<open>Every pointer of the struct leads to a cell, allocated after the store \<open>h0\<close>.\<close>

definition selector_ok :: "go_store \<Rightarrow> go_store \<Rightarrow> selector_cell \<Rightarrow> bool" where
  "selector_ok h0 h c \<longleftrightarrow> opt_ok (map_ok (length (st_maps h0)) (st_maps h)) (slc_Selector c)"

definition spec_ok :: "go_store \<Rightarrow> go_store \<Rightarrow> spec_cell \<Rightarrow> bool" where
  "spec_ok h0 h c \<longleftrightarrow>
     opt_ok (slice_ok (length (st_strings h0)) (st_strings h)) (sc_Locations c) \<and>
     selector_ok h0 h (sc_ImageSelector c) \<and>
     opt_ok (slice_ok (length (st_ints h0)) (st_ints h)) (sc_FirewallIDs c) \<and>
     opt_ok (slice_ok (length (st_ints h0)) (st_ints h)) (sc_SSHKeyIDs c) \<and>
     opt_ok (map_ok (length (st_maps h0)) (st_maps h)) (sc_Labels c) \<and>
     opt_ok (ptr_ok (length (st_refs h0)) (st_refs h)) (sc_UserDataSecretRef c) \<and>
     opt_ok (ptr_ok (length (st_bools h0)) (st_bools h)) (sc_EnablePublicIPv4 c) \<and>
     opt_ok (ptr_ok (length (st_bools h0)) (st_bools h)) (sc_EnablePublicIPv6 c)"

definition status_ok :: "go_store \<Rightarrow> go_store \<Rightarrow> status_cell \<Rightarrow> bool" where
  "status_ok h0 h c \<longleftrightarrow>
     opt_ok (slice_ok (length (st_conds h0)) (st_conds h)) (stc_Conditions c) \<and>
     opt_ok (slice_ok (length (st_images h0)) (st_images h)) (stc_ResolvedImages c)"

definition class_ok :: "go_store \<Rightarrow> go_store \<Rightarrow> class_cell \<Rightarrow> bool" where
  "class_ok h0 h c \<longleftrightarrow> spec_ok h0 h (cc_Spec c) \<and> status_ok h0 h (cc_Status c)"

definition list_ok :: "go_store \<Rightarrow> go_store \<Rightarrow> list_cell \<Rightarrow> bool" where
  "list_ok h0 h c \<longleftrightarrow>
     opt_ok (slice_ok (length (st_classes h0)) (st_classes h)) (lc_Items c) \<and>
     (\<forall>it \<in> set (read_slice (st_classes h) (lc_Items c)). class_ok h0 h it)"

text \<open>Nothing allocated after \<open>h0\<close> and present in \<open>h1\<close> is different in \<open>h2\<close>. With an empty \<open>h0\<close> that is
  all of \<open>h1\<close>.\<close>

definition keeps_from :: "go_store \<Rightarrow> go_store \<Rightarrow> go_store \<Rightarrow> bool" where
  "keeps_from h0 h1 h2 \<longleftrightarrow>
     ext (length (st_strings h0)) (st_strings h1) (st_strings h2) \<and>
     ext (length (st_ints h0)) (st_ints h1) (st_ints h2) \<and>
     ext (length (st_maps h0)) (st_maps h1) (st_maps h2) \<and>
     ext (length (st_refs h0)) (st_refs h1) (st_refs h2) \<and>
     ext (length (st_bools h0)) (st_bools h1) (st_bools h2) \<and>
     ext (length (st_conds h0)) (st_conds h1) (st_conds h2) \<and>
     ext (length (st_images h0)) (st_images h1) (st_images h2) \<and>
     ext (length (st_selectors h0)) (st_selectors h1) (st_selectors h2) \<and>
     ext (length (st_specs h0)) (st_specs h1) (st_specs h2) \<and>
     ext (length (st_statuses h0)) (st_statuses h1) (st_statuses h2) \<and>
     ext (length (st_classes h0)) (st_classes h1) (st_classes h2) \<and>
     ext (length (st_lists h0)) (st_lists h1) (st_lists h2)"

lemma no_cells_simps [simp]:
  "st_strings no_cells = []" "st_ints no_cells = []" "st_maps no_cells = []" "st_refs no_cells = []"
  "st_bools no_cells = []" "st_conds no_cells = []" "st_images no_cells = []" "st_selectors no_cells = []"
  "st_specs no_cells = []" "st_statuses no_cells = []" "st_classes no_cells = []" "st_lists no_cells = []"
  by (simp_all add: no_cells_def)

lemma keeps_from_refl [simp]: "keeps_from no_cells h h"
  by (simp add: keeps_from_def)

lemma keeps_from_trans: "keeps_from h0 h1 h2 \<Longrightarrow> keeps_from h0 h2 h3 \<Longrightarrow> keeps_from h0 h1 h3"
  unfolding keeps_from_def by (blast intro: ext_trans)

lemma keeps_from_raise: "keeps_from no_cells h h' \<Longrightarrow> keeps_from no_cells h' h'' \<Longrightarrow> keeps_from h h' h''"
  unfolding keeps_from_def by (simp add: ext_raise prefix_length_le)

section \<open>The contract\<close>

locale deep_copier =
  fixes ok :: "go_store \<Rightarrow> go_store \<Rightarrow> 'c \<Rightarrow> bool" and read :: "go_store \<Rightarrow> 'c \<Rightarrow> 'v"
    and copy :: "'c \<Rightarrow> go_store \<Rightarrow> 'c \<times> go_store"
  assumes kept: "ok h0 h1 c \<Longrightarrow> keeps_from h0 h1 h2 \<Longrightarrow> ok h0 h2 c \<and> read h2 c = read h1 c"
    and floor: "ok h1 h c \<Longrightarrow> keeps_from no_cells h0 h1 \<Longrightarrow> ok h0 h c"
    and copies: "ok no_cells h c \<Longrightarrow> copy c h = (c', h') \<Longrightarrow>
      keeps_from no_cells h h' \<and> ok h h' c' \<and> read h' c' = read h c"
begin

lemma copy_equal: "ok no_cells h c \<Longrightarrow> copy c h = (c', h') \<Longrightarrow> read h' c' = read h c \<and> read h' c = read h c"
  using copies kept by blast

text \<open>Writing what the copy allocated leaves the original, writing the rest leaves the copy.\<close>

lemma original_isolated: "ok no_cells h c \<Longrightarrow> keeps_from no_cells h h2 \<Longrightarrow> read h2 c = read h c"
  using kept by blast

lemma copy_isolated:
  "ok no_cells h c \<Longrightarrow> copy c h = (c', h') \<Longrightarrow> keeps_from h h' h2 \<Longrightarrow> read h2 c' = read h c"
  using copies kept by metis

text \<open>A copy of a copy reads as the first original, and is apart from both.\<close>

lemma copy_of_copy:
  assumes "ok no_cells h c" and "copy c h = (c1, h1)" and "copy c1 h1 = (c2, h2)"
  shows "read h2 c2 = read h c \<and> ok h1 h2 c2"
proof -
  note one = copies [OF assms(1,2)]
  then have "ok no_cells h1 c1" using floor [of h h1 c1 no_cells] by (simp add: keeps_from_def)
  from copies [OF this assms(3)] one show ?thesis by simp
qed

end


section \<open>Each type keeps it\<close>

lemma selector_kept:
  "selector_ok h0 h1 c \<Longrightarrow> keeps_from h0 h1 h2 \<Longrightarrow> selector_ok h0 h2 c \<and> read_selector h2 c = read_selector h1 c"
  using map_field.field_kept [of "length (st_maps h0)" "st_maps h1" "slc_Selector c" "st_maps h2"]
  by (simp add: selector_ok_def read_selector_def keeps_from_def)

lemma keeps_from_lengths:
  assumes "keeps_from no_cells h0 h1"
  shows "length (st_strings h0) \<le> length (st_strings h1)" "length (st_ints h0) \<le> length (st_ints h1)"
    "length (st_maps h0) \<le> length (st_maps h1)" "length (st_refs h0) \<le> length (st_refs h1)"
    "length (st_bools h0) \<le> length (st_bools h1)" "length (st_conds h0) \<le> length (st_conds h1)"
    "length (st_images h0) \<le> length (st_images h1)" "length (st_classes h0) \<le> length (st_classes h1)"
  using assms by (simp_all add: keeps_from_def prefix_length_le)

lemma selector_floor: "selector_ok h1 h c \<Longrightarrow> keeps_from no_cells h0 h1 \<Longrightarrow> selector_ok h0 h c"
  unfolding selector_ok_def by (erule map_field.field_lower) (rule keeps_from_lengths)

lemma selector_copies:
  assumes "selector_ok no_cells h c" and "ImageSelector_DeepCopyInto c h = (c', h')"
  shows "keeps_from no_cells h h' \<and> selector_ok h h' c' \<and> read_selector h' c' = read_selector h c"
proof -
  obtain m a where cm: "copy_map (slc_Selector c) (st_maps h) = (m, a)" by fastforce
  have "copied read_map map_ok (slc_Selector c) (st_maps h) m a"
    using assms(1) by (intro copy_map_copied [OF cm]) (simp add: selector_ok_def)
  then show ?thesis using assms(2) cm
    by (auto simp: ImageSelector_DeepCopyInto_def copied_def selector_ok_def read_selector_def keeps_from_def)
qed

interpretation selector_copier: deep_copier selector_ok read_selector ImageSelector_DeepCopyInto
  by unfold_locales (rule selector_kept selector_floor selector_copies; assumption)+

lemma spec_kept:
  assumes "spec_ok h0 h1 c" and "keeps_from h0 h1 h2"
  shows "spec_ok h0 h2 c \<and> read_spec h2 c = read_spec h1 c"
proof -
  have k: "ext (length (st_strings h0)) (st_strings h1) (st_strings h2)" "ext (length (st_ints h0)) (st_ints h1) (st_ints h2)"
    "ext (length (st_maps h0)) (st_maps h1) (st_maps h2)" "ext (length (st_refs h0)) (st_refs h1) (st_refs h2)"
    "ext (length (st_bools h0)) (st_bools h1) (st_bools h2)"
    using assms(2) by (simp_all add: keeps_from_def)
  show ?thesis
    using assms(1) selector_kept [OF _ assms(2)]
      slice_field.field_kept [OF _ k(1)] slice_field.field_kept [OF _ k(2)]
      map_field.field_kept [OF _ k(3)] ref_field.field_kept [OF _ k(4)] ref_field.field_kept [OF _ k(5)]
    by (simp add: spec_ok_def read_spec_def)
qed

lemma spec_floor: "spec_ok h1 h c \<Longrightarrow> keeps_from no_cells h0 h1 \<Longrightarrow> spec_ok h0 h c"
  unfolding spec_ok_def
  using keeps_from_lengths [of h0 h1] selector_floor [of h1 h _ h0]
  by (elim conjE, intro conjI)
    (blast intro: slice_field.field_lower map_field.field_lower ref_field.field_lower)+

lemma spec_copies:
  assumes "spec_ok no_cells h c" and "Spec_DeepCopyInto c h = (c', h')"
  shows "keeps_from no_cells h h' \<and> spec_ok h h' c' \<and> read_spec h' c' = read_spec h c"
proof -
  obtain locs strings where locs: "copy_slice [] (sc_Locations c) (st_strings h) = (locs, strings)" by fastforce
  obtain sel maps1 where sel: "copy_map (slc_Selector (sc_ImageSelector c)) (st_maps h) = (sel, maps1)" by fastforce
  obtain fws ints1 where fws: "copy_slice 0 (sc_FirewallIDs c) (st_ints h) = (fws, ints1)" by fastforce
  obtain keys ints2 where keys: "copy_slice 0 (sc_SSHKeyIDs c) ints1 = (keys, ints2)" by fastforce
  obtain labels maps2 where labels: "copy_map (sc_Labels c) maps1 = (labels, maps2)" by fastforce
  obtain secret refs where secret: "copy_ref zero_ref (sc_UserDataSecretRef c) (st_refs h) = (secret, refs)" by fastforce
  obtain v4 bools1 where v4: "copy_ref False (sc_EnablePublicIPv4 c) (st_bools h) = (v4, bools1)" by fastforce
  obtain v6 bools2 where v6: "copy_ref False (sc_EnablePublicIPv6 c) bools1 = (v6, bools2)" by fastforce
  have c': "c' = c\<lparr>sc_Locations := locs, sc_ImageSelector := (sc_ImageSelector c)\<lparr>slc_Selector := sel\<rparr>,
        sc_FirewallIDs := fws, sc_SSHKeyIDs := keys, sc_Labels := labels, sc_UserDataSecretRef := secret,
        sc_EnablePublicIPv4 := v4, sc_EnablePublicIPv6 := v6\<rparr>"
    and h': "h' = h\<lparr>st_strings := strings, st_ints := ints2, st_maps := maps2, st_refs := refs, st_bools := bools2\<rparr>"
    using assms(2) by (simp_all add: Spec_DeepCopyInto_def ImageSelector_DeepCopyInto_def locs sel fws keys labels secret v4 v6)
  note ok = assms(1) [unfolded spec_ok_def selector_ok_def, simplified]
  have "copied read_slice slice_ok (sc_Locations c) (st_strings h) locs strings"
    by (rule copy_slice_copied [OF locs]) (use ok in simp)
  moreover have "copied read_ref ptr_ok (sc_UserDataSecretRef c) (st_refs h) secret refs"
    by (rule copy_ref_copied [OF secret]) (use ok in simp)
  moreover note slice_copier.two_copies [OF fws keys] map_copier.two_copies [OF sel labels]
    ref_copier.two_copies [OF v4 v6]
  ultimately show ?thesis using ok
    by (simp add: c' h' copied_def spec_ok_def read_spec_def selector_ok_def read_selector_def keeps_from_def)
qed

interpretation spec_copier: deep_copier spec_ok read_spec Spec_DeepCopyInto
  by unfold_locales (rule spec_kept spec_floor spec_copies; assumption)+

lemma status_kept:
  assumes "status_ok h0 h1 c" and "keeps_from h0 h1 h2"
  shows "status_ok h0 h2 c \<and> read_status h2 c = read_status h1 c"
proof -
  have k: "ext (length (st_conds h0)) (st_conds h1) (st_conds h2)"
    "ext (length (st_images h0)) (st_images h1) (st_images h2)"
    using assms(2) by (simp_all add: keeps_from_def)
  show ?thesis using assms(1) slice_field.field_kept [OF _ k(1)] slice_field.field_kept [OF _ k(2)]
    by (simp add: status_ok_def read_status_def)
qed

lemma status_floor: "status_ok h1 h c \<Longrightarrow> keeps_from no_cells h0 h1 \<Longrightarrow> status_ok h0 h c"
  unfolding status_ok_def using keeps_from_lengths [of h0 h1] by (blast intro: slice_field.field_lower)

lemma status_copies:
  assumes L: "meta_copies_equal L" and "status_ok no_cells h c" and "Status_DeepCopyInto L c h = (c', h')"
  shows "keeps_from no_cells h h' \<and> status_ok h h' c' \<and> read_status h' c' = read_status h c"
proof -
  obtain cs conds where cs: "copy_slice_each zero_condition (mc_Condition L) (stc_Conditions c) (st_conds h) = (cs, conds)"
    by fastforce
  obtain ris images where ris: "copy_slice zero_image (stc_ResolvedImages c) (st_images h) = (ris, images)"
    by fastforce
  have "copied read_slice slice_ok (stc_Conditions c) (st_conds h) cs conds"
    by (rule copy_slice_each_copied [OF cs]) (use L assms(2) in \<open>simp_all add: status_ok_def meta_copies_equal_def\<close>)
  moreover have "copied read_slice slice_ok (stc_ResolvedImages c) (st_images h) ris images"
    by (rule copy_slice_copied [OF ris]) (use assms(2) in \<open>simp add: status_ok_def\<close>)
  ultimately show ?thesis using assms(3) cs ris
    by (auto simp: Status_DeepCopyInto_def copied_def status_ok_def read_status_def keeps_from_def)
qed

lemma status_copier: "meta_copies_equal L \<Longrightarrow> deep_copier status_ok read_status (Status_DeepCopyInto L)"
  by unfold_locales (rule status_kept status_floor status_copies; assumption)+

lemma class_kept:
  assumes "class_ok h0 h1 c" and k: "keeps_from h0 h1 h2"
  shows "class_ok h0 h2 c \<and> read_class h2 c = read_class h1 c"
  using assms(1) spec_kept [OF _ k] status_kept [OF _ k] by (simp add: class_ok_def read_class_def)

lemma class_floor: "class_ok h1 h c \<Longrightarrow> keeps_from no_cells h0 h1 \<Longrightarrow> class_ok h0 h c"
  unfolding class_ok_def by (blast intro: spec_floor status_floor)

lemma class_copies:
  assumes L: "meta_copies_equal L" and "class_ok no_cells h c" and "HCloudNodeClass_DeepCopyInto L c h = (c', h')"
  shows "keeps_from no_cells h h' \<and> class_ok h h' c' \<and> read_class h' c' = read_class h c"
proof -
  obtain sp h1 where sp: "Spec_DeepCopyInto (cc_Spec c) h = (sp, h1)" by fastforce
  obtain st where st: "Status_DeepCopyInto L (cc_Status c) h1 = (st, h')"
    using assms(3) sp by (auto simp: HCloudNodeClass_DeepCopyInto_def split: prod.splits)
  have ok: "spec_ok no_cells h (cc_Spec c)" "status_ok no_cells h (cc_Status c)"
    using assms(2) by (simp_all add: class_ok_def)
  note one = spec_copies [OF ok(1) sp]
  then have k: "status_ok no_cells h1 (cc_Status c) \<and> read_status h1 (cc_Status c) = read_status h (cc_Status c)"
    using status_kept [OF ok(2)] by blast
  note two = status_copies [OF L conjunct1 [OF k] st]
  have "spec_ok h h' sp \<and> read_spec h' sp = read_spec h1 sp" "status_ok h h' st"
    using one two spec_kept [of h h1 sp h'] status_floor [of h1 h' st h] keeps_from_raise by blast+
  moreover have "keeps_from no_cells h h'" using one two keeps_from_trans by blast
  ultimately show ?thesis using assms(3) sp st one two k L
    by (auto simp: HCloudNodeClass_DeepCopyInto_def class_ok_def read_class_def meta_copies_equal_def)
qed

lemma class_copier: "meta_copies_equal L \<Longrightarrow> deep_copier class_ok read_class (HCloudNodeClass_DeepCopyInto L)"
  by unfold_locales (rule class_kept class_floor class_copies; assumption)+

section \<open>Lists\<close>

text \<open>A class never points back into the arena that holds classes.\<close>

lemma class_elsewhere [simp]:
  "class_ok h0 (h\<lparr>st_classes := A\<rparr>) c \<longleftrightarrow> class_ok h0 h c" "class_ok (h0\<lparr>st_classes := A\<rparr>) h c \<longleftrightarrow> class_ok h0 h c"
  "read_class (h\<lparr>st_classes := A\<rparr>) c = read_class h c"
  by (simp_all add: class_ok_def spec_ok_def selector_ok_def status_ok_def read_class_def read_spec_def
      read_selector_def read_status_def)

lemma class_copy_classes:
  "HCloudNodeClass_DeepCopyInto L c h = (c', h') \<Longrightarrow> st_classes h' = st_classes h \<and> st_lists h' = st_lists h"
  by (auto simp: HCloudNodeClass_DeepCopyInto_def Spec_DeepCopyInto_def ImageSelector_DeepCopyInto_def
      Status_DeepCopyInto_def split: prod.splits)

lemma keeps_set_classes:
  "keeps_from no_cells h h' \<Longrightarrow> prefix (st_classes h) A \<Longrightarrow> keeps_from no_cells h (h'\<lparr>st_classes := A\<rparr>)"
  by (simp add: keeps_from_def)

lemma copy_items_ok:
  assumes L: "meta_copies_equal L" and src: "slice_ok 0 (st_classes h) src"
    and items: "\<forall>i < s_len src. class_ok no_cells h (load (st_classes h) (slot src i))"
    and len: "s_len src = s_len dst"
    and "keeps_from no_cells h h1" and "slice_ok (length (st_classes h)) (st_classes h1) dst"
    and "set is' \<subseteq> {..<s_len src}" and "distinct is'"
  shows "let h2 = copy_items L src dst is' h1 in
     keeps_from no_cells h h2 \<and> slice_ok (length (st_classes h)) (st_classes h2) dst \<and>
     (\<forall>c. class_ok h h1 c \<longrightarrow> class_ok h h2 c \<and> read_class h2 c = read_class h1 c) \<and>
     (\<forall>i. i \<notin> set is' \<longrightarrow> load (st_classes h2) (slot dst i) = load (st_classes h1) (slot dst i)) \<and>
     (\<forall>i \<in> set is'. class_ok h h2 (load (st_classes h2) (slot dst i)) \<and>
        read_class h2 (load (st_classes h2) (slot dst i)) = read_class h (load (st_classes h) (slot src i)))"
  using assms(5-)
proof (induction is' arbitrary: h1)
  case Nil
  then show ?case by simp
next
  case (Cons i is')
  let ?it = "load (st_classes h) (slot src i)"
  have i: "i < s_len src" "i \<notin> set is'" using Cons.prems by simp_all
  have same: "load (st_classes h1) (slot src i) = ?it"
    using ptr_ok_ext [OF slot_ok [OF src i(1)], of "st_classes h1"] Cons.prems(1) by (simp add: keeps_from_def)
  have it: "class_ok no_cells h1 ?it" "read_class h1 ?it = read_class h ?it"
    using class_kept [of no_cells h ?it h1] items i(1) Cons.prems(1) by simp_all
  obtain c h2 where c: "HCloudNodeClass_DeepCopyInto L ?it h1 = (c, h2)" by fastforce
  note one = class_copies [OF L it(1) c] and cl = class_copy_classes [OF c]
  let ?h3 = "h2\<lparr>st_classes := put (slot dst i) c (st_classes h2)\<rparr>"
  have k12: "keeps_from h h1 h2" using keeps_from_raise [OF Cons.prems(1)] one by blast
  have "prefix (st_classes h) (put (slot dst i) c (st_classes h2))"
    using Cons.prems(1,2) by (intro prefix_put) (simp_all add: cl keeps_from_def slice_ok_def slot_def)
  then have k3: "keeps_from no_cells h ?h3"
    using one Cons.prems(1) by (intro keeps_set_classes) (blast intro: keeps_from_trans)
  have d3: "slice_ok (length (st_classes h)) (st_classes ?h3) dst" using Cons.prems(2) by (simp add: cl)
  have cok: "class_ok h ?h3 c" "read_class ?h3 c = read_class h ?it"
    using one it(2) class_floor [of h1 h2 c h] Cons.prems(1) by simp_all
  have put: "load (st_classes ?h3) (slot dst j) = (if j = i then c else load (st_classes h1) (slot dst j))" for j
    using load_put [OF slot_ok [OF Cons.prems(2)], of i c "slot dst j"] i(1) len by (simp add: cl)
  have eq: "copy_items L src dst (i # is') h1 = copy_items L src dst is' ?h3" by (simp add: same c)
  have "class_ok h ?h3 d \<and> read_class ?h3 d = read_class h1 d" if "class_ok h h1 d" for d
    using class_kept [OF that k12] by simp
  note keep = this
  define h4 where "h4 = copy_items L src dst is' ?h3"
  have IH: "keeps_from no_cells h h4" "slice_ok (length (st_classes h)) (st_classes h4) dst"
    "\<And>d. class_ok h ?h3 d \<Longrightarrow> class_ok h h4 d \<and> read_class h4 d = read_class ?h3 d"
    "\<And>j. j \<notin> set is' \<Longrightarrow> load (st_classes h4) (slot dst j) = load (st_classes ?h3) (slot dst j)"
    "\<And>j. j \<in> set is' \<Longrightarrow> class_ok h h4 (load (st_classes h4) (slot dst j)) \<and>
       read_class h4 (load (st_classes h4) (slot dst j)) = read_class h (load (st_classes h) (slot src j))"
    using Cons.IH [OF k3 d3] Cons.prems(3,4) unfolding h4_def [symmetric] Let_def by auto
  have "class_ok h h4 (load (st_classes h4) (slot dst i)) \<and>
        read_class h4 (load (st_classes h4) (slot dst i)) = read_class h ?it"
    using IH(3) [OF cok(1)] cok(2) IH(4) [OF i(2)] put [of i] by simp
  moreover have "\<And>j. j \<notin> set (i # is') \<Longrightarrow> load (st_classes h4) (slot dst j) = load (st_classes h1) (slot dst j)"
    using IH(4) put by simp
  moreover have "\<And>d. class_ok h h1 d \<Longrightarrow> class_ok h h4 d \<and> read_class h4 d = read_class h1 d"
    using IH(3) keep by simp
  ultimately show ?case using IH(1,2,5) unfolding eq Let_def h4_def [symmetric] by auto
qed

lemma list_kept:
  assumes ok: "list_ok h0 h1 c" and k: "keeps_from h0 h1 h2"
  shows "list_ok h0 h2 c \<and> read_list h2 c = read_list h1 c"
proof -
  have "ext (length (st_classes h0)) (st_classes h1) (st_classes h2)" using k by (simp add: keeps_from_def)
  note slice_field.field_kept [OF _ this, of "lc_Items c"]
  moreover have "opt_ok (slice_ok (length (st_classes h0)) (st_classes h1)) (lc_Items c)"
    "\<And>it. it \<in> set (read_slice (st_classes h1) (lc_Items c)) \<Longrightarrow> class_ok h0 h1 it"
    using ok by (auto simp: list_ok_def)
  ultimately show ?thesis using class_kept [OF _ k] by (simp add: list_ok_def read_list_def)
qed

lemma list_floor: "list_ok h1 h c \<Longrightarrow> keeps_from no_cells h0 h1 \<Longrightarrow> list_ok h0 h c"
  unfolding list_ok_def using keeps_from_lengths [of h0 h1]
  by (blast intro: slice_field.field_lower class_floor)

lemma list_copies:
  assumes L: "meta_copies_equal L" and ok: "list_ok no_cells h c"
    and cp: "HCloudNodeClassList_DeepCopyInto L c h = (c', h')"
  shows "keeps_from no_cells h h' \<and> list_ok h h' c' \<and> read_list h' c' = read_list h c"
proof (cases "lc_Items c")
  case None
  with cp L show ?thesis
    by (auto simp: HCloudNodeClassList_DeepCopyInto_def list_ok_def read_list_def read_slice_def meta_copies_equal_def)
next
  case (Some src)
  obtain dst classes where mk: "make_slice (s_len src) zero_class (st_classes h) = (dst, classes)" by fastforce
  note dst = make_slice_ok [OF mk]
  have src: "slice_ok 0 (st_classes h) src" using ok Some by (simp add: list_ok_def)
  have items: "\<forall>i < s_len src. class_ok no_cells h (load (st_classes h) (slot src i))"
    using ok Some by (auto simp: list_ok_def read_slice_def elems_def)
  have h': "h' = copy_items L src dst [0..<s_len src] (h\<lparr>st_classes := classes\<rparr>)"
    and c': "lc_Items c' = Some dst" "lc_ListMeta c' = lc_ListMeta c"
    using cp Some mk L by (auto simp: HCloudNodeClassList_DeepCopyInto_def meta_copies_equal_def)
  have subset_upt: "set [0..<s_len src] \<subseteq> {..<s_len src}" by auto
  have "s_len src = s_len dst" using dst by simp
  note res = copy_items_ok [OF L src items this _ _ subset_upt distinct_upt, of "h\<lparr>st_classes := classes\<rparr>",
      folded h', unfolded Let_def]
  have k: "keeps_from no_cells h (h\<lparr>st_classes := classes\<rparr>)" using dst by (simp add: keeps_from_def)
  have d: "slice_ok (length (st_classes h)) (st_classes (h\<lparr>st_classes := classes\<rparr>)) dst"
    using conjunct2 [OF conjunct2 [OF dst]] by simp
  note res = conjunct1 [OF res [OF k d]] conjunct2 [OF res [OF k d]]
  have "elems (st_classes h') dst = map (\<lambda>i. load (st_classes h') (slot dst i)) [0..<s_len src]"
    using dst by (simp add: elems_def)
  moreover have "elems (st_classes h) src = map (\<lambda>i. load (st_classes h) (slot src i)) [0..<s_len src]"
    by (simp add: elems_def)
  ultimately show ?thesis using res c' Some
    by (simp add: list_ok_def read_list_def read_slice_def)
qed

lemma list_copier: "meta_copies_equal L \<Longrightarrow> deep_copier list_ok read_list (HCloudNodeClassList_DeepCopyInto L)"
  by unfold_locales (rule list_kept list_floor list_copies; assumption)+

section \<open>Pointers\<close>

definition at_ok ::
  "(go_store \<Rightarrow> 'c arena) \<Rightarrow> (go_store \<Rightarrow> go_store \<Rightarrow> 'c \<Rightarrow> bool) \<Rightarrow> go_store \<Rightarrow> go_store \<Rightarrow> ptr \<Rightarrow> bool" where
  "at_ok arena_of ok h0 h p \<longleftrightarrow> ptr_ok (length (arena_of h0)) (arena_of h) p \<and> ok h0 h (load (arena_of h) p)"

definition read_at :: "(go_store \<Rightarrow> 'c arena) \<Rightarrow> (go_store \<Rightarrow> 'c \<Rightarrow> 'v) \<Rightarrow> go_store \<Rightarrow> ptr \<Rightarrow> 'v" where
  "read_at arena_of read h p = read h (load (arena_of h) p)"

locale pointer_copier = deep_copier ok read copy
  for ok :: "go_store \<Rightarrow> go_store \<Rightarrow> 'c \<Rightarrow> bool" and read :: "go_store \<Rightarrow> 'c \<Rightarrow> 'v" and copy +
  fixes arena_of :: "go_store \<Rightarrow> 'c arena" and set_arena :: "'c arena \<Rightarrow> go_store \<Rightarrow> go_store" and zero :: 'c
  assumes arena_set: "arena_of (set_arena a h) = a"
    and set_kept: "keeps_from no_cells h h' \<Longrightarrow> prefix (arena_of h) a \<Longrightarrow> keeps_from no_cells h (set_arena a h')"
    and kept_arena: "keeps_from h0 h1 h2 \<Longrightarrow> ext (length (arena_of h0)) (arena_of h1) (arena_of h2)"
    and no_arena: "arena_of no_cells = []"
    and elsewhere: "ok h0 (set_arena a h) c \<longleftrightarrow> ok h0 h c" "read (set_arena a h) c = read h c"
      "ok (set_arena a h0) h c \<longleftrightarrow> ok h0 h c"
    and copy_arena: "copy c h = (c', h') \<Longrightarrow> arena_of h' = arena_of h"
begin

lemma nil_copied: "deep_copy arena_of set_arena zero copy None h = (None, h)"
  by (simp add: deep_copy_def)

lemma pointer_copies:
  assumes p: "at_ok arena_of ok no_cells h p"
    and cp: "deep_copy arena_of set_arena zero copy (Some p) h = (r, h')"
  shows "\<exists>q. r = Some q \<and> keeps_from no_cells h h' \<and> at_ok arena_of ok h h' q \<and>
    read_at arena_of read h' q = read_at arena_of read h p \<and>
    (\<exists>h0 h1. copy (load (arena_of h) p) h0 = (load (arena_of h') q, h1))"
proof -
  let ?a = "arena_of h @ [[zero]]" and ?q = "(length (arena_of h), 0 :: nat)"
  let ?h0 = "set_arena ?a h"
  have pok: "ptr_ok 0 (arena_of h) p" "ok no_cells h (load (arena_of h) p)"
    using p by (simp_all add: at_ok_def no_arena)
  then have ld: "load ?a p = load (arena_of h) p" using ptr_ok_ext [of 0 "arena_of h" p ?a] by simp
  obtain c h1 where c: "copy (load (arena_of h) p) ?h0 = (c, h1)" by fastforce
  have r: "r = Some ?q" and h': "h' = set_arena (put ?q c ?a) h1"
    using cp c ld copy_arena [OF c] by (auto simp: deep_copy_def new_cell_def arena_set)
  have "ok no_cells ?h0 (load (arena_of h) p)" using pok(2) by (simp add: elsewhere)
  note one = copies [OF this c]
  have "keeps_from no_cells h ?h0" by (rule set_kept) simp_all
  then have k: "keeps_from no_cells h h1" using one keeps_from_trans by blast
  have q: "ptr_ok (length (arena_of h)) ?a ?q" by (simp add: ptr_ok_def)
  have "keeps_from no_cells h h'" unfolding h' by (rule set_kept [OF k]) (simp add: prefix_put)
  moreover have "at_ok arena_of ok h h' ?q" "read_at arena_of read h' ?q = read h (load (arena_of h) p)"
    using one q load_put [OF q, of c ?q]
    by (simp_all add: at_ok_def read_at_def h' arena_set elsewhere)
  moreover have "load (arena_of h') ?q = c" by (simp add: h' arena_set load_put [OF q])
  ultimately show ?thesis using r c by (auto simp: read_at_def)
qed

lemma at_kept:
  assumes "at_ok arena_of ok h0 h1 p" and k: "keeps_from h0 h1 h2"
  shows "at_ok arena_of ok h0 h2 p \<and> read_at arena_of read h2 p = read_at arena_of read h1 p"
  using assms(1) kept [OF _ k] ptr_ok_ext [OF _ kept_arena [OF k]] by (simp add: at_ok_def read_at_def)

lemma at_floor:
  assumes "at_ok arena_of ok h1 h p" and k: "keeps_from no_cells h0 h1"
  shows "at_ok arena_of ok h0 h p"
proof -
  have "length (arena_of h0) \<le> length (arena_of h1)"
    using kept_arena [OF k] by (simp add: no_arena prefix_length_le)
  with assms(1) show ?thesis using floor [OF _ k] ptr_ok_floor [of "length (arena_of h1)" "arena_of h" p]
    by (simp add: at_ok_def)
qed

end

text \<open>\<open>DeepCopy\<close> of a pointer has the contract of \<open>DeepCopyInto\<close>, with the cell pointed to included.\<close>

sublocale pointer_copier \<subseteq> at: deep_copier "at_ok arena_of ok" "read_at arena_of read"
    "\<lambda>p h. (the (fst (deep_copy arena_of set_arena zero copy (Some p) h)),
            snd (deep_copy arena_of set_arena zero copy (Some p) h))"
proof
  show "keeps_from no_cells h h' \<and> at_ok arena_of ok h h' q \<and> read_at arena_of read h' q = read_at arena_of read h p"
    if "at_ok arena_of ok no_cells h p"
      and "(the (fst (deep_copy arena_of set_arena zero copy (Some p) h)),
            snd (deep_copy arena_of set_arena zero copy (Some p) h)) = (q, h')" for h p q h'
    using pointer_copies [OF that(1) prod.collapse [symmetric]] that(2) by auto
qed (rule at_kept at_floor; assumption)+

interpretation image_pointer: pointer_copier "\<lambda>h0 h c. True" "\<lambda>h c. c" ResolvedImage_DeepCopyInto
    st_images "\<lambda>a. st_images_update (\<lambda>_. a)" zero_image
  by unfold_locales (auto simp: ResolvedImage_DeepCopyInto_def keeps_from_def)

interpretation secret_pointer: pointer_copier "\<lambda>h0 h c. True" "\<lambda>h c. c" SecretRef_DeepCopyInto
    st_refs "\<lambda>a. st_refs_update (\<lambda>_. a)" zero_ref
  by unfold_locales (auto simp: SecretRef_DeepCopyInto_def keeps_from_def)

interpretation selector_pointer: pointer_copier selector_ok read_selector ImageSelector_DeepCopyInto
    st_selectors "\<lambda>a. st_selectors_update (\<lambda>_. a)" zero_selector
  by unfold_locales (auto simp: keeps_from_def selector_ok_def read_selector_def ImageSelector_DeepCopyInto_def
      split: prod.splits)

interpretation spec_pointer: pointer_copier spec_ok read_spec Spec_DeepCopyInto
    st_specs "\<lambda>a. st_specs_update (\<lambda>_. a)" zero_spec
  by unfold_locales (auto simp: keeps_from_def spec_ok_def read_spec_def selector_ok_def read_selector_def
      Spec_DeepCopyInto_def ImageSelector_DeepCopyInto_def split: prod.splits)

lemma status_pointer:
  assumes "meta_copies_equal L"
  shows "pointer_copier status_ok read_status (Status_DeepCopyInto L)
    st_statuses (\<lambda>a. st_statuses_update (\<lambda>_. a))"
  by (intro pointer_copier.intro [OF status_copier [OF assms]] pointer_copier_axioms.intro)
    (auto simp: keeps_from_def status_ok_def read_status_def Status_DeepCopyInto_def split: prod.splits)

lemma class_pointer:
  assumes "meta_copies_equal L"
  shows "pointer_copier class_ok read_class (HCloudNodeClass_DeepCopyInto L)
    st_classes (\<lambda>a. st_classes_update (\<lambda>_. a))"
  by (intro pointer_copier.intro [OF class_copier [OF assms]] pointer_copier_axioms.intro)
    (auto simp: keeps_from_def dest: class_copy_classes)

lemma copy_items_lists: "st_lists (copy_items L src dst is' h) = st_lists h"
  by (induction L src dst is' h rule: copy_items.induct)
    (auto split: prod.splits dest: class_copy_classes)

lemma list_pointer:
  assumes "meta_copies_equal L"
  shows "pointer_copier list_ok read_list (HCloudNodeClassList_DeepCopyInto L)
    st_lists (\<lambda>a. st_lists_update (\<lambda>_. a))"
proof -
  have cls: "class_ok h0 (h\<lparr>st_lists := A\<rparr>) c = class_ok h0 h c" "class_ok (h0\<lparr>st_lists := A\<rparr>) h c = class_ok h0 h c"
    "read_class (h\<lparr>st_lists := A\<rparr>) = read_class h" for h0 h A c
    by (simp_all add: fun_eq_iff class_ok_def spec_ok_def selector_ok_def status_ok_def read_class_def read_spec_def
        read_selector_def read_status_def)
  show ?thesis
    by (intro pointer_copier.intro [OF list_copier [OF assms]] pointer_copier_axioms.intro)
      (auto simp: keeps_from_def list_ok_def read_list_def cls copy_items_lists HCloudNodeClassList_DeepCopyInto_def Let_def
        split: prod.splits option.splits)
qed

section \<open>Copies of a node class\<close>

abbreviation class_at_ok :: "go_store \<Rightarrow> go_store \<Rightarrow> ptr \<Rightarrow> bool" where
  "class_at_ok \<equiv> at_ok st_classes class_ok"

definition class_at :: "go_store \<Rightarrow> ptr \<Rightarrow> node_class" where
  "class_at h p = read_at st_classes read_class h p"

text \<open>Which fields are nil. Readings do not tell a nil slice or map from an empty one, the API server does.\<close>

definition nil_fields :: "class_cell \<Rightarrow> bool list" where
  "nil_fields c =
     [sc_Locations (cc_Spec c) = None, slc_Selector (sc_ImageSelector (cc_Spec c)) = None,
      sc_FirewallIDs (cc_Spec c) = None, sc_SSHKeyIDs (cc_Spec c) = None, sc_Labels (cc_Spec c) = None,
      sc_UserDataSecretRef (cc_Spec c) = None, sc_EnablePublicIPv4 (cc_Spec c) = None,
      sc_EnablePublicIPv6 (cc_Spec c) = None, stc_Conditions (cc_Status c) = None,
      stc_ResolvedImages (cc_Status c) = None]"

lemma copies_nil:
  "copy_slice z so A = (so', A') \<Longrightarrow> so' = None \<longleftrightarrow> so = None"
  "copy_slice_each z f so A = (so', A') \<Longrightarrow> so' = None \<longleftrightarrow> so = None"
  "copy_map po M = (po', M') \<Longrightarrow> po' = None \<longleftrightarrow> po = None"
  "copy_ref z po A = (po', A') \<Longrightarrow> po' = None \<longleftrightarrow> po = None"
     apply (cases so; auto split: prod.splits)
    apply (cases so; auto split: prod.splits)
   apply (cases po; auto split: prod.splits)
  apply (cases po; auto split: prod.splits)
  done

lemma copy_keeps_nil: "HCloudNodeClass_DeepCopyInto L c h = (c', h') \<Longrightarrow> nil_fields c' = nil_fields c"
  by (auto simp: HCloudNodeClass_DeepCopyInto_def Spec_DeepCopyInto_def ImageSelector_DeepCopyInto_def
      Status_DeepCopyInto_def nil_fields_def copies_nil split: prod.splits)

text \<open>C17: Deep copies are apart. For a node class whose pointers are all good, \<open>DeepCopy\<close> returns a new
  object that reads as the original, with the same fields nil, and leaves the original as it was.
  Whatever is done later to the cells of the copy (or to any new cell), the original still reads the
  same; whatever is done later to the cells that existed before the copy, the original's among them,
  the copy still reads as the original did. This is what lets \<open>Reconcile\<close> keep \<open>nc.DeepCopy()\<close>, write
  conditions and images into \<open>nc\<close>, and compare the two to see whether status has to be written.\<close>

theorem deep_copy_isolated:
  assumes "meta_copies_equal L"
    and "class_at_ok no_cells h p"
    and "HCloudNodeClass_DeepCopy L (Some p) h = (r, h')"
  shows "\<exists>q. r = Some q \<and> class_at h' q = class_at h p \<and> class_at h' p = class_at h p \<and>
     nil_fields (load (st_classes h') q) = nil_fields (load (st_classes h) p) \<and>
     (\<forall>h2. keeps_from no_cells h h2 \<longrightarrow> class_at h2 p = class_at h p) \<and>
     (\<forall>h2. keeps_from h h' h2 \<longrightarrow> class_at h2 q = class_at h p)"
proof -
  note pc = class_pointer [OF assms(1)]
  obtain q h0 h1 where q: "r = Some q" "keeps_from no_cells h h'" "class_at_ok h h' q" "class_at h' q = class_at h p"
    and c: "HCloudNodeClass_DeepCopyInto L (load (st_classes h) p) h0 = (load (st_classes h') q, h1)"
    using pointer_copier.pointer_copies [OF pc assms(2) assms(3) [unfolded HCloudNodeClass_DeepCopy_def]]
    by (auto simp: class_at_def)
  have old: "class_at h2 p = class_at h p" if "keeps_from no_cells h h2" for h2
    using pointer_copier.at_kept [OF pc assms(2) that] by (simp add: class_at_def)
  have new: "class_at h2 q = class_at h p" if "keeps_from h h' h2" for h2
    using pointer_copier.at_kept [OF pc q(3) that] q(4) by (simp add: class_at_def)
  show ?thesis
    by (intro exI [of _ q] conjI allI impI q(1,4) old new copy_keeps_nil [OF c] q(2)) assumption+
qed

text \<open>A class with a map of labels, an address switch and one condition, all by pointer.\<close>

definition same_metas :: meta_copies where
  "same_metas = \<lparr>mc_ObjectMeta = \<lambda>m. m, mc_ListMeta = \<lambda>m. m, mc_Condition = \<lambda>c. c\<rparr>"

definition example_cell :: class_cell where
  "example_cell = zero_class\<lparr>cc_ObjectMeta := \<lparr>om_Name = ''default'', om_Generation = 2\<rparr>,
     cc_Spec := zero_spec\<lparr>sc_Locations := Some \<lparr>s_arr = 0, s_off = 1, s_len = 1\<rparr>, sc_Labels := Some (0, 0),
       sc_EnablePublicIPv4 := Some (0, 0)\<rparr>,
     cc_Status := zero_status\<lparr>stc_Conditions := Some \<lparr>s_arr = 0, s_off = 0, s_len = 1\<rparr>\<rparr>\<rparr>"

definition example_store :: go_store where
  "example_store = no_cells\<lparr>st_strings := [[''nbg1'', ''fsn1'']], st_maps := [[[(''team'', ''infra'')]]],
     st_bools := [[False]], st_conds := [[zero_condition]], st_classes := [[example_cell]]\<rparr>"

lemma example_stored: "class_at_ok no_cells example_store (0, 0)"
  by (simp add: at_ok_def class_ok_def spec_ok_def selector_ok_def status_ok_def example_store_def example_cell_def
      ptr_ok_def slice_ok_def map_ok_def load_def zero_class_def zero_spec_def zero_status_def zero_selector_def)

lemma example_labels: "class_at example_store (0, 0) = \<lparr>nc_Name = ''default'', nc_Generation = 2,
     nc_Spec = \<lparr>spec_Locations = [''fsn1''], spec_ImageSelector = \<lparr>sel_Family = [], sel_Version = [], sel_Selector = []\<rparr>,
       spec_NetworkID = 0, spec_FirewallIDs = [], spec_SSHKeyIDs = [], spec_PlacementGroupStrategy = [],
       spec_Labels = [(''team'', ''infra'')], spec_UserData = [], spec_UserDataSecretRef = None,
       spec_EnablePublicIPv4 = Some False, spec_EnablePublicIPv6 = None\<rparr>,
     nc_Conditions = [zero_condition], nc_ResolvedImages = []\<rparr>"
  by (simp add: class_at_def read_at_def read_class_def read_spec_def read_selector_def read_status_def
      example_store_def example_cell_def load_def read_slice_def read_map_def read_ref_def elems_def slot_def
      zero_class_def zero_spec_def zero_status_def zero_selector_def)

definition example_copied :: go_store where
  "example_copied = no_cells\<lparr>st_strings := [[''nbg1'', ''fsn1''], [''fsn1'']],
     st_maps := [[[(''team'', ''infra'')]], [[(''team'', ''infra'')]]], st_bools := [[False], [False]],
     st_conds := [[zero_condition], [zero_condition]],
     st_classes := [[example_cell],
       [example_cell\<lparr>cc_Spec := (cc_Spec example_cell)\<lparr>sc_Locations := Some \<lparr>s_arr = 1, s_off = 0, s_len = 1\<rparr>,
            sc_Labels := Some (1, 0), sc_EnablePublicIPv4 := Some (1, 0)\<rparr>,
          cc_Status := zero_status\<lparr>stc_Conditions := Some \<lparr>s_arr = 1, s_off = 0, s_len = 1\<rparr>\<rparr>\<rparr>]]\<rparr>"

lemma example_copy:
  "HCloudNodeClass_DeepCopy same_metas (Some (0, 0)) example_store = (Some (1, 0), example_copied)"
  by (simp add: HCloudNodeClass_DeepCopy_def deep_copy_def HCloudNodeClass_DeepCopyInto_def Spec_DeepCopyInto_def
      ImageSelector_DeepCopyInto_def Status_DeepCopyInto_def same_metas_def example_store_def example_copied_def
      example_cell_def zero_class_def zero_spec_def zero_status_def zero_selector_def new_cell_def make_slice_def
      go_copy_def elems_def load_def put_def slot_def map_put_def)

text \<open>The labels of the original are cleared after the copy; the copy still has them.\<close>

lemma deep_copy_isolated_witness:
  "HCloudNodeClass_DeepCopy same_metas (Some (0, 0)) example_store = (Some (1, 0), example_copied) \<and>
   (let later = example_copied\<lparr>st_maps := put (0, 0) [] (st_maps example_copied)\<rparr>
    in spec_Labels (nc_Spec (class_at later (0, 0))) = [] \<and> class_at later (1, 0) = class_at example_store (0, 0))"
proof -
  let ?later = "example_copied\<lparr>st_maps := put (0, 0) [] (st_maps example_copied)\<rparr>"
  have "meta_copies_equal same_metas" by (simp add: meta_copies_equal_def same_metas_def)
  from deep_copy_isolated [OF this example_stored example_copy]
  have iso: "keeps_from example_store example_copied h2 \<Longrightarrow> class_at h2 (1, 0) = class_at example_store (0, 0)" for h2
    by (elim exE conjE) (simp only: option.inject)
  have "keeps_from example_store example_copied ?later"
    by (simp add: keeps_from_def example_store_def example_copied_def ext_def put_def)
  then have "class_at ?later (1, 0) = class_at example_store (0, 0)" by (rule iso)
  moreover have "spec_Labels (nc_Spec (class_at ?later (0, 0))) = []"
    by (simp add: class_at_def read_at_def read_class_def read_spec_def example_copied_def example_cell_def
        load_def put_def read_map_def)
  ultimately show ?thesis using example_copy by (simp add: Let_def)
qed

end
