(* ===== verification/Scheme.thy ===== *)
theory Scheme
  imports Deep_Copy
begin

text \<open>
  \<open>register.go\<close>: the package makes its types known to the scheme the operator's manager is built from.
  The scheme and the builder are the Kubernetes library's; what is documented of the builder is that it
  runs the functions it was given one after the other and stops at the first error.
\<close>

record group_version =
  gv_Group :: string
  gv_Version :: string

datatype known_type = HCloudNodeClassType | HCloudNodeClassListType

record 's scheme_ops =
  so_AddKnownTypes :: "group_version \<Rightarrow> known_type list \<Rightarrow> 's \<Rightarrow> 's"
  so_AddToGroupVersion :: "group_version \<Rightarrow> 's \<Rightarrow> 's"
  so_AddToScheme :: "('s, err, unit) call list \<Rightarrow> ('s, err, unit) call"

definition SchemeGroupVersion :: group_version where
  "SchemeGroupVersion = \<lparr>gv_Group = Group, gv_Version = Version\<rparr>"

definition addKnownTypes :: "'s scheme_ops \<Rightarrow> ('s, err, unit) call" where
  "addKnownTypes ops = (\<lambda>s.
     (let s1 = so_AddKnownTypes ops SchemeGroupVersion [HCloudNodeClassType, HCloudNodeClassListType] s;
          s2 = so_AddToGroupVersion ops SchemeGroupVersion s1
      in (Ok (), s2)))"

definition SchemeBuilder :: "'s scheme_ops \<Rightarrow> ('s, err, unit) call list" where
  "SchemeBuilder ops = [addKnownTypes ops]"

definition AddToScheme :: "'s scheme_ops \<Rightarrow> ('s, err, unit) call" where
  "AddToScheme ops = so_AddToScheme ops (SchemeBuilder ops)"

text \<open>The package initialiser: \<open>utilruntime.Must\<close> panics on an error.\<close>

definition register_scheme :: "'s scheme_ops \<Rightarrow> ('s, err, unit) call" where
  "register_scheme ops = (\<lambda>s.
     case AddToScheme ops s of
       (Err e, s') \<Rightarrow> (Panic, s')
     | (r, s') \<Rightarrow> (r, s'))"

section \<open>What is documented, and what follows\<close>

fun run_builder :: "('s, err, unit) call list \<Rightarrow> ('s, err, unit) call" where
  "run_builder [] = return_call ()"
| "run_builder (f # fs) = bind_call f (\<lambda>_. run_builder fs)"

definition builder_spec :: "'s scheme_ops \<Rightarrow> bool" where
  "builder_spec ops \<longleftrightarrow> so_AddToScheme ops = run_builder"

text \<open>Importing the package never panics, and leaves both types in the scheme under the group and
  version of the CRD.\<close>

lemma package_registers_both_types:
  assumes "builder_spec ops"
  shows "register_scheme ops s =
    (Ok (), so_AddToGroupVersion ops \<lparr>gv_Group = ''karpenter.hetzner.cloud'', gv_Version = ''v1''\<rparr>
       (so_AddKnownTypes ops \<lparr>gv_Group = ''karpenter.hetzner.cloud'', gv_Version = ''v1''\<rparr>
          [HCloudNodeClassType, HCloudNodeClassListType] s))"
  using assms
  by (simp add: register_scheme_def AddToScheme_def SchemeBuilder_def addKnownTypes_def builder_spec_def
      bind_call_def return_call_def SchemeGroupVersion_def Group_def Version_def)

text \<open>A scheme that is the list of the types it knows.\<close>

definition list_scheme :: "(group_version \<times> known_type) list scheme_ops" where
  "list_scheme =
     \<lparr>so_AddKnownTypes = (\<lambda>gv ts s. map (\<lambda>t. (gv, t)) ts @ s), so_AddToGroupVersion = (\<lambda>gv s. s),
      so_AddToScheme = run_builder\<rparr>"

lemma package_registers_both_types_example:
  "fst ` set (snd (register_scheme list_scheme [])) = {SchemeGroupVersion}"
proof -
  have "builder_spec list_scheme" by (simp add: builder_spec_def list_scheme_def)
  from package_registers_both_types [OF this] show ?thesis
    by (simp add: list_scheme_def SchemeGroupVersion_def Group_def Version_def)
qed

end
