(* ===== verification/Server_Lifecycle.thy ===== *)
theory Server_Lifecycle
  imports Operator_Correct Launch
begin

text \<open>
  The server provider against the API it drives. What hcloud documents of its servers is one hypothesis,
  \<open>cloud_spec\<close>: a create adds at most one server with the labels asked for, and may have added it
  whatever it answers; a delete is accepted first and carried out later; reads and lists answer from
  what is there. Under it the provider never hides a server: whatever fails after the API accepted one,
  the server carries the labels by which \<open>List\<close> finds it and karpenter's garbage collection can delete it.
\<close>

section \<open>What the API documents\<close>

text \<open>
  \<open>cv_fleet\<close> reads off the world which servers are there, by ID, with their labels; \<open>cv_doomed\<close> which IDs
  the API has accepted a deletion of. Deletion is asynchronous: a doomed server is still there until some
  later moment, during any call or none.
\<close>

record 'w cloud_view =
  cv_fleet :: "'w \<Rightarrow> int64 \<Rightarrow> (string \<Rightarrow> string option) option"
  cv_doomed :: "'w \<Rightarrow> int64 set"

text \<open>What time does: doomed servers may go, nothing else changes.\<close>

definition fades :: "'w cloud_view \<Rightarrow> 'w \<Rightarrow> 'w \<Rightarrow> bool" where
  "fades V w w' \<longleftrightarrow>
     cv_doomed V w' = cv_doomed V w \<and>
     (\<forall>i. cv_fleet V w' i = cv_fleet V w i \<or> cv_fleet V w' i = None \<and> i \<in> cv_doomed V w)"

text \<open>A server of a new ID appears; IDs of deleted servers are not given out again.\<close>

definition grows :: "'w cloud_view \<Rightarrow> 'w \<Rightarrow> 'w \<Rightarrow> int64 \<Rightarrow> (string \<Rightarrow> string option) \<Rightarrow> bool" where
  "grows V w w' j ls \<longleftrightarrow>
     cv_doomed V w' = cv_doomed V w \<and>
     j \<notin> cv_doomed V w \<and> cv_fleet V w j = None \<and> cv_fleet V w' j = Some ls \<and>
     (\<forall>i. i \<noteq> j \<longrightarrow> cv_fleet V w' i = cv_fleet V w i \<or> cv_fleet V w' i = None \<and> i \<in> cv_doomed V w)"

text \<open>A deletion of one ID may be accepted.\<close>

definition dooms :: "'w cloud_view \<Rightarrow> int64 \<Rightarrow> 'w \<Rightarrow> 'w \<Rightarrow> bool" where
  "dooms V j w w' \<longleftrightarrow>
     (cv_doomed V w' = cv_doomed V w \<or> cv_doomed V w' = insert j (cv_doomed V w)) \<and>
     (\<forall>i. cv_fleet V w' i = cv_fleet V w i \<or> cv_fleet V w' i = None \<and> i \<in> cv_doomed V w')"

text \<open>
  A create that succeeds added the server it returns. One that fails -- with an API error, a timeout, a
  broken connection -- may have added one all the same, also when the SDK sent the request again: names
  are unique in a project, so a second request adds no second server.
\<close>

definition creates_servers :: "'w server_client \<Rightarrow> 'w cloud_view \<Rightarrow> bool" where
  "creates_servers client V \<longleftrightarrow>
     (\<forall>opts w r w'. sc_Create client opts w = (r, w') \<longrightarrow>
        (fades V w w' \<or> (\<exists>j. grows V w w' j (map_of (sco_Labels opts)))) \<and>
        (\<forall>res. r = Ok res \<longrightarrow>
           (\<exists>srv. cr_Server res = Some srv \<and> grows V w w' (srv_ID srv) (map_of (sco_Labels opts)))))"

definition gone :: "(sdk_error, 'a) outcome \<Rightarrow> bool" where
  "gone r \<longleftrightarrow> (\<exists>e. r = Err e \<and> hcloud_IsError e ErrorCodeNotFound)"

text \<open>A delete answered with success was accepted; one answered with not-found is of a server that is gone.\<close>

definition deletes_servers :: "'w server_client \<Rightarrow> 'w cloud_view \<Rightarrow> bool" where
  "deletes_servers client V \<longleftrightarrow>
     (\<forall>srv w r w'. sc_DeleteWithResult client srv w = (r, w') \<longrightarrow>
        dooms V (srv_ID srv) w w' \<and>
        (r = Ok () \<longrightarrow> srv_ID srv \<in> cv_doomed V w') \<and>
        (gone r \<longrightarrow> cv_fleet V w' (srv_ID srv) = None))"

definition reads_servers :: "'w server_client \<Rightarrow> 'w cloud_view \<Rightarrow> bool" where
  "reads_servers client V \<longleftrightarrow>
     (\<forall>i w r w'. sc_GetByID client i w = (r, w') \<longrightarrow>
        fades V w w' \<and>
        (\<forall>srv. r = Ok (Some srv) \<longrightarrow> srv_ID srv = i \<and> cv_fleet V w i \<noteq> None) \<and>
        (r = Ok None \<or> gone r \<longrightarrow> cv_fleet V w' i = None))"

text \<open>The labels a selector asks for.\<close>

definition selects :: "string \<Rightarrow> (string \<Rightarrow> string option) \<Rightarrow> bool" where
  "selects c ls \<longleftrightarrow> (\<forall>(k, v) \<in> set (list_selector_pairs c). ls k = Some v)"

text \<open>
  A list holds every matching server that is there all the while, and none that never was; one that goes
  meanwhile may be on it or not. The selector syntax is only relied on for names that the configuration
  accepts.
\<close>

definition lists_servers :: "'w server_client \<Rightarrow> 'w cloud_view \<Rightarrow> bool" where
  "lists_servers client V \<longleftrightarrow>
     (\<forall>sel w r w'. sc_AllWithOpts client sel w = (r, w') \<longrightarrow>
        fades V w w' \<and>
        (\<forall>c l. clusterNameRE c \<and> sel = list_selector c \<and> r = Ok l \<longrightarrow>
           (\<forall>srv \<in> set l. cv_fleet V w (srv_ID srv) = Some (map_of (srv_Labels srv)) \<and>
                           selects c (map_of (srv_Labels srv))) \<and>
           (\<forall>i ls. cv_fleet V w' i = Some ls \<and> selects c ls \<longrightarrow> i \<in> srv_ID ` set l)))"

definition cloud_spec :: "'w server_client \<Rightarrow> 'w cloud_view \<Rightarrow> bool" where
  "cloud_spec client V \<longleftrightarrow>
     creates_servers client V \<and> deletes_servers client V \<and> reads_servers client V \<and> lists_servers client V"

text \<open>Placement groups and waiting for actions create and delete no server.\<close>

definition bystanders :: "'w instance_provider \<Rightarrow> 'w cloud_view \<Rightarrow> bool" where
  "bystanders p V \<longleftrightarrow>
     (\<forall>pgc. ip_pgClient p = Some pgc \<longrightarrow>
        (\<forall>name. moves (fades V) (pgc_AllWithOpts pgc name) \<and> moves (fades V) (pgc_Create pgc name))) \<and>
     (\<forall>waitFor. ip_waiter p = Some waitFor \<longrightarrow> (\<forall>as. moves (fades V) (waitFor as)))"

section \<open>Fading\<close>

lemma fades_refl: "fades V w w"
  by (simp add: fades_def)

lemma fades_trans: "fades V w1 w2 \<Longrightarrow> fades V w2 w3 \<Longrightarrow> fades V w1 w3"
  unfolding fades_def by metis

abbreviation fades_in :: "'w cloud_view \<Rightarrow> ('w, 'z) env_scheme \<Rightarrow> ('w, 'z) env_scheme \<Rightarrow> bool" where
  "fades_in V s s' \<equiv> fades V (env_world s) (env_world s')"

interpretation fading: evolution "\<lambda>s s'. fades V (env_world s) (env_world s')" for V
  by unfold_locales (auto intro: fades_refl fades_trans)

lemma grows_after: "fades V w1 w2 \<Longrightarrow> grows V w2 w3 j ls \<Longrightarrow> grows V w1 w3 j ls"
  unfolding fades_def grows_def by metis

lemma grows_before: "grows V w1 w2 j ls \<Longrightarrow> fades V w2 w3 \<Longrightarrow> grows V w1 w3 j ls"
  unfolding fades_def grows_def by metis

lemma dooms_after: "fades V w1 w2 \<Longrightarrow> dooms V j w2 w3 \<Longrightarrow> dooms V j w1 w3"
  unfolding fades_def dooms_def by (metis insertI2)

lemma fades_dooms: "fades V w w' \<Longrightarrow> dooms V j w w'"
  by (simp add: fades_def dooms_def)

lemma moves_world: "moves (fades V) f \<Longrightarrow> moves (\<lambda>s s'. fades V (env_world s) (env_world s')) (on_world f)"
  by (auto simp: moves_def on_world_def split: prod.splits)

lemma fade_group:
  "bystanders p V \<Longrightarrow> moves (\<lambda>s s'. fades V (env_world s) (env_world s')) (resolve_placement_group p opts)"
  unfolding resolve_placement_group_def getOrCreatePlacementGroup_def
  by (auto simp: bystanders_def split: option.split intro!: fading.intros moves_world)

lemma fade_wait:
  "bystanders p V \<Longrightarrow> moves (\<lambda>s s'. fades V (env_world s) (env_world s')) (wait_for_actions p opts r)"
  unfolding wait_for_actions_def Let_def
  by (auto simp: bystanders_def split: option.split intro!: fading.intros moves_world)

section \<open>Create\<close>

text \<open>
  The course of a \<open>create\<close>, a panic included: it sends no create request, or exactly one, with nothing but
  time passing before and after; and it returns the server of a request that was answered with success.
\<close>

definition asks_create ::
  "'w instance_provider \<Rightarrow> create_opts \<Rightarrow> 'w cloud_view \<Rightarrow> 'w \<Rightarrow> (err, server option) outcome \<Rightarrow> 'w \<Rightarrow> bool" where
  "asks_create p opts V w r w' \<longleftrightarrow>
     fades V w w' \<and> (\<forall>v. r \<noteq> Ok v) \<or>
     (\<exists>pg w1 r0 w2. fades V w w1 \<and>
        sc_Create (ip_client p) (server_create_opts_for (ip_clusterName p) opts pg) w1 = (r0, w2) \<and>
        fades V w2 w' \<and> (\<forall>v. r = Ok v \<longrightarrow> (\<exists>res. r0 = Ok res \<and> v = cr_Server res)))"

lemma create_asks:
  assumes bs: "bystanders p V" and cr: "create p opts s = (r, s')"
  shows "asks_create p opts V (env_world s) r (env_world s')"
proof -
  obtain r1 s1 where g: "resolve_placement_group p opts s = (r1, s1)" by fastforce
  have f1: "fades_in V s s1" using movesD [OF fade_group [OF bs] g] .
  show ?thesis
  proof (cases r1)
    case (Ok pg)
    let ?o = "server_create_opts_for (ip_clusterName p) opts pg"
    obtain r2 w2 where c: "sc_Create (ip_client p) ?o (env_world s1) = (r2, w2)" by fastforce
    have "fades V w2 (env_world s') \<and> (\<forall>v. r = Ok v \<longrightarrow> (\<exists>res. r2 = Ok res \<and> v = cr_Server res))"
    proof (cases r2)
      case r2: (Ok res)
      obtain r3 s3 where w: "wait_for_actions p opts res (s1\<lparr>env_world := w2\<rparr>) = (r3, s3)" by fastforce
      have "fades V w2 (env_world s3)" using movesD [OF fade_wait [OF bs] w] by simp
      moreover have "s' = s3" "r = (case r3 of Ok _ \<Rightarrow> Ok (cr_Server res) | Err e \<Rightarrow> Err e | Panic \<Rightarrow> Panic)"
        using cr g Ok c r2 w
        by (auto simp: create_def bind_call_def wrap_call_def on_world_def return_call_def split: outcome.splits)
      ultimately show ?thesis using r2 by (auto split: outcome.splits)
    next
      case (Err e)
      have "env_world s' = w2" "r = Err (the (MapCreateError (Some e)))"
        using cr g Ok c Err
        by (auto simp: create_def bind_call_def wrap_call_def on_world_def simp del: MapCreateError.simps)
      then show ?thesis by (simp add: fades_refl)
    next
      case Panic
      have "env_world s' = w2" "r = Panic"
        using cr g Ok c Panic by (auto simp: create_def bind_call_def wrap_call_def on_world_def)
      then show ?thesis by (simp add: fades_refl)
    qed
    with f1 c show ?thesis unfolding asks_create_def
      by (intro disjI2 exI [of _ pg] exI [of _ "env_world s1"] exI [of _ r2] exI [of _ w2]) simp
  next
    case (Err e)
    then have "s' = s1" "r = Err e" using cr g by (auto simp: create_def bind_call_def)
    then show ?thesis using f1 by (simp add: asks_create_def)
  next
    case Panic
    then have "s' = s1" "r = Panic" using cr g by (auto simp: create_def bind_call_def)
    then show ?thesis using f1 by (simp add: asks_create_def)
  qed
qed

lemma Create_asks:
  assumes "bystanders p V" and "Create clock p opts s = (r, s')"
  shows "asks_create p opts V (env_world s) r (env_world s')"
proof -
  obtain r1 s1 where c: "create p opts s = (r1, s1)" by fastforce
  then have "r = r1" "env_world s' = env_world s1"
    using assms(2) by (auto simp: Create_def Let_def split: outcome.splits)
  then show ?thesis using create_asks [OF assms(1) c] by simp
qed

section \<open>The cloud provider around it\<close>

text \<open>What else \<open>Create\<close> talks to: reading the NodeClass, the Secret, the server types and the images
  touches no server, and the labels of a NodeClass are a map.\<close>

definition only_servers :: "'w cloud_provider \<Rightarrow> 'w cloud_view \<Rightarrow> bool" where
  "only_servers cp V \<longleftrightarrow>
     bystanders (cp_instanceProvider cp) V \<and>
     (\<forall>n. moves (fades V) (kube_GetNodeClass (cp_kubeClient cp) n)) \<and>
     (\<forall>ns n. moves (fades V) (kube_GetSecretData (cp_kubeClient cp) ns n)) \<and>
     moves (fades V) (cp_typeClient cp) \<and> (\<forall>q. moves (fades V) (cp_imageClient cp q)) \<and>
     (\<forall>n w nc w'. kube_GetNodeClass (cp_kubeClient cp) n w = (Ok nc, w') \<longrightarrow> go_map_ok (spec_Labels (nc_Spec nc)))"

lemma fade_class:
  "only_servers cp V \<Longrightarrow> moves (\<lambda>s s'. fades V (env_world s) (env_world s')) (resolveNodeClass cp ref)"
  unfolding resolveNodeClass_def by (auto simp: only_servers_def intro!: fading.intros moves_world)

lemma fade_image:
  "only_servers cp V \<Longrightarrow> moves (\<lambda>s s'. fades V (env_world s) (env_world s')) (resolveImage cp nc arch)"
  unfolding resolveImage_def Resolve_def resolveUbuntu_def resolveTalos_def Let_def
  by (intro fading.intros moves_world) (simp_all add: only_servers_def)

lemma fade_user_data:
  "only_servers cp V \<Longrightarrow> moves (\<lambda>s s'. fades V (env_world s) (env_world s')) (resolveUserData cp nc)"
  unfolding resolveUserData_def by (intro fading.intros moves_world) (simp_all add: only_servers_def)

lemma fade_types:
  assumes "only_servers cp V"
  shows "moves (\<lambda>s s'. fades V (env_world s) (env_world s')) (List_types kc clock (cp_typeClient cp) locations)"
proof (rule movesI)
  fix s :: "('a, 'b) tenv_scheme" and r s'
  assume L: "List_types kc clock (cp_typeClient cp) locations s = (r, s')"
  have k: "moves (fades V) (cp_typeClient cp)" using assms by (simp add: only_servers_def)
  show "fades_in V s s'"
    by (cases rule: list_cases [of clock s kc "cp_typeClient cp" locations])
      (use L movesD [OF k, of "env_world s"] in \<open>auto simp: Let_def fades_refl\<close>)
qed

text \<open>
  The same of a whole \<open>Create\<close>: at most one create request, with options of this cluster for this
  NodeClaim; a claim that is returned names the server of that request.
\<close>

definition asks_for ::
  "'w cloud_provider \<Rightarrow> node_claim \<Rightarrow> 'w cloud_view \<Rightarrow> 'w \<Rightarrow> (err, node_claim) outcome \<Rightarrow> 'w \<Rightarrow> bool" where
  "asks_for cp claim V w r w' \<longleftrightarrow>
     fades V w w' \<and> (\<forall>c. r \<noteq> Ok c) \<or>
     (\<exists>opts pg w1 r0 w2. go_map_ok (co_Labels opts) \<and> co_NodeClaim opts = ncl_Name claim \<and> fades V w w1 \<and>
        sc_Create (ip_client (cp_instanceProvider cp))
          (server_create_opts_for (ip_clusterName (cp_instanceProvider cp)) opts pg) w1 = (r0, w2) \<and>
        fades V w2 w' \<and>
        (\<forall>c. r = Ok c \<longrightarrow> (\<exists>res srv. r0 = Ok res \<and> cr_Server res = Some srv \<and>
                                    ncl_ProviderID c = FormatProviderID (srv_ID srv))))"

lemma asks_for_quiet: "fades V w w' \<Longrightarrow> (\<And>c. r \<noteq> Ok c) \<Longrightarrow> asks_for cp claim V w r w'"
  by (simp add: asks_for_def)

lemma asks_for_after: "fades V w0 w \<Longrightarrow> asks_for cp claim V w r w' \<Longrightarrow> asks_for cp claim V w0 r w'"
  unfolding asks_for_def by (meson fades_trans)

lemma class_labels_ok:
  assumes "only_servers cp V" and "resolveNodeClass cp ref s = (Ok nc, s')"
  shows "go_map_ok (spec_Labels (nc_Spec nc))"
proof -
  obtain n w where "kube_GetNodeClass (cp_kubeClient cp) n (env_world s) = (Ok nc, w)"
    using assms(2) by (auto simp: resolveNodeClass_def fail_call_def wrap_call_ok_iff on_world_eq split: option.splits)
  with assms(1) show ?thesis unfolding only_servers_def by blast
qed

lemma launch_asks:
  fixes s :: "('w, 'z) tenv_scheme"
  assumes os: "only_servers cp V" and ok: "go_map_ok (spec_Labels (nc_Spec nc))"
    and l: "launch kc clock cp claim nc it off s = (r, s')"
  shows "asks_for cp claim V (env_world s) r (env_world s')"
proof -
  obtain r1 s1 where i: "resolveImage cp nc (hcloudArchFor kc it) s = (r1, s1)" by fastforce
  have f1: "fades_in V s s1" by (rule movesD [OF fade_image [OF os] i])
  show ?thesis
  proof (cases r1)
    case img: (Ok img)
    obtain r2 s2 where u: "resolveUserData cp nc s1 = (r2, s2)" by fastforce
    have f2: "fades_in V s s2" using fades_trans [OF f1] movesD [OF fade_user_data [OF os] u] by blast
    show ?thesis
    proof (cases r2)
      case ud: (Ok ud)
      let ?o = "launch_opts kc claim nc it off img ud"
      obtain r3 s3 where c: "Create clock (cp_instanceProvider cp) ?o s2 = (r3, s3)" by fastforce
      have bs: "bystanders (cp_instanceProvider cp) V" using os by (simp add: only_servers_def)
      have opts: "go_map_ok (co_Labels ?o)" "co_NodeClaim ?o = ncl_Name claim" using ok by (simp_all add: launch_opts_def)
      have w: "env_world s' = env_world s3"
        and r: "r = (case r3 of Err e \<Rightarrow> Err (ErrWrap ''creating server: %w'' [] e) | Panic \<Rightarrow> Panic
                | Ok server \<Rightarrow> hydrate kc claim it off server)"
        using l i u c img ud
        by (auto simp: launch_def bind_call_def wrap_call_def launch_server_def lift_outcome_def
            mark_unavailable_def split: outcome.splits if_splits)
      have ret: "\<exists>srv. ncl_ProviderID d = FormatProviderID (srv_ID srv) \<and> r3 = Ok (Some srv)" if "r = Ok d" for d
        using r that by (auto simp: hydrate_def split: outcome.splits option.splits)
      from Create_asks [OF bs c] have "asks_for cp claim V (env_world s2) r (env_world s3)"
        unfolding asks_create_def
      proof
        assume "fades_in V s2 s3 \<and> (\<forall>v. r3 \<noteq> Ok v)"
        with ret show ?thesis by (intro asks_for_quiet) blast+
      next
        assume "\<exists>pg w1 r0 w2. fades V (env_world s2) w1 \<and>
          sc_Create (ip_client (cp_instanceProvider cp))
            (server_create_opts_for (ip_clusterName (cp_instanceProvider cp)) ?o pg) w1 = (r0, w2) \<and>
          fades V w2 (env_world s3) \<and> (\<forall>v. r3 = Ok v \<longrightarrow> (\<exists>res. r0 = Ok res \<and> v = cr_Server res))"
        then obtain pg w1 r0 w2 where q: "fades V (env_world s2) w1"
          "sc_Create (ip_client (cp_instanceProvider cp))
            (server_create_opts_for (ip_clusterName (cp_instanceProvider cp)) ?o pg) w1 = (r0, w2)"
          "fades V w2 (env_world s3)" "\<forall>v. r3 = Ok v \<longrightarrow> (\<exists>res. r0 = Ok res \<and> v = cr_Server res)" by (elim exE conjE) blast
        have "\<exists>res srv. r0 = Ok res \<and> cr_Server res = Some srv \<and> ncl_ProviderID d = FormatProviderID (srv_ID srv)"
          if "r = Ok d" for d
          using ret [OF that] q(4) by metis
        with opts q(1-3) show ?thesis unfolding asks_for_def
          by (intro disjI2 exI [of _ ?o] exI [of _ pg] exI [of _ w1] exI [of _ r0] exI [of _ w2]) simp
      qed
      then show ?thesis unfolding w by (rule asks_for_after [OF f2])
    next
      case (Err e)
      then have "s' = s2" "r = Err (ErrWrap ''resolving userData: %w'' [] e)"
        using l i u img by (auto simp: launch_def bind_call_def wrap_call_def)
      then show ?thesis using f2 by (simp add: asks_for_quiet)
    next
      case Panic
      then have "s' = s2" "r = Panic" using l i u img by (auto simp: launch_def bind_call_def wrap_call_def)
      then show ?thesis using f2 by (simp add: asks_for_quiet)
    qed
  next
    case (Err e)
    then have "s' = s1" "r = Err e" using l i by (auto simp: launch_def bind_call_def)
    then show ?thesis using f1 by (simp add: asks_for_quiet)
  next
    case Panic
    then have "s' = s1" "r = Panic" using l i by (auto simp: launch_def bind_call_def)
    then show ?thesis using f1 by (simp add: asks_for_quiet)
  qed
qed

lemma CloudProvider_Create_asks:
  fixes s :: "('w, 'z) tenv_scheme"
  assumes os: "only_servers cp V" and cr: "CloudProvider_Create kc clock cp claim s = (r, s')"
  shows "asks_for cp claim V (env_world s) r (env_world s')"
proof -
  obtain r0 s0 where c: "resolveNodeClass cp (ncl_NodeClassRef claim) s = (r0, s0)" by fastforce
  have f0: "fades_in V s s0" by (rule movesD [OF fade_class [OF os] c])
  show ?thesis
  proof (cases r0)
    case nc: (Ok nc)
    obtain r1 s1 where t: "List_types kc clock (cp_typeClient cp) (spec_Locations (nc_Spec nc)) s0 = (r1, s1)" by fastforce
    have f1: "fades_in V s s1" using fades_trans [OF f0 movesD [OF fade_types [OF os] t]] .
    show ?thesis
    proof (cases r1)
      case its: (Ok its)
      let ?sel = "select kc nc (ncl_Requirements claim) its"
      let ?s2 = "record_skipped (archsMissingImages ?sel) s1"
      have ok: "go_map_ok (spec_Labels (nc_Spec nc))" using class_labels_ok [OF os] c nc by blast
      show ?thesis
      proof (cases "sel_best ?sel")
        case None
        then have "env_world s' = env_world s1" "\<exists>e. r = Err e"
          using cr c t nc its by (auto simp: CloudProvider_Create_def bind_call_def wrap_call_def Let_def)
        then show ?thesis using f1 by (auto intro: asks_for_quiet)
      next
        case (Some so)
        then have "launch kc clock cp claim nc (fst so) (snd so) ?s2 = (r, s')"
          using cr c t nc its
          by (cases so) (auto simp: CloudProvider_Create_def bind_call_def wrap_call_def Let_def)
        from launch_asks [OF os ok this] show ?thesis by (simp add: asks_for_after [OF f1])
      qed
    next
      case (Err e)
      then have "s' = s1" "\<exists>e. r = Err e" using cr c t nc by (auto simp: CloudProvider_Create_def bind_call_def wrap_call_def)
      then show ?thesis using f1 by (auto intro: asks_for_quiet)
    next
      case Panic
      then have "s' = s1" "r = Panic" using cr c t nc by (auto simp: CloudProvider_Create_def bind_call_def wrap_call_def)
      then show ?thesis using f1 by (simp add: asks_for_quiet)
    qed
  next
    case (Err e)
    then have "s' = s0" "\<exists>e. r = Err e" using cr c by (auto simp: CloudProvider_Create_def bind_call_def wrap_call_def)
    then show ?thesis using f0 by (auto intro: asks_for_quiet)
  next
    case Panic
    then have "s' = s0" "r = Panic" using cr c by (auto simp: CloudProvider_Create_def bind_call_def wrap_call_def)
    then show ?thesis using f0 by (simp add: asks_for_quiet)
  qed
qed

section \<open>Labels\<close>

lemma management_distinct: "distinct (map fst (management_labels c opts))"
  by (simp add: management_labels_def server_label_defs)

lemma request_labels:
  assumes "go_map_ok (co_Labels opts)" and "(k, v) \<in> set (management_labels c opts)"
  shows "map_of (sco_Labels (server_create_opts_for c opts pg)) k = Some v"
  using assms map_of_is_SomeI [OF management_distinct assms(2)]
  by (simp add: server_create_opts_for_def create_labels_lookup)

text \<open>The labels of a request select its server for this cluster and no other, and name its NodeClaim.\<close>

definition labelled_for :: "string \<Rightarrow> string \<Rightarrow> (string \<Rightarrow> string option) \<Rightarrow> bool" where
  "labelled_for c claim ls \<longleftrightarrow>
     (\<forall>c'. selects c' ls \<longleftrightarrow> c' = c) \<and> (claim \<noteq> '''' \<longrightarrow> ls ServerLabelNodeClaim = Some claim)"

lemma labelled_request:
  assumes "go_map_ok (co_Labels opts)"
  shows "labelled_for c (co_NodeClaim opts) (map_of (sco_Labels (server_create_opts_for c opts pg)))"
proof -
  note l = request_labels [OF assms]
  have "map_of (sco_Labels (server_create_opts_for c opts pg)) ServerLabelManagedBy = Some ServerValueManagedBy"
    "map_of (sco_Labels (server_create_opts_for c opts pg)) ServerLabelCluster = Some c"
    "co_NodeClaim opts \<noteq> '''' \<Longrightarrow>
       map_of (sco_Labels (server_create_opts_for c opts pg)) ServerLabelNodeClaim = Some (co_NodeClaim opts)"
    by (rule l; simp add: management_labels_def)+
  then show ?thesis by (auto simp: labelled_for_def selects_def list_selector_pairs_def)
qed

section \<open>List\<close>

lemma List_shows:
  fixes s :: "('w, 'z) env_scheme"
  assumes "cloud_spec (ip_client p) V" and "clusterNameRE (ip_clusterName p)" and "List_servers p s = (Ok l, s')"
  shows "fades_in V s s' \<and>
    (\<forall>srv \<in> set l. cv_fleet V (env_world s) (srv_ID srv) = Some (map_of (srv_Labels srv)) \<and>
                    selects (ip_clusterName p) (map_of (srv_Labels srv))) \<and>
    (\<forall>i ls. cv_fleet V (env_world s') i = Some ls \<and> selects (ip_clusterName p) ls \<longrightarrow> i \<in> srv_ID ` set l)"
proof -
  have "sc_AllWithOpts (ip_client p) (list_selector (ip_clusterName p)) (env_world s) = (Ok l, env_world s')"
    using assms(3) by (auto simp: List_servers_def wrap_call_ok_iff on_world_eq)
  then show ?thesis using assms(1,2) unfolding cloud_spec_def lists_servers_def by blast
qed

text \<open>A claim that \<open>List\<close> shows of a server, known by its ID.\<close>

definition shows_server :: "node_claim list \<Rightarrow> int64 \<Rightarrow> bool" where
  "shows_server claims i \<longleftrightarrow> (\<exists>c \<in> set claims. ncl_ProviderID c = FormatProviderID i)"

lemma cloud_list:
  fixes s :: "('w, 'z) env_scheme"
  assumes "cloud_spec (ip_client (cp_instanceProvider cp)) V"
    and "clusterNameRE (ip_clusterName (cp_instanceProvider cp))"
    and "CloudProvider_List cp s = (Ok claims, s')"
  shows "fades_in V s s' \<and>
    (\<forall>c \<in> set claims. \<exists>i ls. ncl_ProviderID c = FormatProviderID i \<and> cv_fleet V (env_world s) i = Some ls \<and>
       selects (ip_clusterName (cp_instanceProvider cp)) ls) \<and>
    (\<forall>i ls. cv_fleet V (env_world s') i = Some ls \<and> selects (ip_clusterName (cp_instanceProvider cp)) ls \<longrightarrow>
       shows_server claims i)"
proof -
  obtain l where l: "List_servers (cp_instanceProvider cp) s = (Ok l, s')" "claims = map serverToNodeClaim l"
    using assms(3) by (auto simp: CloudProvider_List_def bind_call_ok_iff return_call_def)
  have id: "ncl_ProviderID (serverToNodeClaim srv) = FormatProviderID (srv_ID srv)" for srv
    by (simp add: serverToNodeClaim_def)
  from List_shows [OF assms(1,2) l(1)] show ?thesis unfolding l(2) shows_server_def by (auto simp: id)
qed

text \<open>A server that nobody deletes is shown.\<close>

lemma list_shows_kept:
  fixes s :: "('w, 'z) env_scheme"
  assumes "cloud_spec (ip_client (cp_instanceProvider cp)) V"
    and "clusterNameRE (ip_clusterName (cp_instanceProvider cp))"
    and "CloudProvider_List cp s = (Ok claims, s')"
    and "cv_fleet V (env_world s) i = Some ls" and "selects (ip_clusterName (cp_instanceProvider cp)) ls"
    and "i \<notin> cv_doomed V (env_world s)"
  shows "shows_server claims i"
proof -
  note l = cloud_list [OF assms(1-3)]
  have "cv_fleet V (env_world s') i = Some ls" using l assms(4,6) unfolding fades_def by metis
  with l assms(5) show ?thesis by blast
qed

section \<open>No server is hidden\<close>

text \<open>What a \<open>Create\<close> for a NodeClaim may have done to the servers: nothing, or one new server that bears
  the claim's name and the labels of the provider's cluster.\<close>

definition adds_for :: "'w cloud_provider \<Rightarrow> node_claim \<Rightarrow> 'w cloud_view \<Rightarrow> 'w \<Rightarrow> 'w \<Rightarrow> bool" where
  "adds_for cp claim V w w' \<longleftrightarrow>
     fades V w w' \<or>
     (\<exists>j ls. grows V w w' j ls \<and> labelled_for (ip_clusterName (cp_instanceProvider cp)) (ncl_Name claim) ls)"

lemma asked_adds:
  assumes "cloud_spec (ip_client (cp_instanceProvider cp)) V" and "asks_for cp claim V w r w'"
  shows "adds_for cp claim V w w' \<and>
    (\<forall>c. r = Ok c \<longrightarrow> (\<exists>j ls. ncl_ProviderID c = FormatProviderID j \<and> grows V w w' j ls \<and>
       labelled_for (ip_clusterName (cp_instanceProvider cp)) (ncl_Name claim) ls))"
  using assms(2) unfolding asks_for_def
proof
  assume "fades V w w' \<and> (\<forall>c. r \<noteq> Ok c)"
  then show ?thesis by (simp add: adds_for_def)
next
  let ?p = "cp_instanceProvider cp"
  assume "\<exists>opts pg w1 r0 w2. go_map_ok (co_Labels opts) \<and> co_NodeClaim opts = ncl_Name claim \<and> fades V w w1 \<and>
    sc_Create (ip_client ?p) (server_create_opts_for (ip_clusterName ?p) opts pg) w1 = (r0, w2) \<and> fades V w2 w' \<and>
    (\<forall>c. r = Ok c \<longrightarrow> (\<exists>res srv. r0 = Ok res \<and> cr_Server res = Some srv \<and> ncl_ProviderID c = FormatProviderID (srv_ID srv)))"
  then obtain opts pg w1 r0 w2 where q: "go_map_ok (co_Labels opts)" "co_NodeClaim opts = ncl_Name claim" "fades V w w1"
    "sc_Create (ip_client ?p) (server_create_opts_for (ip_clusterName ?p) opts pg) w1 = (r0, w2)" "fades V w2 w'"
    "\<forall>c. r = Ok c \<longrightarrow> (\<exists>res srv. r0 = Ok res \<and> cr_Server res = Some srv \<and> ncl_ProviderID c = FormatProviderID (srv_ID srv))"
    by (elim exE conjE) blast
  let ?ls = "map_of (sco_Labels (server_create_opts_for (ip_clusterName ?p) opts pg))"
  have lab: "labelled_for (ip_clusterName ?p) (ncl_Name claim) ?ls"
    using labelled_request [OF q(1)] by (simp add: q(2))
  have c: "fades V w1 w2 \<or> (\<exists>j. grows V w1 w2 j ?ls)"
    "\<forall>res. r0 = Ok res \<longrightarrow> (\<exists>srv. cr_Server res = Some srv \<and> grows V w1 w2 (srv_ID srv) ?ls)"
    using assms(1) q(4) unfolding cloud_spec_def creates_servers_def by blast+
  have g: "grows V w w' j ?ls" if "grows V w1 w2 j ?ls" for j
    by (rule grows_after [OF q(3) grows_before [OF that q(5)]])
  have "adds_for cp claim V w w'"
    using c(1) g lab fades_trans [OF q(3)] fades_trans [OF _ q(5)] unfolding adds_for_def by blast
  moreover have "\<exists>j ls. ncl_ProviderID d = FormatProviderID j \<and> grows V w w' j ls \<and>
      labelled_for (ip_clusterName ?p) (ncl_Name claim) ls" if d: "r = Ok d" for d
  proof -
    obtain res srv where "r0 = Ok res" "cr_Server res = Some srv" "ncl_ProviderID d = FormatProviderID (srv_ID srv)"
      using q(6) d by blast
    with c(2) g lab show ?thesis by fastforce
  qed
  ultimately show ?thesis by blast
qed

text \<open>C6: No server is ever hidden. However a \<open>Create\<close>, run alone, ends -- with a claim, an API error, an error
  after the API had accepted the server, a lost answer, a panic -- it has added at most one server, of a
  new ID, labelled with the NodeClaim's name and for the \<open>List\<close> of this cluster and of no other; a claim
  that is returned has that server's ID; nothing else has changed but that servers whose deletion was
  accepted may have gone. And a later \<open>List\<close> of the cluster, with only time in between, shows whatever
  \<open>Create\<close> added, also after an error. (What other calls do meanwhile is the subject of C7.)\<close>

theorem create_hides_no_server:
  fixes s :: "('w, 'z) tenv_scheme" and t :: "('w, 'y) env_scheme"
  assumes "cloud_spec (ip_client (cp_instanceProvider cp)) V" and "only_servers cp V"
    and "CloudProvider_Create kc clock cp claim s = (r, s')"
  shows "adds_for cp claim V (env_world s) (env_world s') \<and>
    (\<forall>c. r = Ok c \<longrightarrow> (\<exists>j ls. ncl_ProviderID c = FormatProviderID j \<and> grows V (env_world s) (env_world s') j ls \<and>
       labelled_for (ip_clusterName (cp_instanceProvider cp)) (ncl_Name claim) ls)) \<and>
    (\<forall>j claims t'. cv_fleet V (env_world s) j = None \<and> cv_fleet V (env_world s') j \<noteq> None \<and>
       fades V (env_world s') (env_world t) \<and> clusterNameRE (ip_clusterName (cp_instanceProvider cp)) \<and>
       CloudProvider_List cp t = (Ok claims, t') \<longrightarrow> shows_server claims j)"
proof -
  note added = asked_adds [OF assms(1) CloudProvider_Create_asks [OF assms(2,3)]]
  have "shows_server claims j"
    if j: "cv_fleet V (env_world s) j = None" "cv_fleet V (env_world s') j \<noteq> None"
      and t: "fades V (env_world s') (env_world t)" and n: "clusterNameRE (ip_clusterName (cp_instanceProvider cp))"
      and l: "CloudProvider_List cp t = (Ok claims, t')" for j claims t'
  proof -
    have "\<not> fades V (env_world s) (env_world s')" using j unfolding fades_def by metis
    with added obtain k ls where g: "grows V (env_world s) (env_world s') k ls"
      and lab: "labelled_for (ip_clusterName (cp_instanceProvider cp)) (ncl_Name claim) ls"
      unfolding adds_for_def by blast
    have "k = j" using g j unfolding grows_def by metis
    with grows_before [OF g t] have "cv_fleet V (env_world t) j = Some ls" "j \<notin> cv_doomed V (env_world t)"
      by (simp_all add: grows_def)
    with list_shows_kept [OF assms(1) n l] lab show ?thesis by (simp add: labelled_for_def)
  qed
  with added show ?thesis by blast
qed

section \<open>Delete\<close>

text \<open>
  The course of a \<open>delete\<close>: it sends no delete request, or one, for the server whose ID was asked for
  and that was found.
\<close>

definition asks_delete :: "'w instance_provider \<Rightarrow> string \<Rightarrow> 'w cloud_view \<Rightarrow> 'w \<Rightarrow> (err, unit) outcome \<Rightarrow> 'w \<Rightarrow> bool" where
  "asks_delete p pid V w r w' \<longleftrightarrow>
     fades V w w' \<and> r \<noteq> Ok () \<and>
       ((\<exists>e. r = Err e \<and> IsNodeClaimNotFoundError e) \<longrightarrow> (\<exists>i. ParseProviderID pid = Ok i \<and> cv_fleet V w' i = None)) \<or>
     (\<exists>srv w1 r0. ParseProviderID pid = Ok (srv_ID srv) \<and> cv_fleet V w (srv_ID srv) \<noteq> None \<and> fades V w w1 \<and>
        sc_DeleteWithResult (ip_client p) srv w1 = (r0, w') \<and> (r = Ok () \<longrightarrow> r0 = Ok ()) \<and>
        ((\<exists>e. r = Err e \<and> IsNodeClaimNotFoundError e) \<longrightarrow> gone r0))"

lemma delete_asks:
  fixes s :: "('w, 'z) env_scheme"
  assumes reads: "reads_servers (ip_client p) V" and d: "delete_server p pid s = (r, s')"
  shows "asks_delete p pid V (env_world s) r (env_world s')"
proof (cases "ParseProviderID pid")
  case (Ok i)
  obtain r1 w1 where g: "sc_GetByID (ip_client p) i (env_world s) = (r1, w1)" by fastforce
  note g' = reads [unfolded reads_servers_def, rule_format, OF g]
  show ?thesis
  proof (cases "\<exists>srv. r1 = Ok (Some srv)")
    case True
    then obtain srv where r1: "r1 = Ok (Some srv)" by blast
    then have i: "srv_ID srv = i" "cv_fleet V (env_world s) i \<noteq> None" using g' by blast+
    obtain r2 w2 where x: "sc_DeleteWithResult (ip_client p) srv w1 = (r2, w2)" by fastforce
    have res: "env_world s' = w2" "r = (case r2 of Ok u \<Rightarrow> Ok u | Panic \<Rightarrow> Panic
        | Err e \<Rightarrow> Err (if hcloud_IsError e ErrorCodeNotFound then not_found i
                        else ErrWrap ''deleting server %d: %w'' [AInt i] (ErrSdk e)))"
      using d Ok g r1 x
      by (auto simp: delete_server_def bind_call_def wrap_call_def lift_outcome_def on_world_def split: outcome.splits)
    have "r = Ok () \<longrightarrow> r2 = Ok ()" "(\<exists>e. r = Err e \<and> IsNodeClaimNotFoundError e) \<longrightarrow> gone r2"
      using res(2) by (auto simp: gone_def err_simps split: outcome.splits if_splits)
    with x i g' Ok show ?thesis unfolding asks_delete_def res(1)
      by (intro disjI2 exI [of _ srv] exI [of _ w1] exI [of _ r2]) simp
  next
    case False
    then have res: "env_world s' = w1" "r \<noteq> Ok ()"
        "(\<exists>e. r = Err e \<and> IsNodeClaimNotFoundError e) \<longrightarrow> r1 = Ok None \<or> gone r1"
      using d Ok g
      by (auto simp: delete_server_def bind_call_def wrap_call_def lift_outcome_def on_world_def fail_call_def
          gone_def err_simps split: outcome.splits option.splits if_splits)
    then show ?thesis using Ok g' by (auto simp: asks_delete_def)
  qed
next
  case (Err e)
  then have "s' = s" "r = Err (ErrWrap ''parsing provider ID %q: %w'' [AStr pid] e)"
    using d by (auto simp: delete_server_def bind_call_def wrap_call_def lift_outcome_def)
  moreover have "\<not> IsNodeClaimNotFoundError e" using Err
    by (auto simp: ParseProviderID_def err_simps split: if_splits outcome.splits option.splits)
  ultimately show ?thesis by (simp add: asks_delete_def fades_refl err_simps)
next
  case Panic
  then have "s' = s" "r = Panic" using d by (auto simp: delete_server_def bind_call_def wrap_call_def lift_outcome_def)
  then show ?thesis by (simp add: asks_delete_def fades_refl)
qed

lemma Delete_asks:
  fixes s :: "('w, 'z) env_scheme"
  assumes "reads_servers (ip_client p) V" and "Delete p pid s = (r, s')"
  shows "asks_delete p pid V (env_world s) r (env_world s')"
proof -
  obtain r1 s1 where d: "delete_server p pid s = (r1, s1)" by fastforce
  then have "r = r1" "env_world s' = env_world s1"
    using assms(2) by (auto simp: Delete_def split: outcome.splits)
  then show ?thesis using delete_asks [OF assms(1) d] by simp
qed

lemma delete_of_id:
  fixes s2 :: "('w, 'z) env_scheme"
  assumes reads: "reads_servers (ip_client (cp_instanceProvider cp)) V"
    and dels: "deletes_servers (ip_client (cp_instanceProvider cp)) V"
    and c: "ncl_ProviderID c = FormatProviderID i" and d: "CloudProvider_Delete cp c s2 = (r, s3)"
  shows "dooms V i (env_world s2) (env_world s3) \<and> (r = Ok () \<longrightarrow> i \<in> cv_doomed V (env_world s3)) \<and>
    ((\<exists>e. r = Err e \<and> IsNodeClaimNotFoundError e) \<longrightarrow> cv_fleet V (env_world s3) i = None) \<and>
    (cv_fleet V (env_world s2) i = None \<longrightarrow> r \<noteq> Ok ())"
proof -
  have pid: "ParseProviderID (FormatProviderID i) = Ok i" by (simp add: provider_id.dec_enc)
  have "Delete (cp_instanceProvider cp) (FormatProviderID i) s2 = (r, s3)" using d by (simp add: CloudProvider_Delete_def c)
  from Delete_asks [OF reads this] show ?thesis unfolding asks_delete_def pid
  proof
    assume "fades_in V s2 s3 \<and> r \<noteq> Ok () \<and>
      ((\<exists>e. r = Err e \<and> IsNodeClaimNotFoundError e) \<longrightarrow> (\<exists>j. Ok i = Ok j \<and> cv_fleet V (env_world s3) j = None))"
    then show ?thesis by (auto simp: fades_dooms)
  next
    assume "\<exists>srv w1 r0. Ok i = Ok (srv_ID srv) \<and> cv_fleet V (env_world s2) (srv_ID srv) \<noteq> None \<and> fades V (env_world s2) w1 \<and>
      sc_DeleteWithResult (ip_client (cp_instanceProvider cp)) srv w1 = (r0, env_world s3) \<and> (r = Ok () \<longrightarrow> r0 = Ok ()) \<and>
      ((\<exists>e. r = Err e \<and> IsNodeClaimNotFoundError e) \<longrightarrow> gone r0)"
    then obtain srv w1 r0 where q: "srv_ID srv = i" "cv_fleet V (env_world s2) i \<noteq> None" "fades V (env_world s2) w1"
      "sc_DeleteWithResult (ip_client (cp_instanceProvider cp)) srv w1 = (r0, env_world s3)" "r = Ok () \<longrightarrow> r0 = Ok ()"
      "(\<exists>e. r = Err e \<and> IsNodeClaimNotFoundError e) \<longrightarrow> gone r0" by auto
    have "dooms V i w1 (env_world s3) \<and> (r0 = Ok () \<longrightarrow> i \<in> cv_doomed V (env_world s3)) \<and>
        (gone r0 \<longrightarrow> cv_fleet V (env_world s3) i = None)"
      using dels [unfolded deletes_servers_def, rule_format, OF q(4)] by (simp add: q(1))
    moreover from this have "dooms V i (env_world s2) (env_world s3)" using dooms_after [OF q(3)] by simp
    ultimately show ?thesis using q(2,5,6) by auto
  qed
qed

text \<open>C9: What \<open>List\<close> shows can be collected. The claims \<open>List\<close> returns are of servers with this cluster's
  labels that were there, and every one that is there all the while has its claim. A \<open>Delete\<close> of such a
  claim, whenever it is made, touches no other server; if it ends in success, the API has accepted the
  deletion of that server; if it ends in not-found, which lets karpenter drop its finalizer, the server
  is gone; and once the server is gone no \<open>Delete\<close> succeeds any more, so karpenter does not wait for it
  for ever. So garbage collection, which deletes listed claims no NodeClaim asks for, reaches every
  server \<open>Create\<close> may have left behind.\<close>

theorem listed_claims_are_collectable:
  fixes s :: "('w, 'z) env_scheme" and s2 :: "('w, 'y) env_scheme"
  assumes "cloud_spec (ip_client (cp_instanceProvider cp)) V"
    and "clusterNameRE (ip_clusterName (cp_instanceProvider cp))"
    and "CloudProvider_List cp s = (Ok claims, s1)"
  shows "(\<forall>i ls. cv_fleet V (env_world s1) i = Some ls \<and> selects (ip_clusterName (cp_instanceProvider cp)) ls \<longrightarrow>
       shows_server claims i) \<and>
    (\<forall>c \<in> set claims. \<exists>i ls. ncl_ProviderID c = FormatProviderID i \<and> cv_fleet V (env_world s) i = Some ls \<and>
       selects (ip_clusterName (cp_instanceProvider cp)) ls \<and>
       (\<forall>r s3. CloudProvider_Delete cp c s2 = (r, s3) \<longrightarrow>
          dooms V i (env_world s2) (env_world s3) \<and>
          (r = Ok () \<longrightarrow> i \<in> cv_doomed V (env_world s3)) \<and>
          ((\<exists>e. r = Err e \<and> IsNodeClaimNotFoundError e) \<longrightarrow> cv_fleet V (env_world s3) i = None) \<and>
          (cv_fleet V (env_world s2) i = None \<longrightarrow> r \<noteq> Ok ())))"
proof (rule conjI)
  note l = cloud_list [OF assms]
  show "\<forall>i ls. cv_fleet V (env_world s1) i = Some ls \<and> selects (ip_clusterName (cp_instanceProvider cp)) ls \<longrightarrow>
       shows_server claims i" using l by blast
  have reads: "reads_servers (ip_client (cp_instanceProvider cp)) V"
    and dels: "deletes_servers (ip_client (cp_instanceProvider cp)) V" using assms(1) by (simp_all add: cloud_spec_def)
  note del = delete_of_id [OF reads dels]
  show "\<forall>c \<in> set claims. \<exists>i ls. ncl_ProviderID c = FormatProviderID i \<and> cv_fleet V (env_world s) i = Some ls \<and>
       selects (ip_clusterName (cp_instanceProvider cp)) ls \<and>
       (\<forall>r s3. CloudProvider_Delete cp c s2 = (r, s3) \<longrightarrow>
          dooms V i (env_world s2) (env_world s3) \<and>
          (r = Ok () \<longrightarrow> i \<in> cv_doomed V (env_world s3)) \<and>
          ((\<exists>e. r = Err e \<and> IsNodeClaimNotFoundError e) \<longrightarrow> cv_fleet V (env_world s3) i = None) \<and>
          (cv_fleet V (env_world s2) i = None \<longrightarrow> r \<noteq> Ok ()))"
  proof
    fix c assume "c \<in> set claims"
    then obtain i ls where "ncl_ProviderID c = FormatProviderID i" "cv_fleet V (env_world s) i = Some ls"
      "selects (ip_clusterName (cp_instanceProvider cp)) ls" using l by blast
    with del [of c i] show "\<exists>i ls. ncl_ProviderID c = FormatProviderID i \<and> cv_fleet V (env_world s) i = Some ls \<and>
       selects (ip_clusterName (cp_instanceProvider cp)) ls \<and>
       (\<forall>r s3. CloudProvider_Delete cp c s2 = (r, s3) \<longrightarrow>
          dooms V i (env_world s2) (env_world s3) \<and>
          (r = Ok () \<longrightarrow> i \<in> cv_doomed V (env_world s3)) \<and>
          ((\<exists>e. r = Err e \<and> IsNodeClaimNotFoundError e) \<longrightarrow> cv_fleet V (env_world s3) i = None) \<and>
          (cv_fleet V (env_world s2) i = None \<longrightarrow> r \<noteq> Ok ()))" by blast
  qed
qed

section \<open>Fleets over time\<close>

text \<open>
  Any number of clusters and goroutines share the project, and their calls overlap: what the API sees is
  some interleaving of their requests. Of those, the creates and the deletes are kept; anything else --
  reads, lists, the other services, time -- only lets doomed servers go.
\<close>

datatype request =
    CreateRequest string create_opts "(sdk_error, server_create_result) outcome"
  | DeleteRequest int64

inductive requests :: "'w server_client set \<Rightarrow> 'w cloud_view \<Rightarrow> 'w \<Rightarrow> request list \<Rightarrow> 'w \<Rightarrow> bool" for clients V where
  none: "requests clients V w [] w"
| creates: "requests clients V w evs w1 \<Longrightarrow> client \<in> clients \<Longrightarrow> go_map_ok (co_Labels opts) \<Longrightarrow>
     sc_Create client (server_create_opts_for c opts pg) w1 = (r, w2) \<Longrightarrow>
     requests clients V w (evs @ [CreateRequest c opts r]) w2"
| deletes: "requests clients V w evs w1 \<Longrightarrow> client \<in> clients \<Longrightarrow>
     sc_DeleteWithResult client srv w1 = (r, w2) \<Longrightarrow>
     requests clients V w (evs @ [DeleteRequest (srv_ID srv)]) w2"
| fading: "requests clients V w evs w1 \<Longrightarrow> fades V w1 w2 \<Longrightarrow> requests clients V w evs w2"

lemma requests_append:
  assumes "requests clients V w2 evs' w3" and "requests clients V w1 evs w2"
  shows "requests clients V w1 (evs @ evs') w3"
  using assms
proof (induction rule: requests.induct)
  case (none w)
  then show ?case by simp
next
  case (creates w evs' w1 client opts c pg r w2)
  from requests.creates [OF creates.IH [OF creates.prems] creates.hyps(2-4)] show ?case by simp
next
  case (deletes w evs' w1 client srv r w2)
  from requests.deletes [OF deletes.IH [OF deletes.prems] deletes.hyps(2,3)] show ?case by simp
next
  case (fading w evs' w1 w2)
  from requests.fading [OF fading.IH [OF fading.prems] fading.hyps(2)] show ?case .
qed

text \<open>The calls karpenter core makes, each run alone, are such sequences of requests.\<close>

datatype cp_op = OpCreate node_claim | OpDelete node_claim | OpGet string | OpList

fun do_op ::
  "karp_core \<Rightarrow> ('w \<Rightarrow> go_time) \<Rightarrow> 'w cloud_provider \<Rightarrow> cp_op \<Rightarrow> ('w, 'z) tenv_scheme \<Rightarrow> ('w, 'z) tenv_scheme" where
  "do_op kc clock cp (OpCreate claim) s = snd (CloudProvider_Create kc clock cp claim s)"
| "do_op kc clock cp (OpDelete claim) s = snd (CloudProvider_Delete cp claim s)"
| "do_op kc clock cp (OpGet pid) s = snd (CloudProvider_Get cp pid s)"
| "do_op kc clock cp OpList s = snd (CloudProvider_List cp s)"

lemma fade_list:
  assumes "lists_servers (ip_client (cp_instanceProvider cp)) V"
  shows "moves (\<lambda>s s'. fades V (env_world s) (env_world s')) (CloudProvider_List cp)"
proof -
  have "moves (fades V) (sc_AllWithOpts (ip_client (cp_instanceProvider cp)) sel)" for sel
    using assms by (auto simp: moves_def lists_servers_def)
  then show ?thesis unfolding CloudProvider_List_def List_servers_def by (intro fading.intros moves_world)
qed

lemma fade_Get:
  assumes "reads_servers (ip_client p) V"
  shows "moves (\<lambda>s s'. fades V (env_world s) (env_world s')) (Get p pid)"
proof (rule movesI)
  fix s :: "('a, 'b) env_scheme" and r s'
  assume G: "Get p pid s = (r, s')"
  show "fades_in V s s'"
  proof (cases "ParseProviderID pid")
    case (Ok i)
    obtain r1 w where c: "sc_GetByID (ip_client p) i (env_world s) = (r1, w)" by fastforce
    have "env_world s' = w" using G Ok c
      by (auto simp: Get_def bind_call_def wrap_call_def lift_outcome_def on_world_def split: outcome.splits if_splits)
    then show ?thesis using assms c unfolding reads_servers_def by blast
  qed (use G in \<open>auto simp: Get_def bind_call_def wrap_call_def lift_outcome_def fades_refl\<close>)
qed

lemma fade_cloud_get:
  "reads_servers (ip_client (cp_instanceProvider cp)) V \<Longrightarrow>
     moves (\<lambda>s s'. fades V (env_world s) (env_world s')) (CloudProvider_Get cp pid)"
  unfolding CloudProvider_Get_def by (intro fading.intros fade_Get)

lemma calls_are_requests:
  fixes s :: "('w, 'z) tenv_scheme"
  assumes "cloud_spec (ip_client (cp_instanceProvider cp)) V" and "only_servers cp V"
  shows "\<exists>evs. requests {ip_client (cp_instanceProvider cp)} V (env_world s) evs (env_world (do_op kc clock cp op s))"
proof -
  let ?C = "{ip_client (cp_instanceProvider cp)}"
  have reads: "reads_servers (ip_client (cp_instanceProvider cp)) V"
    and lists: "lists_servers (ip_client (cp_instanceProvider cp)) V" using assms(1) by (simp_all add: cloud_spec_def)
  have quiet: "\<exists>evs. requests ?C V w evs w'" if "fades V w w'" for w w'
    using requests.fading [OF requests.none that] by blast
  show ?thesis
  proof (cases op)
    case (OpCreate claim)
    obtain r s' where c: "CloudProvider_Create kc clock cp claim s = (r, s')" by fastforce
    from CloudProvider_Create_asks [OF assms(2) c]
    have "\<exists>evs. requests ?C V (env_world s) evs (env_world s')"
      unfolding asks_for_def
    proof
      assume "fades_in V s s' \<and> (\<forall>c. r \<noteq> Ok c)"
      then show ?thesis by (simp add: quiet)
    next
      assume "\<exists>opts pg w1 r0 w2. go_map_ok (co_Labels opts) \<and> co_NodeClaim opts = ncl_Name claim \<and>
        fades V (env_world s) w1 \<and>
        sc_Create (ip_client (cp_instanceProvider cp))
          (server_create_opts_for (ip_clusterName (cp_instanceProvider cp)) opts pg) w1 = (r0, w2) \<and>
        fades V w2 (env_world s') \<and>
        (\<forall>c. r = Ok c \<longrightarrow> (\<exists>res srv. r0 = Ok res \<and> cr_Server res = Some srv \<and>
                                    ncl_ProviderID c = FormatProviderID (srv_ID srv)))"
      then obtain opts pg w1 r0 w2 where q: "go_map_ok (co_Labels opts)" "fades V (env_world s) w1"
        "sc_Create (ip_client (cp_instanceProvider cp))
           (server_create_opts_for (ip_clusterName (cp_instanceProvider cp)) opts pg) w1 = (r0, w2)"
        "fades V w2 (env_world s')" by (elim exE conjE) blast
      show ?thesis
        by (rule exI, rule requests.fading [OF requests.creates [OF requests.fading [OF requests.none q(2)] singletonI q(1,3)] q(4)])
    qed
    then show ?thesis using c by (simp add: OpCreate)
  next
    case (OpDelete claim)
    obtain r s' where c: "CloudProvider_Delete cp claim s = (r, s')" by fastforce
    then have "Delete (cp_instanceProvider cp) (ncl_ProviderID claim) s = (r, s')" by (simp add: CloudProvider_Delete_def)
    from Delete_asks [OF reads this]
    have "fades_in V s s' \<or> (\<exists>srv w1 r0. fades V (env_world s) w1 \<and>
        sc_DeleteWithResult (ip_client (cp_instanceProvider cp)) srv w1 = (r0, env_world s'))"
      unfolding asks_delete_def by blast
    then have "\<exists>evs. requests ?C V (env_world s) evs (env_world s')"
    proof
      assume "fades_in V s s'"
      then show ?thesis by (rule quiet)
    next
      assume "\<exists>srv w1 r0. fades V (env_world s) w1 \<and>
        sc_DeleteWithResult (ip_client (cp_instanceProvider cp)) srv w1 = (r0, env_world s')"
      then obtain srv w1 r0 where q: "fades V (env_world s) w1"
        "sc_DeleteWithResult (ip_client (cp_instanceProvider cp)) srv w1 = (r0, env_world s')" by blast
      show ?thesis
        by (rule exI, rule requests.deletes [OF requests.fading [OF requests.none q(1)] singletonI q(2)])
    qed
    then show ?thesis using c by (simp add: OpDelete)
  next
    case (OpGet pid)
    obtain r s' where c: "CloudProvider_Get cp pid s = (r, s')" by fastforce
    show ?thesis using quiet movesD [OF fade_cloud_get [OF reads] c] c by (simp add: OpGet)
  next
    case OpList
    obtain r s' where c: "CloudProvider_List cp s = (r, s')" by fastforce
    show ?thesis using quiet movesD [OF fade_list [OF lists] c] c by (simp add: OpList)
  qed
qed

text \<open>What is known of the servers after a sequence of requests.\<close>

definition accounted :: "'w cloud_view \<Rightarrow> 'w \<Rightarrow> request list \<Rightarrow> 'w \<Rightarrow> bool" where
  "accounted V w evs w' \<longleftrightarrow>
     (\<forall>i ls. cv_fleet V w' i = Some ls \<longrightarrow> cv_fleet V w i = Some ls \<or>
        (\<exists>c opts r. CreateRequest c opts r \<in> set evs \<and> labelled_for c (co_NodeClaim opts) ls)) \<and>
     (\<forall>i ls. cv_fleet V w i = Some ls \<and> i \<notin> cv_doomed V w \<and> DeleteRequest i \<notin> set evs \<longrightarrow>
        cv_fleet V w' i = Some ls \<and> i \<notin> cv_doomed V w') \<and>
     (\<forall>c opts res srv. CreateRequest c opts (Ok res) \<in> set evs \<and> cr_Server res = Some srv \<and>
        DeleteRequest (srv_ID srv) \<notin> set evs \<longrightarrow>
        (\<exists>ls. cv_fleet V w' (srv_ID srv) = Some ls \<and> selects c ls) \<and> srv_ID srv \<notin> cv_doomed V w')"

lemma fades_facts:
  "fades V w1 w2 \<Longrightarrow> cv_doomed V w2 = cv_doomed V w1"
  "fades V w1 w2 \<Longrightarrow> cv_fleet V w2 i = Some ls \<Longrightarrow> cv_fleet V w1 i = Some ls"
  "fades V w1 w2 \<Longrightarrow> cv_fleet V w1 i = Some ls \<Longrightarrow> i \<notin> cv_doomed V w1 \<Longrightarrow> cv_fleet V w2 i = Some ls"
  unfolding fades_def by (blast, metis option.distinct(1), metis)

lemma grows_facts:
  "grows V w1 w2 j l \<Longrightarrow> cv_doomed V w2 = cv_doomed V w1"
  "grows V w1 w2 j l \<Longrightarrow> j \<notin> cv_doomed V w1"
  "grows V w1 w2 j l \<Longrightarrow> cv_fleet V w1 j = None"
  "grows V w1 w2 j l \<Longrightarrow> cv_fleet V w2 j = Some l"
  "grows V w1 w2 j l \<Longrightarrow> i \<noteq> j \<Longrightarrow> cv_fleet V w2 i = Some ls \<Longrightarrow> cv_fleet V w1 i = Some ls"
  "grows V w1 w2 j l \<Longrightarrow> cv_fleet V w1 i = Some ls \<Longrightarrow> i \<notin> cv_doomed V w1 \<Longrightarrow> cv_fleet V w2 i = Some ls"
  unfolding grows_def by (blast, blast, blast, blast, metis option.distinct(1), metis option.distinct(1))

lemma accounted_fading:
  assumes "accounted V w evs w1" and "fades V w1 w2"
  shows "accounted V w evs w2"
proof -
  note f = fades_facts [OF assms(2)]
  have 1: "cv_fleet V w i = Some ls \<or>
      (\<exists>c opts r. CreateRequest c opts r \<in> set evs \<and> labelled_for c (co_NodeClaim opts) ls)"
    if "cv_fleet V w2 i = Some ls" for i ls
    using assms(1) f(2) [OF that] unfolding accounted_def by blast
  have 2: "cv_fleet V w2 i = Some ls \<and> i \<notin> cv_doomed V w2"
    if "cv_fleet V w i = Some ls" "i \<notin> cv_doomed V w" "DeleteRequest i \<notin> set evs" for i ls
    using that assms(1) f(1,3) unfolding accounted_def by simp
  have 3: "(\<exists>ls. cv_fleet V w2 (srv_ID srv) = Some ls \<and> selects c ls) \<and> srv_ID srv \<notin> cv_doomed V w2"
    if q: "CreateRequest c opts (Ok res) \<in> set evs" "cr_Server res = Some srv" "DeleteRequest (srv_ID srv) \<notin> set evs"
    for c opts res srv
  proof -
    obtain ls where "cv_fleet V w1 (srv_ID srv) = Some ls" "selects c ls" "srv_ID srv \<notin> cv_doomed V w1"
      using assms(1) q unfolding accounted_def by blast
    then show ?thesis using f(1,3) by auto
  qed
  from 1 2 3 show ?thesis unfolding accounted_def by blast
qed

lemma accounted_more: "accounted V w evs w' \<Longrightarrow> set evs \<subseteq> set evs' \<Longrightarrow>
    (\<And>c opts res srv. CreateRequest c opts (Ok res) \<in> set evs' \<Longrightarrow> CreateRequest c opts (Ok res) \<notin> set evs \<Longrightarrow>
       cr_Server res = Some srv \<Longrightarrow> (\<exists>ls. cv_fleet V w' (srv_ID srv) = Some ls \<and> selects c ls) \<and> srv_ID srv \<notin> cv_doomed V w') \<Longrightarrow>
    accounted V w evs' w'"
  unfolding accounted_def by blast

lemma accounted_grows:
  assumes "accounted V w evs w1" and "grows V w1 w2 j ls" and "labelled_for c (co_NodeClaim opts) ls"
    and "\<And>res srv. r = Ok res \<Longrightarrow> cr_Server res = Some srv \<Longrightarrow> srv_ID srv = j"
  shows "accounted V w (evs @ [CreateRequest c opts r]) w2"
proof -
  note g = grows_facts [OF assms(2)]
  have sel: "selects c ls" using assms(3) by (simp add: labelled_for_def)
  have 1: "cv_fleet V w i = Some ls' \<or>
      (\<exists>c' o' r'. CreateRequest c' o' r' \<in> set (evs @ [CreateRequest c opts r]) \<and> labelled_for c' (co_NodeClaim o') ls')"
    if "cv_fleet V w2 i = Some ls'" for i ls'
  proof (cases "i = j")
    case True
    then have "ls' = ls" using that g(4) by simp
    with assms(3) show ?thesis by auto
  next
    case False
    from assms(1) g(5) [OF this that]
    have "cv_fleet V w i = Some ls' \<or>
        (\<exists>c' o' r'. CreateRequest c' o' r' \<in> set evs \<and> labelled_for c' (co_NodeClaim o') ls')"
      unfolding accounted_def by blast
    then show ?thesis by auto
  qed
  have 2: "cv_fleet V w2 i = Some ls' \<and> i \<notin> cv_doomed V w2"
    if "cv_fleet V w i = Some ls'" "i \<notin> cv_doomed V w" "DeleteRequest i \<notin> set (evs @ [CreateRequest c opts r])" for i ls'
    using that assms(1) g(1,6) unfolding accounted_def by simp
  have 3: "(\<exists>ls. cv_fleet V w2 (srv_ID srv) = Some ls \<and> selects c' ls) \<and> srv_ID srv \<notin> cv_doomed V w2"
    if "CreateRequest c' o' (Ok res) \<in> set (evs @ [CreateRequest c opts r])" "cr_Server res = Some srv"
      "DeleteRequest (srv_ID srv) \<notin> set (evs @ [CreateRequest c opts r])" for c' o' res srv
  proof (cases "CreateRequest c' o' (Ok res) \<in> set evs")
    case True
    then have "(\<exists>ls. cv_fleet V w1 (srv_ID srv) = Some ls \<and> selects c' ls) \<and> srv_ID srv \<notin> cv_doomed V w1"
      using assms(1) that(2,3) unfolding accounted_def by simp
    then show ?thesis using g(1,6) by auto
  next
    case False
    then have "c' = c" "r = Ok res" using that(1) by auto
    then have "srv_ID srv = j" using assms(4) that(2) by blast
    then show ?thesis using g(1,2,4) sel \<open>c' = c\<close> by auto
  qed
  from 1 2 3 show ?thesis unfolding accounted_def by blast
qed

lemma accounted_dooms:
  assumes "accounted V w evs w1" and "dooms V j w1 w2"
  shows "accounted V w (evs @ [DeleteRequest j]) w2"
proof -
  have d: "\<And>i. i \<noteq> j \<Longrightarrow> i \<in> cv_doomed V w2 \<Longrightarrow> i \<in> cv_doomed V w1"
    "\<And>i ls. cv_fleet V w2 i = Some ls \<Longrightarrow> cv_fleet V w1 i = Some ls"
    "\<And>i ls. cv_fleet V w1 i = Some ls \<Longrightarrow> i \<notin> cv_doomed V w2 \<Longrightarrow> cv_fleet V w2 i = Some ls"
    using assms(2) unfolding dooms_def by (metis insertE, metis option.distinct(1), metis)
  have 1: "cv_fleet V w i = Some ls \<or>
      (\<exists>c' o' r'. CreateRequest c' o' r' \<in> set (evs @ [DeleteRequest j]) \<and> labelled_for c' (co_NodeClaim o') ls)"
    if "cv_fleet V w2 i = Some ls" for i ls
  proof -
    from assms(1) d(2) [OF that] have "cv_fleet V w i = Some ls \<or>
        (\<exists>c' o' r'. CreateRequest c' o' r' \<in> set evs \<and> labelled_for c' (co_NodeClaim o') ls)"
      unfolding accounted_def by blast
    then show ?thesis by auto
  qed
  have 2: "cv_fleet V w2 i = Some ls \<and> i \<notin> cv_doomed V w2"
    if "cv_fleet V w i = Some ls" "i \<notin> cv_doomed V w" "DeleteRequest i \<notin> set (evs @ [DeleteRequest j])" for i ls
  proof -
    have "cv_fleet V w1 i = Some ls" "i \<notin> cv_doomed V w1" using that assms(1) unfolding accounted_def by auto
    moreover have "i \<noteq> j" using that(3) by auto
    ultimately show ?thesis using d by blast
  qed
  have 3: "(\<exists>ls. cv_fleet V w2 (srv_ID srv) = Some ls \<and> selects c' ls) \<and> srv_ID srv \<notin> cv_doomed V w2"
    if "CreateRequest c' o' (Ok res) \<in> set (evs @ [DeleteRequest j])" "cr_Server res = Some srv"
      "DeleteRequest (srv_ID srv) \<notin> set (evs @ [DeleteRequest j])" for c' o' res srv
  proof -
    have "CreateRequest c' o' (Ok res) \<in> set evs" "DeleteRequest (srv_ID srv) \<notin> set evs" "srv_ID srv \<noteq> j"
      using that(1,3) by auto
    moreover from this that(2) have "(\<exists>ls. cv_fleet V w1 (srv_ID srv) = Some ls \<and> selects c' ls) \<and> srv_ID srv \<notin> cv_doomed V w1"
      using assms(1) unfolding accounted_def by blast
    ultimately show ?thesis using d by blast
  qed
  from 1 2 3 show ?thesis unfolding accounted_def by blast
qed

lemma requests_accounted:
  assumes "requests clients V w evs w'" and "\<forall>client \<in> clients. cloud_spec client V"
  shows "accounted V w evs w'"
  using assms
proof (induction rule: requests.induct)
  case (none w)
  then show ?case by (simp add: accounted_def)
next
  case (creates w evs w1 client opts c pg r w2)
  let ?ls = "map_of (sco_Labels (server_create_opts_for c opts pg))"
  have lab: "labelled_for c (co_NodeClaim opts) ?ls" by (rule labelled_request [OF creates.hyps(3)])
  have acc: "accounted V w evs w1" using creates by blast
  have cr: "fades V w1 w2 \<or> (\<exists>j. grows V w1 w2 j ?ls)"
    "\<forall>res. r = Ok res \<longrightarrow> (\<exists>srv. cr_Server res = Some srv \<and> grows V w1 w2 (srv_ID srv) ?ls)"
    using creates.prems creates.hyps(2,4) unfolding cloud_spec_def creates_servers_def by blast+
  show ?case
  proof (cases "\<exists>res. r = Ok res")
    case True
    then obtain res srv where "r = Ok res" "cr_Server res = Some srv" "grows V w1 w2 (srv_ID srv) ?ls" using cr(2) by blast
    then show ?thesis by (intro accounted_grows [OF acc _ lab]) auto
  next
    case False
    from cr(1) show ?thesis
    proof
      assume "fades V w1 w2"
      note accounted_fading [OF acc this]
      then show ?thesis by (rule accounted_more) (use False in auto)
    next
      assume "\<exists>j. grows V w1 w2 j ?ls"
      then obtain j where "grows V w1 w2 j ?ls" by blast
      from accounted_grows [OF acc this lab] False show ?thesis by blast
    qed
  qed
next
  case (deletes w evs w1 client srv r w2)
  have "dooms V (srv_ID srv) w1 w2"
    using deletes.prems deletes.hyps(2,3) unfolding cloud_spec_def deletes_servers_def by blast
  with deletes show ?case by (blast intro: accounted_dooms)
next
  case (fading w evs w1 w2)
  then show ?case by (blast intro: accounted_fading)
qed

text \<open>C7: Nothing is lost and nothing foreign is listed. Let any clusters that share the project call as they
  like, also at the same time, so that their requests to create and to delete servers reach the API in
  any order. In a \<open>List\<close> that follows, every claim is of a server with this cluster's labels that was
  there before or that a request of this same cluster made, for the NodeClaim its label names; and every
  server of the cluster that was there before and not being deleted, or that was returned by one of its
  create requests since, is listed unless one of the requests was to delete it.\<close>

theorem list_tracks_creates_and_deletes:
  fixes s :: "('w, 'z) env_scheme"
  assumes "\<forall>client \<in> clients. cloud_spec client V" and "requests clients V w evs (env_world s)"
    and "ip_client (cp_instanceProvider cp) \<in> clients" and "ip_clusterName (cp_instanceProvider cp) = cluster"
    and "clusterNameRE cluster" and "CloudProvider_List cp s = (Ok claims, s')"
  shows "(\<forall>c \<in> set claims. \<exists>i ls. ncl_ProviderID c = FormatProviderID i \<and> selects cluster ls \<and>
       (cv_fleet V w i = Some ls \<or>
        (\<exists>opts r. CreateRequest cluster opts r \<in> set evs \<and> labelled_for cluster (co_NodeClaim opts) ls))) \<and>
    (\<forall>i ls. cv_fleet V w i = Some ls \<and> selects cluster ls \<and> i \<notin> cv_doomed V w \<and> DeleteRequest i \<notin> set evs \<longrightarrow>
       shows_server claims i) \<and>
    (\<forall>opts res srv. CreateRequest cluster opts (Ok res) \<in> set evs \<and> cr_Server res = Some srv \<and>
       DeleteRequest (srv_ID srv) \<notin> set evs \<longrightarrow> shows_server claims (srv_ID srv))"
proof -
  have spec: "cloud_spec (ip_client (cp_instanceProvider cp)) V" using assms(1,3) by blast
  have name: "clusterNameRE (ip_clusterName (cp_instanceProvider cp))" by (simp add: assms(4,5))
  have acc: "accounted V w evs (env_world s)" by (rule requests_accounted [OF assms(2,1)])
  note l = cloud_list [OF spec name assms(6), unfolded assms(4)]
  note kept = list_shows_kept [OF spec name assms(6), unfolded assms(4)]
  have 1: "\<exists>i ls. ncl_ProviderID c = FormatProviderID i \<and> selects cluster ls \<and>
       (cv_fleet V w i = Some ls \<or>
        (\<exists>opts r. CreateRequest cluster opts r \<in> set evs \<and> labelled_for cluster (co_NodeClaim opts) ls))"
    if "c \<in> set claims" for c
  proof -
    obtain i ls where i: "ncl_ProviderID c = FormatProviderID i" "cv_fleet V (env_world s) i = Some ls" "selects cluster ls"
      using l \<open>c \<in> set claims\<close> by blast
    then have "cv_fleet V w i = Some ls \<or>
        (\<exists>c' opts r. CreateRequest c' opts r \<in> set evs \<and> labelled_for c' (co_NodeClaim opts) ls)"
      using acc unfolding accounted_def by blast
    then have "cv_fleet V w i = Some ls \<or>
        (\<exists>opts r. CreateRequest cluster opts r \<in> set evs \<and> labelled_for cluster (co_NodeClaim opts) ls)"
      using i(3) unfolding labelled_for_def by metis
    with i show ?thesis by blast
  qed
  have 2: "shows_server claims i"
    if "cv_fleet V w i = Some ls" "selects cluster ls" "i \<notin> cv_doomed V w" "DeleteRequest i \<notin> set evs" for i ls
    using acc that unfolding accounted_def by (blast intro: kept)
  have 3: "shows_server claims (srv_ID srv)"
    if "CreateRequest cluster opts (Ok res) \<in> set evs" "cr_Server res = Some srv" "DeleteRequest (srv_ID srv) \<notin> set evs"
    for opts res srv
    using acc that unfolding accounted_def by (blast intro: kept)
  from 1 2 3 show ?thesis by blast
qed


section \<open>A cloud in memory\<close>

text \<open>
  An hcloud that keeps its servers in a list, numbers them, carries accepted deletions out when it is
  next read, and answers the create of a server named \<open>lost\<close> with an API error after adding the server, as
  the API answers a request that was sent again.
\<close>

record memory_world =
  mw_now :: go_time
  mw_servers :: "server list"
  mw_doomed :: "int64 list"
  mw_next :: int64

definition memory_find :: "memory_world \<Rightarrow> int64 \<Rightarrow> server option" where
  "memory_find w i = find (\<lambda>x. srv_ID x = i) (mw_servers w)"

definition memory_sweep :: "memory_world \<Rightarrow> memory_world" where
  "memory_sweep w = w\<lparr>mw_servers := filter (\<lambda>x. srv_ID x \<notin> set (mw_doomed w)) (mw_servers w)\<rparr>"

definition memory_made :: "server_create_opts \<Rightarrow> int64 \<Rightarrow> server" where
  "memory_made opts i =
     \<lparr>srv_ID = i, srv_Image = sco_Image opts, srv_ServerType = None, srv_Location = Some (sco_Location opts),
      srv_PrivateNet = map Some (sco_Networks opts), srv_Firewalls = map Some (sco_Firewalls opts),
      srv_Labels = sco_Labels opts\<rparr>"

definition memory_selects :: "string \<Rightarrow> server \<Rightarrow> bool" where
  "memory_selects sel x \<longleftrightarrow>
     map_of (srv_Labels x) ServerLabelManagedBy = Some ServerValueManagedBy \<and>
     (case map_of (srv_Labels x) ServerLabelCluster of None \<Rightarrow> False | Some c \<Rightarrow> sel = list_selector c)"

definition memory_servers :: "memory_world server_client" where
  "memory_servers =
     \<lparr>sc_Create = (\<lambda>opts w.
        if memory_find w (mw_next w) \<noteq> None \<or> mw_next w \<in> set (mw_doomed w)
        then (Err (api_err ErrorCodeResourceLimitExceeded), w)
        else (let srv = memory_made opts (mw_next w)
              in (if sco_Name opts = ''lost'' then Err (api_err (ErrorCodeOther ''uniqueness_error''))
                  else Ok \<lparr>cr_Server = Some srv, cr_Action = None, cr_NextActions = []\<rparr>,
                  w\<lparr>mw_servers := srv # mw_servers w, mw_next := mw_next w + 1\<rparr>))),
      sc_DeleteWithResult = (\<lambda>srv w.
        if memory_find w (srv_ID srv) = None then (Err (api_err ErrorCodeNotFound), w)
        else (Ok (), w\<lparr>mw_doomed := srv_ID srv # mw_doomed w\<rparr>)),
      sc_GetByID = (\<lambda>i w. (Ok (memory_find (memory_sweep w) i), memory_sweep w)),
      sc_AllWithOpts = (\<lambda>sel w.
        (Ok (filter (\<lambda>x. memory_find w (srv_ID x) = Some x \<and> memory_selects sel x) (mw_servers w)), w))\<rparr>"

definition memory_view :: "memory_world cloud_view" where
  "memory_view =
     \<lparr>cv_fleet = (\<lambda>w i. map_option (\<lambda>x. map_of (srv_Labels x)) (memory_find w i)),
      cv_doomed = (\<lambda>w. set (mw_doomed w))\<rparr>"

lemma memory_view_sel [simp]:
  "cv_fleet memory_view w i = map_option (\<lambda>x. map_of (srv_Labels x)) (memory_find w i)"
  "cv_doomed memory_view w = set (mw_doomed w)"
  by (simp_all add: memory_view_def)

lemma memory_find_id: "memory_find w i = Some x \<Longrightarrow> srv_ID x = i \<and> x \<in> set (mw_servers w)"
  by (auto simp: memory_find_def find_Some_iff)

lemma find_kept: "find (\<lambda>x. srv_ID x = i) (filter (\<lambda>x. srv_ID x \<notin> D) l) = (if i \<in> D then None else find (\<lambda>x. srv_ID x = i) l)"
  by (induction l) auto

lemma memory_find_sweep: "memory_find (memory_sweep w) i = (if i \<in> set (mw_doomed w) then None else memory_find w i)"
  by (simp add: memory_find_def memory_sweep_def find_kept)

lemma memory_sweep_doomed [simp]: "mw_doomed (memory_sweep w) = mw_doomed w"
  by (simp add: memory_sweep_def)

lemma memory_selects_cluster: "memory_selects (list_selector c) x \<longleftrightarrow> selects c (map_of (srv_Labels x))"
  by (auto simp: memory_selects_def selects_def list_selector_pairs_def list_selector_def split: option.splits)

lemma memory_grows:
  assumes "memory_find w (mw_next w) = None" and "mw_next w \<notin> set (mw_doomed w)"
  shows "grows memory_view w (w\<lparr>mw_servers := memory_made opts (mw_next w) # mw_servers w, mw_next := n\<rparr>)
    (mw_next w) (map_of (sco_Labels opts))"
  using assms by (simp add: grows_def memory_find_def memory_made_def)

lemma memory_cloud: "cloud_spec memory_servers memory_view"
  unfolding cloud_spec_def
proof (intro conjI)
  show "creates_servers memory_servers memory_view" unfolding creates_servers_def
  proof (intro allI impI, goal_cases)
    case (1 opts w r w')
    show ?case
    proof (cases "memory_find w (mw_next w) \<noteq> None \<or> mw_next w \<in> set (mw_doomed w)")
      case True
      with 1 show ?thesis by (auto simp: memory_servers_def fades_refl)
    next
      case False
      then have "grows memory_view w w' (mw_next w) (map_of (sco_Labels opts))"
        using 1 memory_grows [of w] by (auto simp: memory_servers_def Let_def)
      with 1 False show ?thesis by (auto simp: memory_servers_def Let_def memory_made_def split: if_splits)
    qed
  qed
  show "deletes_servers memory_servers memory_view"
    by (auto simp: deletes_servers_def memory_servers_def dooms_def gone_def api_err_def memory_find_def
        hcloud_IsError_def)
  show "reads_servers memory_servers memory_view"
    by (auto simp: reads_servers_def memory_servers_def gone_def fades_def memory_find_sweep
        dest: memory_find_id split: if_splits)
  show "lists_servers memory_servers memory_view" unfolding lists_servers_def
  proof (intro allI impI conjI, goal_cases)
    case (1 sel w r w')
    then show ?case by (auto simp: memory_servers_def fades_refl)
  next
    case (2 sel w r w' c l)
    then show ?case by (auto simp: memory_servers_def memory_selects_cluster)
  next
    case (3 sel w r w' c l i ls)
    then obtain x where "memory_find w i = Some x" "selects c (map_of (srv_Labels x))"
      by (auto simp: memory_servers_def)
    moreover from this memory_find_id have "srv_ID x = i" "x \<in> set (mw_servers w)" by blast+
    ultimately show ?case using 3 by (auto simp: memory_servers_def memory_selects_cluster intro: rev_image_eqI)
  qed
qed

definition memory_provider :: "string \<Rightarrow> memory_world cloud_provider" where
  "memory_provider c =
     \<lparr>cp_kubeClient =
        \<lparr>kube_GetNodeClass = (\<lambda>n w. (Ok (toy_class x86_only), w)),
         kube_GetSecretData = (\<lambda>ns n w. (Err (KubeNotFound ''secret''), w)),
         kube_UpdateStatus = (\<lambda>nc w. (Ok (), w))\<rparr>,
      cp_instanceProvider = NewProvider memory_servers c,
      cp_typeClient = (\<lambda>w. (Err (api_err ErrorCodeNotFound), w)),
      cp_imageClient = (\<lambda>q w. (Ok [], w))\<rparr>"

lemma memory_provider_sel [simp]:
  "ip_client (cp_instanceProvider (memory_provider c)) = memory_servers"
  "ip_clusterName (cp_instanceProvider (memory_provider c)) = c"
  by (simp_all add: memory_provider_def NewProvider_def)

lemma memory_others: "only_servers (memory_provider c) memory_view"
  by (auto simp: only_servers_def bystanders_def memory_provider_def NewProvider_def moves_def fades_refl
      toy_class_def toy_spec_def)

definition memory_server :: server where
  "memory_server =
     \<lparr>srv_ID = 3, srv_Image = None, srv_ServerType = None, srv_Location = None, srv_PrivateNet = [],
      srv_Firewalls = [],
      srv_Labels = [(ServerLabelManagedBy, ServerValueManagedBy), (ServerLabelCluster, ''prod'')]\<rparr>"

lemma memory_server_selected: "selects ''prod'' (map_of (srv_Labels memory_server))"
  by (simp add: selects_def list_selector_pairs_def memory_server_def server_label_defs)

definition memory_state :: "memory_world tenv" where
  "memory_state =
     \<lparr>env_world = \<lparr>mw_now = 10, mw_servers = [memory_server], mw_doomed = [], mw_next = 4\<rparr>,
      env_metrics = initial_metrics, te_types = store 5 toy_types NewTypeProvider\<rparr>"

lemma prod_name: "clusterNameRE ''prod''"
  by (simp add: clusterNameRE_def name_char_def)

text \<open>A create whose second request is refused: the server of the first is there, under the claim's name.\<close>

lemma memory_list:
  "List_types example_core mw_now tc [''nbg1''] memory_state = (Ok toy_listed, record_metric RecordCacheHit memory_state)"
proof -
  have "freshCache (mw_now (env_world memory_state)) (te_types memory_state) = Some toy_types"
    by (simp add: memory_state_def freshCache_def store_def cacheTTL_def time_defs)
  moreover have "offered example_core mw_now [''nbg1''] toy_types memory_state = toy_listed"
    by (simp add: offered_def filterByLocations_def filter_type_def applyAvailability_def available_offering_def
        toy_types_def toy_listed_def toy_type_def memory_state_def NewTypeProvider_def store_def
        newUnavailableCache_def isUnavailable_def)
  ultimately show ?thesis by (simp add: List_types_hit)
qed

lemma memory_lost:
  "\<exists>e s'. CloudProvider_Create example_core mw_now (memory_provider ''prod'')
       (toy_claim\<lparr>ncl_Name := ''lost''\<rparr>) memory_state = (Err e, s') \<and>
     (\<exists>x. memory_find (env_world s') 4 = Some x)"
proof -
  let ?cp = "memory_provider ''prod''" and ?claim = "toy_claim\<lparr>ncl_Name := ''lost''\<rparr>"
  have cls: "resolveNodeClass ?cp (ncl_NodeClassRef ?claim) memory_state = (Ok (toy_class x86_only), memory_state)"
    by (simp add: resolveNodeClass_def memory_provider_def wrap_call_def on_world_def toy_claim_def empty_node_claim_def)
  have locs: "spec_Locations (nc_Spec (toy_class x86_only)) = [''nbg1'']" by (simp add: toy_class_def toy_spec_def)
  have reqs: "ncl_Requirements ?claim = []" by (simp add: toy_claim_def empty_node_claim_def)
  let ?s2 = "record_skipped {ArchitectureARM} (record_metric RecordCacheHit memory_state)"
  let ?o = "launch_opts example_core ?claim (toy_class x86_only) toy_pick toy_off (status_image 42 ArchitectureX86) ''#!''"
  have run: "CloudProvider_Create example_core mw_now ?cp ?claim memory_state =
      launch example_core mw_now ?cp ?claim (toy_class x86_only) toy_pick toy_off ?s2"
    unfolding CloudProvider_Create_def bind_call_def wrap_call_def cls reqs
    by (simp add: locs memory_list toy_select Let_def)
  have img: "resolveImage ?cp (toy_class x86_only) (hcloudArchFor example_core toy_pick) s =
      (Ok (status_image 42 ArchitectureX86), s)" for s :: "memory_world tenv"
    by (simp add: resolveImage_def x86_only_def toy_pick_def return_call_def)
  have w: "env_world ?s2 = \<lparr>mw_now = 10, mw_servers = [memory_server], mw_doomed = [], mw_next = 4\<rparr>"
    by (simp add: memory_state_def)
  have name: "co_Name ?o = ''lost''" by (simp add: launch_opts_def)
  obtain e s1 where c: "Create mw_now (cp_instanceProvider ?cp) ?o ?s2 = (Err e, s1)"
      "mw_servers (env_world s1) = [memory_made (server_create_opts_for ''prod'' ?o None) 4, memory_server]"
    by (simp add: Create_def create_def resolve_placement_group_def bind_call_def wrap_call_def return_call_def
        on_world_def memory_provider_def NewProvider_def Let_def memory_servers_def w name server_create_opts_for_def
        memory_server_def memory_find_def del: record_skipped_frame(2))
  have "launch example_core mw_now ?cp ?claim (toy_class x86_only) toy_pick toy_off ?s2 =
      (Err (ErrWrap ''creating server: %w'' [] e),
       if IsInsufficientCapacityError e then mark_unavailable mw_now (co_ServerType ?o) (co_Location ?o) s1 else s1)"
    by (simp add: launch_def bind_call_def wrap_call_def img launch_server_def c(1))
  moreover have "env_world (if IsInsufficientCapacityError e then mark_unavailable mw_now (co_ServerType ?o) (co_Location ?o) s1 else s1)
      = env_world s1" by (simp add: mark_unavailable_def)
  ultimately show ?thesis
    unfolding run by (simp add: memory_find_def c(2) memory_made_def)
qed

lemma memory_shows:
  "\<exists>claims s'. CloudProvider_List (memory_provider c) s = (Ok claims, s') \<and> env_world s' = env_world s"
  by (auto simp: CloudProvider_List_def List_servers_def bind_call_def wrap_call_def on_world_def return_call_def
      memory_servers_def memory_provider_def NewProvider_def)

lemma memory_deleted:
  "\<exists>s'. CloudProvider_Delete (memory_provider ''prod'') (serverToNodeClaim memory_server) memory_state = (Ok (), s') \<and>
     (\<exists>x. memory_find (env_world s') 3 = Some x)"
proof -
  have "ParseProviderID (ncl_ProviderID (serverToNodeClaim memory_server)) = Ok (3 :: int64)"
    by (simp add: serverToNodeClaim_def provider_id.dec_enc memory_server_def)
  then show ?thesis
    by (simp add: CloudProvider_Delete_def Delete_def delete_server_def bind_call_def wrap_call_def on_world_def
        lift_outcome_def memory_servers_def memory_state_def memory_provider_def NewProvider_def memory_server_def
        memory_find_def memory_sweep_def)
qed

section \<open>Witnesses\<close>

text \<open>A create that ends in an API error although its server is there: the next \<open>List\<close> shows it.\<close>

theorem create_hides_no_server_witness:
  "\<exists>e s' claims t'. CloudProvider_Create example_core mw_now (memory_provider ''prod'')
       (toy_claim\<lparr>ncl_Name := ''lost''\<rparr>) memory_state = (Err e, s') \<and>
     CloudProvider_List (memory_provider ''prod'') s' = (Ok claims, t') \<and> shows_server claims 4"
proof -
  obtain e s' x where run: "CloudProvider_Create example_core mw_now (memory_provider ''prod'')
       (toy_claim\<lparr>ncl_Name := ''lost''\<rparr>) memory_state = (Err e, s')" "memory_find (env_world s') 4 = Some x"
    using memory_lost by blast
  obtain claims t' where l: "CloudProvider_List (memory_provider ''prod'') s' = (Ok claims, t')"
    using memory_shows by blast
  have spec: "cloud_spec (ip_client (cp_instanceProvider (memory_provider ''prod''))) memory_view"
    and name: "clusterNameRE (ip_clusterName (cp_instanceProvider (memory_provider ''prod'')))"
    by (simp_all add: memory_cloud prod_name)
  have old: "cv_fleet memory_view (env_world memory_state) 4 = None" and new: "cv_fleet memory_view (env_world s') 4 \<noteq> None"
    using run(2) by (simp_all add: memory_find_def memory_state_def memory_server_def)
  note shown = conjunct2 [OF conjunct2 [OF create_hides_no_server [OF spec memory_others run(1), where t = s']], rule_format]
  have "shows_server claims 4" by (rule shown [where t' = t']) (intro conjI old new fades_refl name l)
  with run(1) l show ?thesis by blast
qed

text \<open>A listed claim is deleted: the deletion is accepted while the server is still there.\<close>

theorem listed_claims_are_collectable_witness:
  "\<exists>claims s1 c s3. CloudProvider_List (memory_provider ''prod'') memory_state = (Ok claims, s1) \<and> c \<in> set claims \<and>
     CloudProvider_Delete (memory_provider ''prod'') c memory_state = (Ok (), s3) \<and>
     3 \<in> cv_doomed memory_view (env_world s3) \<and> cv_fleet memory_view (env_world s3) 3 \<noteq> None"
proof -
  obtain claims s1 where l: "CloudProvider_List (memory_provider ''prod'') memory_state = (Ok claims, s1)"
    and w: "env_world s1 = env_world memory_state" using memory_shows by blast
  obtain s3 x where d: "CloudProvider_Delete (memory_provider ''prod'') (serverToNodeClaim memory_server) memory_state = (Ok (), s3)"
      "memory_find (env_world s3) 3 = Some x"
    using memory_deleted by blast
  have spec: "cloud_spec (ip_client (cp_instanceProvider (memory_provider ''prod''))) memory_view"
    and name: "clusterNameRE (ip_clusterName (cp_instanceProvider (memory_provider ''prod'')))"
    by (simp_all add: memory_cloud prod_name)
  note col = listed_claims_are_collectable [OF spec name l, where ?s2.0 = memory_state]
  have "cv_fleet memory_view (env_world s1) 3 = Some (map_of (srv_Labels memory_server)) \<and>
      selects (ip_clusterName (cp_instanceProvider (memory_provider ''prod''))) (map_of (srv_Labels memory_server))"
    by (simp add: memory_server_selected) (simp add: w memory_find_def memory_state_def memory_server_def)
  with conjunct1 [OF col] have "shows_server claims 3" by blast
  then obtain c where c: "c \<in> set claims" "ncl_ProviderID c = FormatProviderID 3" unfolding shows_server_def by blast
  have run: "CloudProvider_Delete (memory_provider ''prod'') c memory_state = (Ok (), s3)"
    using d(1) by (simp add: CloudProvider_Delete_def c(2) serverToNodeClaim_def memory_server_def)
  obtain i where i: "ncl_ProviderID c = FormatProviderID i" "i \<in> cv_doomed memory_view (env_world s3)"
    using conjunct2 [OF col] c(1) run by blast
  have "Ok i = (Ok 3 :: (err, int64) outcome)" using i(1) c(2) by (metis provider_id.dec_enc)
  with i(2) have "3 \<in> cv_doomed memory_view (env_world s3)" by simp
  with l c(1) run d(2) show ?thesis by auto
qed

text \<open>Two clusters create at the same time and the other one deletes its server again: this cluster still
  lists what it had and what it created.\<close>

abbreviation memory_request :: "string \<Rightarrow> server_create_opts" where
  "memory_request c \<equiv> server_create_opts_for c (example_opts\<lparr>co_Labels := []\<rparr>) None"

theorem list_tracks_creates_and_deletes_witness:
  "\<exists>w claims s'. CloudProvider_List (memory_provider ''prod'') (memory_state\<lparr>env_world := w\<rparr>) = (Ok claims, s') \<and>
     mw_next w = 6 \<and> shows_server claims 3 \<and> shows_server claims 5"
proof -
  let ?o = "example_opts\<lparr>co_Labels := []\<rparr>"
  let ?w0 = "env_world memory_state"
  let ?dev = "memory_made (memory_request ''dev'') 4" and ?prod = "memory_made (memory_request ''prod'') 5"
  let ?ans = "\<lambda>x. \<lparr>cr_Server = Some x, cr_Action = None, cr_NextActions = []\<rparr>"
  let ?w1 = "\<lparr>mw_now = 10, mw_servers = [?dev, memory_server], mw_doomed = [], mw_next = 5\<rparr>"
  let ?w2 = "\<lparr>mw_now = 10, mw_servers = [?prod, ?dev, memory_server], mw_doomed = [], mw_next = 6\<rparr>"
  let ?w3 = "\<lparr>mw_now = 10, mw_servers = [?prod, ?dev, memory_server], mw_doomed = [4], mw_next = 6\<rparr>"
  let ?s = "memory_state\<lparr>env_world := ?w3\<rparr>"
  have name: "sco_Name (memory_request c) \<noteq> ''lost''" for c by (simp add: server_create_opts_for_def example_opts_def)
  have ok: "go_map_ok (co_Labels ?o)" by simp
  have c1: "sc_Create memory_servers (memory_request ''dev'') ?w0 = (Ok (?ans ?dev), ?w1)"
    using name by (simp add: memory_servers_def memory_state_def memory_find_def memory_server_def Let_def)
  have c2: "sc_Create memory_servers (memory_request ''prod'') ?w1 = (Ok (?ans ?prod), ?w2)"
    using name by (simp add: memory_servers_def memory_find_def memory_server_def memory_made_def Let_def)
  have c3: "sc_DeleteWithResult memory_servers ?dev ?w2 = (Ok (), ?w3)"
    by (simp add: memory_servers_def memory_find_def memory_made_def)
  have "requests {memory_servers} memory_view ?w0
      ((([] @ [CreateRequest ''dev'' ?o (Ok (?ans ?dev))]) @ [CreateRequest ''prod'' ?o (Ok (?ans ?prod))]) @
       [DeleteRequest (srv_ID ?dev)]) ?w3"
    by (rule requests.deletes [OF requests.creates [OF requests.creates [OF requests.none singletonI ok c1] singletonI ok c2]
          singletonI c3])
  then have run: "requests {memory_servers} memory_view ?w0
      [CreateRequest ''dev'' ?o (Ok (?ans ?dev)), CreateRequest ''prod'' ?o (Ok (?ans ?prod)), DeleteRequest 4]
      (env_world ?s)" by (simp add: memory_made_def)
  obtain claims s' where l: "CloudProvider_List (memory_provider ''prod'') ?s = (Ok claims, s')" using memory_shows by blast
  have spec: "\<forall>client \<in> {memory_servers}. cloud_spec client memory_view" by (simp add: memory_cloud)
  note t = list_tracks_creates_and_deletes [where cp = "memory_provider ''prod''" and cluster = "''prod''",
      OF spec run _ _ prod_name l, simplified memory_provider_sel, OF singletonI refl]
  have "cv_fleet memory_view ?w0 3 = Some (map_of (srv_Labels memory_server)) \<and>
      selects ''prod'' (map_of (srv_Labels memory_server)) \<and> 3 \<notin> cv_doomed memory_view ?w0 \<and>
      DeleteRequest 3 \<notin> set [CreateRequest ''dev'' ?o (Ok (?ans ?dev)), CreateRequest ''prod'' ?o (Ok (?ans ?prod)), DeleteRequest 4]"
    by (simp add: memory_server_selected) (simp add: memory_state_def memory_find_def memory_server_def)
  with conjunct1 [OF conjunct2 [OF t]] have "shows_server claims 3" by blast
  moreover have "shows_server claims (srv_ID ?prod)"
    by (rule conjunct2 [OF conjunct2 [OF t], rule_format, of ?o "?ans ?prod"]) (simp add: memory_made_def)
  ultimately show ?thesis using l by (intro exI [of _ ?w3] exI [of _ claims] exI [of _ s']) (simp add: memory_made_def)
qed

end
