(* ===== verification/Capacity_Retries.thy ===== *)
theory Capacity_Retries
  imports Launch
begin

text \<open>
  What happens when Hetzner is out of capacity: karpenter retries, \<open>Create\<close> after \<open>Create\<close>, for one claim
  or many, and many at a time. Each failure marks the pair it tried, so the retries walk through the
  catalogue instead of hammering its cheapest entry, and end after at most as many attempts as there are
  pairs for each \<open>Create\<close> that can be under way at once.
\<close>

text \<open>A launch that does not end in an error marks nothing.\<close>

lemma launch_keeps:
  assumes "launch kc clock cp claim nc it off s = (r, t)" and "\<And>e. r \<noteq> Err e"
  shows "te_types t = te_types s"
proof -
  obtain r1 sa where i: "resolveImage cp nc (hcloudArchFor kc it) s = (r1, sa)" by fastforce
  have sa: "te_types sa = te_types s" by (rule keepsD [OF keeps_resolveImage i])
  show ?thesis
  proof (cases r1)
    case img: (Ok img)
    obtain r2 sb where u: "resolveUserData cp nc sa = (r2, sb)" by fastforce
    have sb: "te_types sb = te_types s" using keepsD [OF keeps_resolveUserData u] sa by simp
    show ?thesis
    proof (cases r2)
      case ud: (Ok ud)
      obtain r3 s1 where c: "Create clock (cp_instanceProvider cp) (launch_opts kc claim nc it off img ud) sb = (r3, s1)"
        by fastforce
      have s1: "te_types s1 = te_types s" using keepsD [OF keeps_Create c] sb by simp
      show ?thesis using assms i u c img ud s1
        by (cases r3) (auto simp: launch_def bind_call_def wrap_call_def launch_server_def lift_outcome_def)
    qed (use assms i u img sb in \<open>auto simp: launch_def bind_call_def wrap_call_def\<close>)
  qed (use assms i sa in \<open>auto simp: launch_def bind_call_def\<close>)
qed

section \<open>Marks that last\<close>

definition hidden_until :: "go_time \<Rightarrow> string \<times> string \<Rightarrow> unavailable_cache \<Rightarrow> bool" where
  "hidden_until T pair c \<longleftrightarrow> (\<exists>ex. uc_items c (unavailKey (fst pair) (snd pair)) = Some ex \<and> T \<le> ex)"

text \<open>Marks set by anybody, none of them before \<open>T\<close>.\<close>

definition later_marks :: "go_time \<Rightarrow> unavailable_cache \<Rightarrow> unavailable_cache \<Rightarrow> bool" where
  "later_marks T c c' \<longleftrightarrow>
     (\<exists>h. (\<forall>x \<in> set h. T \<le> fst x) \<and> c' = fold (\<lambda>(t, st, loc). markUnavailable t st loc) h c)"

lemma later_marks_refl [simp]: "later_marks T c c"
  unfolding later_marks_def by (rule exI [of _ "[]"]) simp

lemma hidden_mark:
  "T \<le> t + uc_ttl c \<Longrightarrow> hidden_until T pair (markUnavailable t st loc c) \<longleftrightarrow>
     unavailKey st loc = unavailKey (fst pair) (snd pair) \<or> hidden_until T pair c"
  by (auto simp: hidden_until_def markUnavailable_def)

lemma uc_ttl_mark [simp]: "uc_ttl (markUnavailable t st loc c) = uc_ttl c"
  by (simp add: markUnavailable_def)

lemma later_marks_keep:
  assumes "later_marks T c c'"
  shows "uc_ttl c' = uc_ttl c \<and> (hidden_until (T + uc_ttl c) pair c \<longrightarrow> hidden_until (T + uc_ttl c) pair c')"
proof -
  obtain h where h: "\<forall>x \<in> set h. T \<le> fst x" "c' = fold (\<lambda>(t, st, loc). markUnavailable t st loc) h c"
    using assms by (auto simp: later_marks_def)
  have "uc_ttl (fold (\<lambda>(t, st, loc). markUnavailable t st loc) h d) = uc_ttl d \<and>
      (hidden_until (T + uc_ttl d) pair d \<longrightarrow>
         hidden_until (T + uc_ttl d) pair (fold (\<lambda>(t, st, loc). markUnavailable t st loc) h d))" for d
    using h(1)
  proof (induction h arbitrary: d)
    case (Cons x h)
    obtain t st loc where x: "x = (t, st, loc)" by (cases x)
    have "T \<le> t" "\<forall>x \<in> set h. T \<le> fst x" using Cons.prems by (auto simp: x)
    with Cons.IH [of "markUnavailable t st loc d"] show ?case by (simp add: x hidden_mark)
  qed simp
  then show ?thesis using h(2) by simp
qed

lemma hidden_unavailable: "hidden_until T (st, loc) c \<Longrightarrow> now < T \<Longrightarrow> isUnavailable now st loc c"
  by (auto simp: hidden_until_def isUnavailable_def)

section \<open>Creates that overlap\<close>

text \<open>The pairs of type and zone a listing offers.\<close>

definition listed_pairs :: "karp_core \<Rightarrow> instance_type list \<Rightarrow> (string \<times> string) set" where
  "listed_pairs kc its = {(it_Name it, zone_of kc off) | it off. it \<in> set its \<and> off \<in> set (it_Offerings it)}"

text \<open>
  Nothing serialises \<open>Create\<close>. Each of \<open>k\<close> workers runs one at a time, on the same instance-type provider:
  a \<open>Create\<close> begins by reading the NodeClass, listing the types and selecting a launch, which sees the
  marks of that moment; it ends some time later, when the launch has returned and, on missing capacity,
  the pair it tried is marked. In between the others go on. The log keeps the pairs whose launch failed
  for capacity.
\<close>

record 'w launching =
  la_provider :: "'w cloud_provider"
  la_claim :: node_claim
  la_class :: node_class
  la_type :: instance_type
  la_off :: offering

record ('w, 'z) creates_state =
  cs_env :: "('w, 'z) tenv_scheme"
  cs_calls :: "nat \<Rightarrow> 'w launching option"
  cs_failures :: "(string \<times> string) list"

definition attempted :: "karp_core \<Rightarrow> 'w launching \<Rightarrow> string \<times> string" where
  "attempted kc c = (it_Name (la_type c), zone_of kc (la_off c))"

definition finish_launch ::
  "karp_core \<Rightarrow> ('w \<Rightarrow> go_time) \<Rightarrow> 'w launching \<Rightarrow> (('w, 'z) tenv_scheme, err, node_claim) call" where
  "finish_launch kc clock c = launch kc clock (la_provider c) (la_claim c) (la_class c) (la_type c) (la_off c)"

definition lacks_capacity :: "(err, 'a) outcome \<Rightarrow> bool" where
  "lacks_capacity r \<longleftrightarrow> (\<exists>e. r = Err e \<and> IsInsufficientCapacityError e)"

text \<open>\<open>other\<close> is whatever else happens: calls that select nothing, changes of the world, of the cached
  catalogue and of the metrics, and more marks.\<close>

inductive create_step ::
  "karp_core \<Rightarrow> ('w \<Rightarrow> go_time) \<Rightarrow> nat \<Rightarrow> (string \<times> string) set \<Rightarrow>
     ('w, 'z) creates_state \<Rightarrow> ('w, 'z) creates_state \<Rightarrow> bool"
  for kc :: karp_core and clock :: "'w \<Rightarrow> go_time" and k :: nat and P :: "(string \<times> string) set" where
  begins: "i < k \<Longrightarrow> cs_calls s i = None \<Longrightarrow>
    reaches_launch kc clock cp claim (cs_env s) nc its t it off \<Longrightarrow> listed_pairs kc its \<subseteq> P \<Longrightarrow>
    create_step kc clock k P s
      (s\<lparr>cs_env := record_skipped (archsMissingImages (select kc nc (ncl_Requirements claim) its)) t,
         cs_calls := (cs_calls s)(i \<mapsto>
           \<lparr>la_provider = cp, la_claim = claim, la_class = nc, la_type = it, la_off = off\<rparr>)\<rparr>)"
| ends: "cs_calls s i = Some c \<Longrightarrow> finish_launch kc clock c (cs_env s) = (r, t) \<Longrightarrow>
    create_step kc clock k P s
      (s\<lparr>cs_env := t, cs_calls := (cs_calls s)(i := None),
         cs_failures := cs_failures s @ (if lacks_capacity r then [attempted kc c] else [])\<rparr>)"
| other: "later_marks (clock (env_world (cs_env s))) (tp_unavailable (te_types (cs_env s))) (tp_unavailable (te_types t)) \<Longrightarrow>
    create_step kc clock k P s (s\<lparr>cs_env := t\<rparr>)"

text \<open>The part of such a run that happens in the five minutes from \<open>T\<close> on.\<close>

definition in_window :: "('w \<Rightarrow> go_time) \<Rightarrow> go_time \<Rightarrow> ('w, 'z) creates_state \<Rightarrow> bool" where
  "in_window clock T s \<longleftrightarrow> T \<le> clock (env_world (cs_env s)) \<and> clock (env_world (cs_env s)) < T + 5 * minute"

abbreviation window_step ::
  "karp_core \<Rightarrow> ('w \<Rightarrow> go_time) \<Rightarrow> nat \<Rightarrow> (string \<times> string) set \<Rightarrow> go_time \<Rightarrow>
     ('w, 'z) creates_state \<Rightarrow> ('w, 'z) creates_state \<Rightarrow> bool" where
  "window_step kc clock k P T s s' \<equiv> create_step kc clock k P s s' \<and> in_window clock T s \<and> in_window clock T s'"

text \<open>A whole \<open>Create\<close> that nothing interrupts is such steps: begun and ended by one worker, or one that
  leaves the marks alone.\<close>

lemma Create_is_launch:
  assumes "reaches_launch kc clock cp claim s nc its s1 it off"
  shows "CloudProvider_Create kc clock cp claim s = launch kc clock cp claim nc it off
    (record_skipped (archsMissingImages (select kc nc (ncl_Requirements claim) its)) s1)"
  using assms by (auto simp: CloudProvider_Create_def reaches_launch_def bind_call_def wrap_call_def Let_def)

lemma create_alone:
  assumes "reaches_launch kc clock cp claim (cs_env s) nc its t it off" and "listed_pairs kc its \<subseteq> P"
    and "i < k" and "cs_calls s i = None" and "CloudProvider_Create kc clock cp claim (cs_env s) = (r, t')"
  shows "(create_step kc clock k P)\<^sup>*\<^sup>* s
    (s\<lparr>cs_env := t', cs_failures := cs_failures s @ (if lacks_capacity r then [(it_Name it, zone_of kc off)] else [])\<rparr>)"
proof -
  let ?c = "\<lparr>la_provider = cp, la_claim = claim, la_class = nc, la_type = it, la_off = off\<rparr>"
  let ?s1 = "s\<lparr>cs_env := record_skipped (archsMissingImages (select kc nc (ncl_Requirements claim) its)) t,
    cs_calls := (cs_calls s)(i \<mapsto> ?c)\<rparr>"
  have "finish_launch kc clock ?c (cs_env ?s1) = (r, t')"
    using assms(5) by (simp add: finish_launch_def Create_is_launch [OF assms(1)])
  then have "create_step kc clock k P ?s1 (?s1\<lparr>cs_env := t', cs_calls := (cs_calls ?s1)(i := None),
      cs_failures := cs_failures ?s1 @ (if lacks_capacity r then [attempted kc ?c] else [])\<rparr>)"
    by (intro create_step.ends) simp_all
  moreover have "(cs_calls ?s1)(i := None) = cs_calls s" using assms(4) by auto
  ultimately have "create_step kc clock k P ?s1
      (s\<lparr>cs_env := t', cs_failures := cs_failures s @ (if lacks_capacity r then [(it_Name it, zone_of kc off)] else [])\<rparr>)"
    by (cases "lacks_capacity r") (simp_all add: attempted_def)
  with create_step.begins [where P = P, OF assms(3,4,1,2)] show ?thesis by (blast intro: converse_rtranclp_into_rtranclp)
qed

lemma create_without_launch:
  assumes "\<nexists>nc its t it off. reaches_launch kc clock cp claim (cs_env s) nc its t it off"
    and "CloudProvider_Create kc clock cp claim (cs_env s) = (r, t')"
  shows "create_step kc clock k P s (s\<lparr>cs_env := t'\<rparr>)"
proof (rule create_step.other)
  have "tp_unavailable (te_types t') = tp_unavailable (te_types (cs_env s))"
  proof -
    obtain r0 s0 where c: "resolveNodeClass cp (ncl_NodeClassRef claim) (cs_env s) = (r0, s0)" by fastforce
    note k0 = keepsD [OF keeps_resolveNodeClass c]
    show ?thesis
    proof (cases r0)
      case (Ok nc)
      obtain r1 s1 where l: "List_types kc clock (cp_typeClient cp) (spec_Locations (nc_Spec nc)) s0 = (r1, s1)" by fastforce
      note k1 = List_types_keeps_marks [OF l]
      have "\<exists>archs. t' = record_skipped archs s1 \<or> t' = s1"
      proof (cases r1)
        case its: (Ok its)
        have "sel_best (select kc nc (ncl_Requirements claim) its) = None"
        proof (rule ccontr)
          assume "sel_best (select kc nc (ncl_Requirements claim) its) \<noteq> None"
          then obtain it off where "sel_best (select kc nc (ncl_Requirements claim) its) = Some (it, off)" by auto
          with c l Ok its have "reaches_launch kc clock cp claim (cs_env s) nc its s1 it off"
            by (simp add: reaches_launch_def)
          with assms(1) show False by blast
        qed
        then show ?thesis using assms(2) c l Ok its
          by (auto simp: CloudProvider_Create_def bind_call_def wrap_call_def Let_def)
      qed (use assms(2) c l Ok in \<open>auto simp: CloudProvider_Create_def bind_call_def wrap_call_def\<close>)
      then show ?thesis using k0 k1 by auto
    qed (use assms(2) c k0 in \<open>auto simp: CloudProvider_Create_def bind_call_def wrap_call_def\<close>)
  qed
  then show "later_marks (clock (env_world (cs_env s))) (tp_unavailable (te_types (cs_env s))) (tp_unavailable (te_types t'))"
    by simp
qed

section \<open>What a step does to the marks\<close>

text \<open>A launch within the window is of a pair that is listed and not hidden.\<close>

lemma reached_pair:
  assumes "core_spec kc" and "reaches_launch kc clock cp claim t nc its t1 it off"
  shows "(it_Name it, zone_of kc off) \<in> listed_pairs kc its \<and>
    \<not> isUnavailable (clock (env_world t1)) (it_Name it) (zone_of kc off) (tp_unavailable (te_types t))"
  using reached_offering [OF core_spec_parts(2) [OF assms(1)] assms(2)] reaches_launch_marks [OF assms(2)]
  by (auto simp: launch_option_def type_catalogue.launchable_def marked_now_def listed_pairs_def)

lemma reached_unhidden:
  assumes "core_spec kc" and "reaches_launch kc clock cp claim t nc its t1 it off"
    and "clock (env_world t1) < T" and "hidden_until T pair (tp_unavailable (te_types t))"
  shows "(it_Name it, zone_of kc off) \<noteq> pair"
  using reached_pair [OF assms(1,2)] hidden_unavailable [OF _ assms(3)] assms(4) by blast

text \<open>The end of a launch marks the pair when capacity was missing, and nothing otherwise.\<close>

lemma finish_marks:
  assumes "core_spec kc" and "finish_launch kc clock c s = (r, t)"
  shows "tp_unavailable (te_types t) =
    (if lacks_capacity r
     then markUnavailable (clock (env_world t)) (fst (attempted kc c)) (snd (attempted kc c)) (tp_unavailable (te_types s))
     else tp_unavailable (te_types s))"
proof -
  have l: "launch kc clock (la_provider c) (la_claim c) (la_class c) (la_type c) (la_off c) s = (r, t)"
    using assms(2) by (simp add: finish_launch_def)
  have zone: "kc_Zone kc (la_off c) = zone_of kc (la_off c)"
    using core_spec_parts(1) [OF assms(1)] by (rule core_Zone)
  show ?thesis
  proof (cases r)
    case (Err e)
    show ?thesis
    proof (rule launch_err [OF l [unfolded Err]])
      assume "\<not> IsInsufficientCapacityError e" "te_types t = te_types s"
      then show ?thesis by (simp add: lacks_capacity_def Err)
    next
      fix opts sb e0 s1
      assume "te_types s1 = te_types s" "e = ErrWrap ''creating server: %w'' [] e0"
        "t = (if IsInsufficientCapacityError e0
              then mark_unavailable clock (it_Name (la_type c)) (kc_Zone kc (la_off c)) s1 else s1)"
      with zone show ?thesis
        by (auto simp: err_simps MarkUnavailable_def mark_unavailable_def lacks_capacity_def attempted_def Err)
    next
      assume "\<exists>server. hydrate kc (la_claim c) (la_type c) (la_off c) server = Err e"
      then show ?thesis by (simp add: hydrate_never_err)
    qed
  qed (use launch_keeps [OF l] in \<open>simp_all add: lacks_capacity_def\<close>)
qed

section \<open>What holds within the window\<close>

text \<open>How many launches of a pair are under way.\<close>

definition tries :: "karp_core \<Rightarrow> string \<times> string \<Rightarrow> 'w launching option \<Rightarrow> bool" where
  "tries kc p call = (case call of None \<Rightarrow> False | Some c \<Rightarrow> attempted kc c = p)"

definition under_way :: "karp_core \<Rightarrow> nat \<Rightarrow> ('w, 'z) creates_state \<Rightarrow> string \<times> string \<Rightarrow> nat" where
  "under_way kc k s p = length (filter (\<lambda>i. tries kc p (cs_calls s i)) [0..<k])"

text \<open>Every pair that failed is hidden to the end of the window; and the launches of a pair that failed
  and the ones that may still fail are at most one per worker.\<close>

definition retries_inv ::
  "karp_core \<Rightarrow> nat \<Rightarrow> (string \<times> string) set \<Rightarrow> go_time \<Rightarrow> ('w, 'z) creates_state \<Rightarrow> bool" where
  "retries_inv kc k P T s \<longleftrightarrow>
     ttl_wf (cs_env s) \<and>
     (\<forall>i c. cs_calls s i = Some c \<longrightarrow> i < k \<and> attempted kc c \<in> P) \<and>
     set (cs_failures s) \<subseteq> P \<and>
     (\<forall>p \<in> set (cs_failures s). hidden_until (T + 5 * minute) p (tp_unavailable (te_types (cs_env s)))) \<and>
     (\<forall>p. count_list (cs_failures s) p + under_way kc k s p \<le> k)"

lemma under_way_le: "under_way kc k s p \<le> k"
  unfolding under_way_def by (rule order_trans [OF length_filter_le]) simp

lemma filter_upd_length:
  assumes "i < k"
  shows "length (filter (\<lambda>j. Q ((f(i := x)) j)) [0..<k]) + (if Q (f i) then 1 else 0) =
    length (filter (\<lambda>j. Q (f j)) [0..<k]) + (if Q x then 1 else (0 :: nat))"
proof -
  have split: "[0..<k] = [0..<i] @ i # [Suc i..<k]"
    using assms by (metis upt_add_eq_append upt_conv_Cons le0 le_add_diff_inverse less_imp_le_nat)
  have same: "filter (\<lambda>j. Q ((f(i := x)) j)) l = filter (\<lambda>j. Q (f j)) l" if "i \<notin> set l" for l
    using that by (auto intro: filter_cong)
  have "i \<notin> set [0..<i]" "i \<notin> set [Suc i..<k]" by auto
  then show ?thesis unfolding split filter_append filter.simps length_append by (simp add: same del: fun_upd_apply) simp
qed

lemma under_way_upd:
  assumes "i < k"
  shows "under_way kc k (s\<lparr>cs_calls := (cs_calls s)(i := c)\<rparr>) p + (if tries kc p (cs_calls s i) then 1 else 0) =
    under_way kc k s p + (if tries kc p c then 1 else 0)"
  using filter_upd_length [OF assms, of "tries kc p" "cs_calls s" c] by (simp add: under_way_def del: fun_upd_apply)

lemma under_way_cong: "cs_calls s = cs_calls s' \<Longrightarrow> under_way kc k s p = under_way kc k s' p"
  by (simp add: under_way_def)

lemma later_marks_hidden:
  assumes "T \<le> T'" and "later_marks T' c c'" and "uc_ttl c = 5 * minute" and "hidden_until (T + 5 * minute) p c"
  shows "hidden_until (T + 5 * minute) p c'"
proof -
  have "later_marks T c c'" using assms(1,2) unfolding later_marks_def by (blast intro: order_trans)
  from later_marks_keep [OF this, of p] assms(3,4) show ?thesis by simp
qed

lemma retries_step:
  assumes core: "core_spec kc" and "create_step kc clock k P s s'" and "in_window clock T s" and "in_window clock T s'"
    and "retries_inv kc k P T s"
  shows "retries_inv kc k P T s'"
  using assms(2-5)
proof (induction rule: create_step.induct)
  case (begins i s cp claim nc its t it off)
  let ?c = "\<lparr>la_provider = cp, la_claim = claim, la_class = nc, la_type = it, la_off = off\<rparr>"
  let ?s1 = "s\<lparr>cs_calls := (cs_calls s)(i \<mapsto> ?c)\<rparr>"
  let ?p = "(it_Name it, zone_of kc off)"
  have marks: "tp_unavailable (te_types t) = tp_unavailable (te_types (cs_env s))"
    by (rule reaches_launch_marks [OF begins.hyps(3)])
  have now: "clock (env_world t) < T + 5 * minute" using begins.prems(2) by (simp add: in_window_def)
  have new: "?p \<notin> set (cs_failures s)"
    using begins.prems(3) reached_unhidden [OF core begins.hyps(3) now] unfolding retries_inv_def by blast
  have "?p \<in> P" using reached_pair [OF core begins.hyps(3)] begins.hyps(4) by blast
  moreover have "count_list (cs_failures s) p + under_way kc k ?s1 p \<le> k" for p
  proof (cases "p = ?p")
    case True
    then have "count_list (cs_failures s) p = 0" using new by (simp add: count_list_0_iff)
    then show ?thesis by (simp add: under_way_le)
  next
    case False
    then have "under_way kc k ?s1 p = under_way kc k s p"
      using under_way_upd [OF begins.hyps(1), of kc s "Some ?c" p] begins.hyps(2) by (simp add: tries_def attempted_def)
    then show ?thesis using begins.prems(3) by (simp only: retries_inv_def)
  qed
  moreover have "under_way kc k (s\<lparr>cs_env := e, cs_calls := (cs_calls s)(i \<mapsto> ?c)\<rparr>) p = under_way kc k ?s1 p" for p e
    by (rule under_way_cong) simp
  ultimately show ?case using begins.prems(3) begins.hyps(1) marks
    by (auto simp: retries_inv_def attempted_def ttl_wf_def split: if_splits)
next
  case (ends s i c r t)
  let ?fs = "cs_failures s @ (if lacks_capacity r then [attempted kc c] else [])"
  let ?s1 = "s\<lparr>cs_calls := (cs_calls s)(i := None)\<rparr>"
  note inv = ends.prems(3) [unfolded retries_inv_def]
  have i: "i < k" "attempted kc c \<in> P" using inv ends.hyps(1) by blast+
  note marks = finish_marks [OF core ends.hyps(2)]
  have ttl: "uc_ttl (tp_unavailable (te_types (cs_env s))) = 5 * minute" using inv by (simp add: ttl_wf_def)
  have T: "T \<le> clock (env_world t)" using ends.prems(2) by (simp add: in_window_def)
  have "hidden_until (T + 5 * minute) p (tp_unavailable (te_types t))" if "p \<in> set ?fs" for p
  proof (cases "lacks_capacity r \<and> p = attempted kc c")
    case True
    then show ?thesis using ttl T by (simp add: marks hidden_mark)
  next
    case False
    then have "hidden_until (T + 5 * minute) p (tp_unavailable (te_types (cs_env s)))"
      using that inv by (auto split: if_splits)
    then show ?thesis using ttl T by (simp add: marks hidden_mark)
  qed
  moreover have "count_list ?fs p + under_way kc k ?s1 p \<le> k" for p
  proof -
    have "under_way kc k ?s1 p + (if attempted kc c = p then 1 else 0) = under_way kc k s p"
      using under_way_upd [OF i(1), of kc s None p] ends.hyps(1) by (simp add: tries_def)
    moreover have "count_list (cs_failures s) p + under_way kc k s p \<le> k" using inv by blast
    ultimately show ?thesis by (auto split: if_splits)
  qed
  moreover have "under_way kc k (s\<lparr>cs_env := e, cs_calls := (cs_calls s)(i := None), cs_failures := f\<rparr>) p = under_way kc k ?s1 p"
    for p e f
    by (rule under_way_cong) simp
  moreover have "ttl_wf t" using ttl by (simp add: ttl_wf_def marks)
  ultimately show ?case using inv i(2) by (auto simp: retries_inv_def split: if_splits)
next
  case (other s t)
  note inv = other.prems(3) [unfolded retries_inv_def]
  have ttl: "uc_ttl (tp_unavailable (te_types (cs_env s))) = 5 * minute" using inv by (simp add: ttl_wf_def)
  have T: "T \<le> clock (env_world (cs_env s))" using other.prems(1) by (simp add: in_window_def)
  have "ttl_wf t" using later_marks_keep [OF other.hyps] ttl by (simp add: ttl_wf_def)
  moreover have "under_way kc k (s\<lparr>cs_env := t\<rparr>) p = under_way kc k s p" for p by (rule under_way_cong) simp
  ultimately show ?case using inv later_marks_hidden [OF T other.hyps ttl] by (simp add: retries_inv_def)
qed

lemma retries_run:
  assumes "core_spec kc" and "(window_step kc clock k P T)\<^sup>*\<^sup>* s s'" and "retries_inv kc k P T s"
  shows "retries_inv kc k P T s'"
  using assms(2,3) by (induction rule: rtranclp_induct) (auto intro: retries_step [OF assms(1)])

text \<open>C8: Retries under missing capacity end. Let \<open>k\<close> workers run \<open>Create\<close> for any claims and providers, at
  the same time or one after another, while anything else happens, over catalogues with no pair outside
  \<open>P\<close>. Of the launches that fail for capacity within five minutes, those of one and the same pair of type
  and zone are at most \<open>k\<close> -- the ones that were under way when it was first marked -- so there are at
  most \<open>k\<close> times as many as the catalogue has pairs; and no \<open>Create\<close> that lists within the window attempts a
  pair that has failed in it, so once all have failed there is no further attempt.\<close>

theorem capacity_retries_bounded:
  fixes s s' :: "('w, 'z) creates_state"
  assumes "core_spec kc" and "finite P" and "ttl_wf (cs_env s)" and "cs_failures s = []"
    and "\<forall>i c. cs_calls s i = Some c \<longrightarrow> i < k \<and> attempted kc c \<in> P"
    and "(window_step kc clock k P T)\<^sup>*\<^sup>* s s'"
  shows "(\<forall>p. count_list (cs_failures s') p \<le> k) \<and> length (cs_failures s') \<le> k * card P \<and>
    (\<forall>cp claim nc its t it off.
       reaches_launch kc clock cp claim (cs_env s') nc its t it off \<and> clock (env_world t) < T + 5 * minute \<longrightarrow>
       (it_Name it, zone_of kc off) \<notin> set (cs_failures s'))"
proof -
  have "retries_inv kc k P T s" using assms(3-5) by (simp add: retries_inv_def under_way_le)
  from retries_run [OF assms(1,6) this] have inv: "set (cs_failures s') \<subseteq> P"
    "\<forall>p \<in> set (cs_failures s'). hidden_until (T + 5 * minute) p (tp_unavailable (te_types (cs_env s')))"
    "\<And>p. count_list (cs_failures s') p + under_way kc k s' p \<le> k" unfolding retries_inv_def by blast+
  have each: "count_list (cs_failures s') p \<le> k" for p using inv(3) [of p] by simp
  have "length (cs_failures s') = (\<Sum>p \<in> set (cs_failures s'). count_list (cs_failures s') p)"
    by (simp add: sum_count_set)
  also have "\<dots> \<le> k * card (set (cs_failures s'))" using sum_bounded_above [OF each] by (simp add: mult.commute)
  also have "\<dots> \<le> k * card P" using card_mono [OF assms(2) inv(1)] by simp
  finally have "length (cs_failures s') \<le> k * card P" .
  moreover have "(it_Name it, zone_of kc off) \<notin> set (cs_failures s')"
    if "reaches_launch kc clock cp claim (cs_env s') nc its t it off" "clock (env_world t) < T + 5 * minute"
    for cp claim nc its t it off
    using reached_unhidden [OF assms(1) that] inv(2) by blast
  ultimately show ?thesis using each by blast
qed

section \<open>Witness\<close>

lemma toy_ttl: "ttl_wf toy_state"
  by (simp add: ttl_wf_def toy_state_def toy_tenv_def NewTypeProvider_def newUnavailableCache_def store_def)

text \<open>The three types of the toy catalogue are three pairs.\<close>

lemma toy_type_pairs: "listed_pairs example_core [toy_type n a p z] = {(n, z)}"
  by (simp add: listed_pairs_def toy_type_def)

lemma listed_pairs_Cons: "listed_pairs kc (it # its) = listed_pairs kc [it] \<union> listed_pairs kc its"
  by (auto simp: listed_pairs_def)

lemma toy_pairs: "listed_pairs example_core toy_listed = {(''cx32'', ''nbg1''), (''cax11'', ''nbg1''), (''cx22'', ''nbg1'')}"
  unfolding toy_listed_def
  by (subst listed_pairs_Cons, subst (2) listed_pairs_Cons) (simp add: toy_type_pairs insert_commute)

abbreviation toy_out :: "toy_world cloud_provider" where
  "toy_out \<equiv> toy_provider (toy_class x86_only) (Ok []) toy_full"

abbreviation toy_call :: "toy_world launching" where
  "toy_call \<equiv> \<lparr>la_provider = toy_out, la_claim = toy_claim, la_class = toy_class x86_only, la_type = toy_pick, la_off = toy_off\<rparr>"

text \<open>A listing sees only the catalogue, the marks and the clock, so it may come after any counting.\<close>

lemma toy_reaches_again:
  assumes "te_types s = te_types toy_state" and "env_world s = env_world toy_state"
  shows "reaches_launch example_core toy_clock toy_out toy_claim s (toy_class x86_only) toy_listed
    (record_metric RecordCacheHit s) toy_pick toy_off"
proof -
  have cls: "resolveNodeClass toy_out (Some ''default'') s = (Ok (toy_class x86_only), s)"
    by (simp add: resolveNodeClass_def toy_provider_def toy_kube_def wrap_call_def on_world_def)
  have "freshCache (toy_clock (env_world s)) (te_types s) = Some toy_types"
    by (simp add: assms toy_state_def toy_tenv_def toy_clock_def freshCache_def store_def cacheTTL_def time_defs)
  moreover have "offered example_core toy_clock [''nbg1''] toy_types s = toy_listed"
    by (simp add: offered_def filterByLocations_def filter_type_def applyAvailability_def available_offering_def
        toy_types_def toy_listed_def toy_type_def assms toy_state_def toy_tenv_def NewTypeProvider_def store_def
        newUnavailableCache_def isUnavailable_def)
  ultimately have "List_types example_core toy_clock (cp_typeClient toy_out) [''nbg1''] s = (Ok toy_listed, record_metric RecordCacheHit s)"
    by (simp add: List_types_hit)
  with cls show ?thesis
    by (simp add: reaches_launch_def toy_claim_def empty_node_claim_def toy_select toy_class_def toy_spec_def
        toy_select [unfolded toy_class_def toy_spec_def])
qed

text \<open>Every launch is turned down, a second later.\<close>

lemma toy_turned_down:
  fixes s :: "toy_world tenv"
  shows "\<exists>r t. finish_launch example_core toy_clock toy_call s = (r, t) \<and> lacks_capacity r \<and>
     toy_clock (env_world t) = toy_clock (env_world s) + second"
proof -
  have "\<exists>e0 s1. Create toy_clock (cp_instanceProvider toy_out) opts s = (Err e0, s1) \<and> IsInsufficientCapacityError e0 \<and>
      toy_clock (env_world s1) = toy_clock (env_world s) + second" for opts and s :: "toy_world tenv"
    by (simp add: toy_create_defs toy_full_def hcloud_IsError_def err_simps toy_clock_def)
  then obtain e0 s1 where "Create toy_clock (cp_instanceProvider toy_out)
      (launch_opts example_core toy_claim (toy_class x86_only) toy_pick toy_off (status_image 42 ArchitectureX86) ''#!'') s =
      (Err e0, s1)" "IsInsufficientCapacityError e0" "toy_clock (env_world s1) = toy_clock (env_world s) + second" by blast
  then show ?thesis
    by (simp add: finish_launch_def launch_def bind_call_def wrap_call_def launch_server_def lacks_capacity_def
        mark_unavailable_def err_simps)
qed

text \<open>Two workers select the cheapest pair before either has marked it, and both fail: two failures of one
  pair, which from then on nobody attempts.\<close>

theorem capacity_retries_bounded_witness:
  "\<exists>s'. (window_step example_core toy_clock 2 (listed_pairs example_core toy_listed) 10)\<^sup>*\<^sup>*
       \<lparr>cs_env = toy_state, cs_calls = (\<lambda>i. None), cs_failures = []\<rparr> s' \<and>
     cs_failures s' = [(''cx22'', ''nbg1''), (''cx22'', ''nbg1'')] \<and>
     (\<forall>cp claim nc its t it off. reaches_launch example_core toy_clock cp claim (cs_env s') nc its t it off \<and>
        toy_clock (env_world t) < 10 + 5 * minute \<longrightarrow> (it_Name it, zone_of example_core off) \<noteq> (''cx22'', ''nbg1''))"
proof -
  let ?P = "listed_pairs example_core toy_listed"
  let ?step = "create_step example_core toy_clock 2 ?P"
  let ?s0 = "\<lparr>cs_env = toy_state, cs_calls = (\<lambda>i. None), cs_failures = []\<rparr>"
  let ?sk = "record_skipped (archsMissingImages (select example_core (toy_class x86_only) (ncl_Requirements toy_claim) toy_listed))"
  define e1 where "e1 = ?sk (record_metric RecordCacheHit toy_state)"
  define e2 where "e2 = ?sk (record_metric RecordCacheHit e1)"
  have e1: "te_types e1 = te_types toy_state" "env_world e1 = env_world toy_state" by (simp_all add: e1_def)
  have e2: "env_world e2 = env_world toy_state" by (simp add: e2_def e1)
  let ?c1 = "(\<lambda>i. None)(0 \<mapsto> toy_call)"
  let ?s1 = "\<lparr>cs_env = e1, cs_calls = ?c1, cs_failures = []\<rparr>"
  let ?s2 = "\<lparr>cs_env = e2, cs_calls = ?c1(1 \<mapsto> toy_call), cs_failures = []\<rparr>"
  obtain r3 e3 where e3: "finish_launch example_core toy_clock toy_call e2 = (r3, e3)" "lacks_capacity r3"
    "toy_clock (env_world e3) = toy_clock (env_world e2) + second" using toy_turned_down by blast
  obtain r4 e4 where e4: "finish_launch example_core toy_clock toy_call e3 = (r4, e4)" "lacks_capacity r4"
    "toy_clock (env_world e4) = toy_clock (env_world e3) + second" using toy_turned_down by blast
  have pair: "attempted example_core toy_call = (''cx22'', ''nbg1'')"
    using toy_off_zone by (simp add: attempted_def toy_pick_def toy_type_def)
  let ?s3 = "\<lparr>cs_env = e3, cs_calls = (?c1(1 \<mapsto> toy_call))(0 := None), cs_failures = [(''cx22'', ''nbg1'')]\<rparr>"
  let ?s4 = "\<lparr>cs_env = e4, cs_calls = (?c1(1 \<mapsto> toy_call))(0 := None, 1 := None),
    cs_failures = [(''cx22'', ''nbg1''), (''cx22'', ''nbg1'')]\<rparr>"
  have now: "toy_clock (env_world toy_state) = 10" by (simp add: toy_state_def toy_tenv_def toy_clock_def)
  have win: "in_window toy_clock 10 ?s0" "in_window toy_clock 10 ?s1" "in_window toy_clock 10 ?s2"
    "in_window toy_clock 10 ?s3" "in_window toy_clock 10 ?s4"
    by (simp_all add: in_window_def now e1 e2 e3(3) e4(3) time_defs)
  have st0: "?step ?s0 ?s1"
    using create_step.begins [where s = ?s0 and i = 0 and k = 2 and P = ?P, OF _ _ toy_reaches_again subset_refl]
    by (simp add: e1_def)
  have st1: "?step ?s1 ?s2"
    using create_step.begins [where s = ?s1 and i = 1 and k = 2 and P = ?P, OF _ _ toy_reaches_again subset_refl]
    by (simp add: e1 e2_def)
  have st2: "?step ?s2 ?s3"
    using create_step.ends [where s = ?s2 and i = 0 and c = toy_call and k = 2 and P = ?P and kc = example_core
        and clock = toy_clock, OF _ _] e3 pair by simp
  have st3: "?step ?s3 ?s4"
    using create_step.ends [where s = ?s3 and i = 1 and c = toy_call and k = 2 and P = ?P and kc = example_core
        and clock = toy_clock, OF _ _] e4 pair by simp
  note run = rtranclp.rtrancl_into_rtrancl [where r = "window_step example_core toy_clock 2 ?P 10"]
  have run: "(window_step example_core toy_clock 2 ?P 10)\<^sup>*\<^sup>* ?s0 ?s4"
    by (rule run [OF run [OF run [OF run [OF rtranclp.rtrancl_refl conjI [OF st0 conjI [OF win(1,2)]]]
          conjI [OF st1 conjI [OF win(2,3)]]] conjI [OF st2 conjI [OF win(3,4)]]] conjI [OF st3 conjI [OF win(4,5)]]])
  have "finite ?P" by (simp add: toy_pairs)
  from conjunct2 [OF conjunct2 [OF capacity_retries_bounded [OF example_core_spec this _ _ _ run]]] toy_ttl
  have "\<forall>cp claim nc its t it off. reaches_launch example_core toy_clock cp claim (cs_env ?s4) nc its t it off \<and>
      toy_clock (env_world t) < 10 + 5 * minute \<longrightarrow> (it_Name it, zone_of example_core off) \<notin> set (cs_failures ?s4)" by simp
  with run show ?thesis by (intro exI [of _ ?s4]) simp
qed

end
