(* ===== verification/Settled.thy ===== *)
theory Settled
  imports Node_Class_Correct
begin

text \<open>
  Reconciling settles. The controller is called again for every status it writes; if a pass over the
  status it wrote itself came to another status, it would write again, and be called again, for ever.
  With clients that answer the same as before, the second pass leaves the object as it is.
\<close>

section \<open>Writes that settle\<close>

datatype cond_write = WriteTrue | WriteFalse string cond_message | WriteUnknown string cond_message

fun raw_write :: "cond_set \<Rightarrow> cond_type \<Rightarrow> cond_write \<Rightarrow> node_class \<Rightarrow> node_class" where
  "raw_write cs t WriteTrue nc = cs_SetTrue cs t nc"
| "raw_write cs t (WriteFalse r m) nc = cs_SetFalse cs t r m nc"
| "raw_write cs t (WriteUnknown r m) nc = cs_SetUnknown cs t r m nc"

definition write_of :: "cond_set \<Rightarrow> cond_type \<Rightarrow> cond_write \<Rightarrow> node_class \<Rightarrow> node_class" where
  "write_of cs t w nc = raw_write cs t w (cs_For cs nc)"

lemma write_of_set:
  "write_of cs t WriteTrue nc = set_true cs t nc"
  "write_of cs t (WriteFalse r m) nc = set_false cs t r m nc"
  "write_of cs t (WriteUnknown r m) nc = set_unknown cs t r m nc"
  by (simp_all add: write_of_def set_true_def set_false_def set_unknown_def)

text \<open>
  What operatorpkg documents: the constructor adds the conditions that are missing, once, and no write
  removes one; what a write puts in a condition depends on its arguments and the generation only, and
  writing what is there already changes nothing.
\<close>

definition settles :: "cond_set \<Rightarrow> bool" where
  "settles cs \<longleftrightarrow>
     (\<forall>nc. cs_For cs (cs_For cs nc) = cs_For cs nc) \<and>
     (\<forall>t \<in> conditionTypes. \<forall>w nc. cs_For cs nc = nc \<longrightarrow> cs_For cs (raw_write cs t w nc) = raw_write cs t w nc) \<and>
     (\<forall>t \<in> conditionTypes. \<forall>w. \<exists>content. \<forall>nc.
        find_cond t (nc_Conditions (raw_write cs t w nc)) = Some (content (nc_Generation nc)) \<and>
        (find_cond t (nc_Conditions nc) = Some (content (nc_Generation nc)) \<longrightarrow> raw_write cs t w nc = nc))"

text \<open>A condition that holds what a write would put there.\<close>

definition written :: "cond_set \<Rightarrow> cond_type \<Rightarrow> cond_write \<Rightarrow> node_class \<Rightarrow> bool" where
  "written cs t w nc \<longleftrightarrow> find_cond t (nc_Conditions nc) \<noteq> None \<and> raw_write cs t w nc = nc"

lemma raw_write_writes:
  assumes "cond_spec cs" and "t \<in> conditionTypes"
  shows "\<exists>st. writes_cond (raw_write cs t w) t st"
proof (cases w)
  case WriteTrue
  then have "raw_write cs t w = cs_SetTrue cs t" by (simp add: fun_eq_iff)
  then show ?thesis using cond_specD(2) [OF assms] by auto
next
  case (WriteFalse r m)
  then have "raw_write cs t w = cs_SetFalse cs t r m" by (simp add: fun_eq_iff)
  then show ?thesis using cond_specD(3) [OF assms] by auto
next
  case (WriteUnknown r m)
  then have "raw_write cs t w = cs_SetUnknown cs t r m" by (simp add: fun_eq_iff)
  then show ?thesis using cond_specD(4) [OF assms] by auto
qed

lemma write_of_same:
  assumes "cond_spec cs" and "t \<in> conditionTypes"
  shows "same_object nc (write_of cs t w nc)"
proof -
  obtain st where "writes_cond (raw_write cs t w) t st" using raw_write_writes [OF assms] by blast
  from writes_after_For [OF assms this] show ?thesis by (simp add: write_of_def)
qed

text \<open>\<open>same_conds\<close>: the conditions of the set are the same, wherever they stand in the list.\<close>

definition same_conds :: "cond_type set \<Rightarrow> node_class \<Rightarrow> node_class \<Rightarrow> bool" where
  "same_conds ts nc nc' \<longleftrightarrow>
     nc_Generation nc' = nc_Generation nc \<and>
     (\<forall>t \<in> ts. find_cond t (nc_Conditions nc') = find_cond t (nc_Conditions nc))"

lemma settles_content:
  assumes "settles cs" and "t \<in> conditionTypes"
  shows "\<exists>content. \<forall>nc. find_cond t (nc_Conditions (raw_write cs t w nc)) = Some (content (nc_Generation nc)) \<and>
    (find_cond t (nc_Conditions nc) = Some (content (nc_Generation nc)) \<longrightarrow> raw_write cs t w nc = nc)"
  using assms unfolding settles_def by blast

lemma write_of_written:
  assumes "cond_spec cs" and "settles cs" and "t \<in> conditionTypes"
    and "same_conds {t} (write_of cs t w nc) nc'"
  shows "written cs t w nc'"
proof -
  obtain content where c: "\<And>nc. find_cond t (nc_Conditions (raw_write cs t w nc)) = Some (content (nc_Generation nc))"
      "\<And>nc. find_cond t (nc_Conditions nc) = Some (content (nc_Generation nc)) \<Longrightarrow> raw_write cs t w nc = nc"
    using settles_content [OF assms(2,3), of w] by blast
  have For: "nc_Generation (cs_For cs nc) = nc_Generation nc"
    by (rule cond_frame_sel(2) [OF cond_specD(1) [OF assms(1,3)]])
  have "find_cond t (nc_Conditions nc') = Some (content (nc_Generation nc))"
    using assms(4) c(1) [of "cs_For cs nc"] For by (simp add: same_conds_def write_of_def)
  moreover have "nc_Generation nc' = nc_Generation nc"
    using assms(4) write_of_same [OF assms(1,3), of nc w] by (simp add: same_conds_def same_object_def)
  ultimately show ?thesis using c(2) [of nc'] by (simp add: written_def)
qed

text \<open>A later write leaves what is written in the other conditions.\<close>

lemma write_of_others:
  assumes "cond_spec cs" and "t \<in> conditionTypes" and "t' \<in> conditionTypes" and "t' \<noteq> t"
    and "find_cond t' (nc_Conditions nc) \<noteq> None"
  shows "same_conds {t'} nc (write_of cs t w nc)"
proof -
  obtain st where w: "writes_cond (raw_write cs t w) t st" using raw_write_writes [OF assms(1,2)] by blast
  have "find_cond t' (nc_Conditions (write_of cs t w nc)) = find_cond t' (nc_Conditions (cs_For cs nc))"
    using w assms(3,4) unfolding writes_cond_def write_of_def by blast
  also have "\<dots> = find_cond t' (nc_Conditions nc)"
    using cond_For [OF assms(1,3), of nc] assms(5) by (auto split: option.splits)
  finally show ?thesis using write_of_same [OF assms(1,2), of nc w]
    by (simp add: same_conds_def same_object_def)
qed

lemma written_find: "cond_spec cs \<Longrightarrow> settles cs \<Longrightarrow> t \<in> conditionTypes \<Longrightarrow>
    find_cond t (nc_Conditions (write_of cs t w nc)) \<noteq> None"
  using settles_content unfolding write_of_def by (metis option.distinct(1))

text \<open>What is written needs no constructor, and writing it again does nothing.\<close>

lemma write_of_complete:
  assumes "settles cs" and "t \<in> conditionTypes"
  shows "cs_For cs (write_of cs t w nc) = write_of cs t w nc"
  using assms unfolding settles_def write_of_def by blast

lemma write_of_idle: "cs_For cs nc = nc \<Longrightarrow> written cs t w nc \<Longrightarrow> write_of cs t w nc = nc"
  by (simp add: write_of_def written_def)

section \<open>Clients that answer the same\<close>

definition same_answers :: "('x \<Rightarrow> ('w, 'e, 'a) call) \<Rightarrow> bool" where
  "same_answers f \<longleftrightarrow> (\<forall>x w w'. fst (f x w) = fst (f x w'))"

definition steady :: "'w controller \<Rightarrow> bool" where
  "steady c \<longleftrightarrow>
     same_answers (ctl_networks c) \<and> same_answers (ctl_firewalls c) \<and> same_answers (ctl_sshKeys c) \<and>
     same_answers (ctl_images c) \<and> (\<forall>ns. same_answers (kube_GetSecretData (ctl_kubeClient c) ns))"

text \<open>A call whose outcome does not depend on the state.\<close>

definition stateless :: "('s, 'e, 'a) call \<Rightarrow> bool" where
  "stateless m \<longleftrightarrow> (\<forall>s t. fst (m s) = fst (m t))"

lemma stateless_pure: "stateless (return_call a)" "stateless (fail_call e)" "stateless (lift_outcome r)"
  by (simp_all add: stateless_def return_call_def fail_call_def lift_outcome_def)

lemma stateless_world: "same_answers f \<Longrightarrow> stateless (on_world (f x))"
  by (auto simp: stateless_def same_answers_def on_world_def split: prod.splits) (metis fst_conv)

lemma stateless_bind:
  assumes "stateless m" and "\<And>a. stateless (f a)"
  shows "stateless (bind_call m f)"
  unfolding stateless_def
proof (intro allI)
  fix s t
  obtain r s1 t1 where m: "m s = (r, s1)" "m t = (r, t1)"
    using assms(1) unfolding stateless_def by (metis prod.collapse)
  show "fst (bind_call m f s) = fst (bind_call m f t)"
    using m assms(2) unfolding stateless_def by (cases r) (auto simp: bind_call_def)
qed

lemma stateless_wrap: "stateless m \<Longrightarrow> stateless (wrap_call g m)"
  unfolding stateless_def wrap_call_def
  by (auto split: prod.splits outcome.splits) (metis fst_conv outcome.inject outcome.distinct)+

lemma statelessD: "stateless m \<Longrightarrow> m s = (r, s') \<Longrightarrow> \<exists>t'. m t = (r, t')"
  unfolding stateless_def by (metis fst_conv prod.collapse)


section \<open>The stages\<close>

lemma stateless_check_all: "same_answers get \<Longrightarrow> stateless (check_all get f m fmt is')"
proof (induction is')
  case Nil
  then show ?case by (simp add: stateless_pure)
next
  case (Cons i is')
  show ?case
    unfolding stateless_def
  proof (intro allI)
    fix s t :: "('a, 'b) env_scheme"
    obtain r s1 t1 where g: "on_world (get i) s = (r, s1)" "on_world (get i) t = (r, t1)"
      using stateless_world [OF Cons.prems, of i] unfolding stateless_def by (metis prod.collapse)
    show "fst (check_all get f m fmt (i # is') s) = fst (check_all get f m fmt (i # is') t)"
      using Cons.IH [OF Cons.prems] g by (auto simp: stateless_def split: outcome.splits option.splits)
  qed
qed

lemma stateless_resources: "steady c \<Longrightarrow> stateless (validateResources c nc)"
  unfolding validateResources_def
  by (intro stateless_bind) (auto simp: steady_def stateless_check_all stateless_pure)

lemma stateless_user_data:
  assumes "steady c"
  shows "stateless (validateUserData c nc)"
proof (cases "spec_UserDataSecretRef (nc_Spec nc)")
  case None
  then show ?thesis by (simp add: validateUserData_def stateless_pure)
next
  case (Some ref)
  have "same_answers (kube_GetSecretData (ctl_kubeClient c) (ref_Namespace ref))" using assms by (simp add: steady_def)
  note st = stateless_world [OF this, of "ref_Name ref"]
  show ?thesis
    unfolding stateless_def
  proof (intro allI)
    fix s t :: "('a, 'b) env_scheme"
    obtain r s1 t1 where g: "on_world (kube_GetSecretData (ctl_kubeClient c) (ref_Namespace ref) (ref_Name ref)) s = (r, s1)"
        "on_world (kube_GetSecretData (ctl_kubeClient c) (ref_Namespace ref) (ref_Name ref)) t = (r, t1)"
      using st unfolding stateless_def by (metis prod.collapse)
    show "fst (validateUserData c nc s) = fst (validateUserData c nc t)"
      using g by (simp add: validateUserData_def Some split: outcome.splits)
  qed
qed

lemma stateless_Resolve: "steady c \<Longrightarrow> stateless (Resolve (ctl_images c) sel arch)"
  unfolding Resolve_def resolveUbuntu_def resolveTalos_def Let_def
  by (auto simp: steady_def intro!: stateless_bind stateless_wrap stateless_world stateless_pure split: option.splits)

lemma stateless_resolve_arch:
  assumes "steady c"
  shows "stateless (resolve_arch c nc arch)"
  unfolding stateless_def
proof (intro allI)
  fix s t :: "('a, 'b) env_scheme"
  obtain r s1 t1 where "Resolve (ctl_images c) (spec_ImageSelector (nc_Spec nc)) arch s = (r, s1)"
      "Resolve (ctl_images c) (spec_ImageSelector (nc_Spec nc)) arch t = (r, t1)"
    using stateless_Resolve [OF assms] unfolding stateless_def by (metis prod.collapse)
  then show "fst (resolve_arch c nc arch s) = fst (resolve_arch c nc arch t)"
    by (simp add: resolve_arch_def split: outcome.splits)
qed

lemma stateless_resolveImages: "steady c \<Longrightarrow> stateless (resolveImages c nc)"
  unfolding resolveImages_def by (intro stateless_bind stateless_resolve_arch stateless_pure)

text \<open>Each validation writes one condition, the same for every object with the same specification.\<close>

lemma network_stage:
  fixes s :: "('w, 'z) env_scheme"
  assumes "steady c" and "reconcile_network cs c nc s = (Ok nc', s')"
  shows "\<exists>w. nc' = write_of cs ConditionTypeNetworkReady w nc \<and>
    (\<forall>nd (t :: ('w, 'z) env_scheme). nc_Spec nd = nc_Spec nc \<longrightarrow>
       (\<exists>t'. reconcile_network cs c nd t = (Ok (write_of cs ConditionTypeNetworkReady w nd), t')))"
proof -
  have "same_answers (ctl_networks c)" using assms(1) by (simp add: steady_def)
  note st = stateless_world [OF this, of "spec_NetworkID (nc_Spec nc)"]
  obtain r s1 where r: "on_world (ctl_networks c (spec_NetworkID (nc_Spec nc))) s = (r, s1)" by fastforce
  have all: "\<exists>t1. on_world (ctl_networks c (spec_NetworkID (nc_Spec nc))) t = (r, t1)" for t :: "('w, 'z) env_scheme"
    by (rule statelessD [OF st r])
  define w where "w = (case r of
      Ok (Some net) \<Rightarrow> WriteTrue
    | Err e \<Rightarrow> WriteUnknown ''NetworkCheckFailed'' (MsgErr (ErrSdk e))
    | _ \<Rightarrow> WriteFalse ''NetworkNotFound'' (MsgFmt ''configured networkID does not exist'' []))"
  have "r \<noteq> Panic" using assms(2) r by (auto simp: reconcile_network_def)
  then have run: "\<exists>t'. reconcile_network cs c nd t = (Ok (write_of cs ConditionTypeNetworkReady w nd), t')"
    if "nc_Spec nd = nc_Spec nc" for nd and t :: "('w, 'z) env_scheme"
    using all [of t] that by (auto simp: reconcile_network_def w_def write_of_set split: outcome.splits option.splits)
  from run [OF refl, of s] assms(2) have "nc' = write_of cs ConditionTypeNetworkReady w nc" by auto
  with run show ?thesis by blast
qed

definition validation_write :: "validation \<Rightarrow> cond_write" where
  "validation_write v = (case v of Valid \<Rightarrow> WriteTrue | Check_failed r m \<Rightarrow> WriteUnknown r m | Missing r m \<Rightarrow> WriteFalse r m)"

lemma report_validation_write:
  "\<exists>s'. report_validation cs c t action v nc s = (Ok (write_of cs t (validation_write v) nc), s')"
  by (cases v) (simp_all add: report_validation_def validation_write_def write_of_set)

lemma resources_same_spec: "nc_Spec nd = nc_Spec nc \<Longrightarrow> validateResources c nd = validateResources c nc"
  by (simp add: validateResources_def cong: if_cong)

lemma user_data_same_spec: "nc_Spec nd = nc_Spec nc \<Longrightarrow> validateUserData c nd = validateUserData c nc"
  by (simp add: validateUserData_def)

lemma resolve_same_spec: "nc_Spec nd = nc_Spec nc \<Longrightarrow> resolveImages c nd = resolveImages c nc"
  by (simp add: resolveImages_def resolve_arch_def [abs_def])

text \<open>The whole validation.\<close>

definition validate_writes :: "cond_set \<Rightarrow> cond_write \<Rightarrow> cond_write \<Rightarrow> cond_write \<Rightarrow> node_class \<Rightarrow> node_class" where
  "validate_writes cs n r u nc =
     write_of cs ConditionTypeUserDataReady u
       (write_of cs ConditionTypeResourcesReady r (write_of cs ConditionTypeNetworkReady n nc))"

lemma in_conditionTypes [simp]:
  "ConditionTypeImagesReady \<in> conditionTypes" "ConditionTypeNetworkReady \<in> conditionTypes"
  "ConditionTypeResourcesReady \<in> conditionTypes" "ConditionTypeUserDataReady \<in> conditionTypes"
  by (simp_all add: conditionTypes_def)

lemma write_of_spec: "cond_spec cs \<Longrightarrow> t \<in> conditionTypes \<Longrightarrow> nc_Spec (write_of cs t w nc) = nc_Spec nc"
  using write_of_same by (simp add: same_object_def)

lemma validate_stage:
  fixes s :: "('w, 'z) env_scheme"
  assumes cs: "cond_spec cs" and c: "steady c" and "validate_pass cs c nc s = (Ok nc', s')"
  shows "\<exists>n r u. nc' = validate_writes cs n r u nc \<and>
    (\<forall>nd (t :: ('w, 'z) env_scheme). nc_Spec nd = nc_Spec nc \<longrightarrow>
       (\<exists>t'. validate_pass cs c nd t = (Ok (validate_writes cs n r u nd), t')))"
proof -
  obtain nc1 s1 where n0: "reconcile_network cs c nc s = (Ok nc1, s1)"
    using assms(3) by (auto simp: validate_pass_def bind_call_ok_iff)
  obtain n where n: "nc1 = write_of cs ConditionTypeNetworkReady n nc"
      "\<And>nd t :: ('w, 'z) env_scheme. nc_Spec nd = nc_Spec nc \<Longrightarrow>
         \<exists>t'. reconcile_network cs c nd t = (Ok (write_of cs ConditionTypeNetworkReady n nd), t')"
    using network_stage [OF c n0] by blast
  have sp: "nc_Spec nc1 = nc_Spec nc" by (simp add: n(1) write_of_spec [OF cs])
  obtain v s2 where v0: "validateResources c nc1 s1 = (Ok v, s2)"
    using assms(3) n0 by (auto simp: validate_pass_def bind_call_ok_iff)
  have v: "\<exists>t'. validateResources c nd t = (Ok v, t')" if "nc_Spec nd = nc_Spec nc" for nd and t :: "('w, 'z) env_scheme"
  proof -
    have "validateResources c nd t = validateResources c nc1 t" using that sp by (simp add: resources_same_spec [of nd nc1])
    with statelessD [OF stateless_resources [OF c] v0, of t] show ?thesis by simp
  qed
  obtain s3 where r3: "report_validation cs c ConditionTypeResourcesReady ''ValidateResources'' v nc1 s2 =
      (Ok (write_of cs ConditionTypeResourcesReady (validation_write v) nc1), s3)"
    using report_validation_write by metis
  let ?nc2 = "write_of cs ConditionTypeResourcesReady (validation_write v) nc1"
  have sp2: "nc_Spec ?nc2 = nc_Spec nc" by (simp add: sp write_of_spec [OF cs])
  obtain u s4 where u0: "validateUserData c ?nc2 s3 = (Ok u, s4)"
    using assms(3) n0 v0 r3 by (auto simp: validate_pass_def bind_call_ok_iff)
  have u: "\<exists>t'. validateUserData c nd t = (Ok u, t')" if "nc_Spec nd = nc_Spec nc" for nd and t :: "('w, 'z) env_scheme"
  proof -
    have "validateUserData c nd t = validateUserData c ?nc2 t" using that sp2 by (simp add: user_data_same_spec [of nd ?nc2])
    with statelessD [OF stateless_user_data [OF c] u0, of t] show ?thesis by simp
  qed
  have run: "\<exists>t'. validate_pass cs c nd t =
      (Ok (validate_writes cs n (validation_write v) (validation_write u) nd), t')"
    if nd: "nc_Spec nd = nc_Spec nc" for nd and t :: "('w, 'z) env_scheme"
  proof -
    obtain t1 where t1: "reconcile_network cs c nd t = (Ok (write_of cs ConditionTypeNetworkReady n nd), t1)"
      using n(2) [OF nd] by blast
    let ?nd1 = "write_of cs ConditionTypeNetworkReady n nd"
    let ?nd2 = "write_of cs ConditionTypeResourcesReady (validation_write v) ?nd1"
    have s: "nc_Spec ?nd1 = nc_Spec nc" "nc_Spec ?nd2 = nc_Spec nc" using nd by (simp_all add: write_of_spec [OF cs])
    obtain t2 where t2: "validateResources c ?nd1 t1 = (Ok v, t2)" using v [OF s(1)] by blast
    obtain t3 where t3: "report_validation cs c ConditionTypeResourcesReady ''ValidateResources'' v ?nd1 t2 = (Ok ?nd2, t3)"
      using report_validation_write by metis
    obtain t4 where t4: "validateUserData c ?nd2 t3 = (Ok u, t4)" using u [OF s(2)] by blast
    obtain t5 where t5: "report_validation cs c ConditionTypeUserDataReady ''ValidateUserData'' u ?nd2 t4 =
        (Ok (write_of cs ConditionTypeUserDataReady (validation_write u) ?nd2), t5)"
      using report_validation_write by metis
    have "validate_pass cs c nd t = (Ok (write_of cs ConditionTypeUserDataReady (validation_write u) ?nd2), t5)"
      unfolding validate_pass_def by (simp add: bind_call_step t1 t2 t3 t4 t5)
    then show ?thesis by (simp add: validate_writes_def)
  qed
  from run [OF refl, of s] assms(3) have "nc' = validate_writes cs n (validation_write v) (validation_write u) nc" by auto
  with run show ?thesis by blast
qed


section \<open>The image stage\<close>

text \<open>What \<open>report_images\<close> writes, as a function of the merged results.\<close>

definition images_write :: "merged \<Rightarrow> cond_write" where
  "images_write m =
     (if mg_resolved m \<noteq> [] then WriteTrue
      else if mg_transient m \<noteq> []
      then WriteUnknown ''ImageResolutionErrored''
             (MsgErr (the (errors_Join [errors_Join (map Some (mg_transient m)), errors_Join (map Some (mg_definitive m))])))
      else WriteFalse ''ImageResolutionFailed'' (MsgErr (the (errors_Join (map Some (mg_definitive m))))))"

lemma report_images_write:
  assumes "report_images cs c nc m s = (Ok nc', s')"
  shows "nc' = write_of cs ConditionTypeImagesReady (images_write m) (nc\<lparr>nc_ResolvedImages := mg_resolved m\<rparr>)"
  using assms by (auto simp: report_images_def images_write_def write_of_set Let_def split: if_splits option.splits)

lemma report_images_same:
  assumes "report_images cs c nc m s = (Ok nc', s')"
  shows "\<exists>t'. report_images cs c nd m t =
    (Ok (write_of cs ConditionTypeImagesReady (images_write m) (nd\<lparr>nc_ResolvedImages := mg_resolved m\<rparr>)), t')"
proof -
  obtain r t' where r: "report_images cs c nd m t = (r, t')" by fastforce
  have "r \<noteq> Panic" using r assms by (auto simp: report_images_def Let_def split: if_splits option.splits)
  moreover have "r \<noteq> Err e" for e using r by (auto simp: report_images_def Let_def split: if_splits option.splits)
  ultimately obtain nd' where "r = Ok nd'" by (cases r) auto
  with r report_images_write [of cs c nd m t nd' t'] show ?thesis by simp
qed

text \<open>Merging the same answers into what they were merged into before gives the same again.\<close>

lemma merge_cong:
  "(\<And>r. r \<in> set rs \<Longrightarrow> ir_err r \<noteq> None \<Longrightarrow> ir_transient r \<Longrightarrow> map_of prev' (ir_arch r) = map_of prev (ir_arch r)) \<Longrightarrow>
     merge_results prev' rs = merge_results prev rs"
  by (induction rs) (auto simp: merge_results.simps Let_def split: option.splits)

lemma merge_again:
  assumes "ir_arch x \<noteq> ir_arch a"
  shows "merge_results (previous_ids (mg_resolved (merge_results prev [x, a]))) [x, a] = merge_results prev [x, a]"
proof (rule merge_cong)
  fix r assume r: "r \<in> set [x, a]" "ir_err r \<noteq> None" "ir_transient r"
  have "map_of (previous_ids (mg_resolved (merge_results prev [x, a]))) (ir_arch r) = entry_of prev r"
    using recorded_pair [OF assms, of "example_class\<lparr>nc_ResolvedImages := mg_resolved (merge_results prev [x, a])\<rparr>" prev] r(1)
    by (auto simp: recorded_image_def)
  then show "map_of (previous_ids (mg_resolved (merge_results prev [x, a]))) (ir_arch r) = map_of prev (ir_arch r)"
    using r by (auto simp: entry_of_def)
qed

lemma resolve_two:
  assumes "resolveImages c nc s = (Ok rs, s')"
  shows "\<exists>x a. rs = [x, a] \<and> ir_arch x \<noteq> ir_arch a"
proof -
  obtain x a s1 s2 where "resolve_arch c nc ArchitectureX86 s = (Ok x, s1)"
      "resolve_arch c nc ArchitectureARM s1 = (Ok a, s2)" and rs: "rs = [x, a]"
    using assms unfolding resolveImages_def bind_call_ok_iff return_call_apply by blast
  from entry_of_resolved [OF this(1)] entry_of_resolved [OF this(2)]
  have "ir_arch x = ArchitectureX86" "ir_arch a = ArchitectureARM" by blast+
  then have "ir_arch x \<noteq> ir_arch a" by (simp add: arch_defs)
  with rs show ?thesis by blast
qed

lemma image_stage:
  fixes s :: "('w, 'z) env_scheme"
  assumes cs: "cond_spec cs" and c: "steady c" and "reconcile_images cs c nc s = (Ok nc', s')"
  shows "\<exists>m. nc' = write_of cs ConditionTypeImagesReady (images_write m) ((drop_stale nc)\<lparr>nc_ResolvedImages := mg_resolved m\<rparr>) \<and>
    (\<forall>nd (t :: ('w, 'z) env_scheme). nc_Spec nd = nc_Spec nc \<and> drop_stale nd = nd \<and> nc_ResolvedImages nd = mg_resolved m \<longrightarrow>
       (\<exists>t'. reconcile_images cs c nd t = (Ok (write_of cs ConditionTypeImagesReady (images_write m) nd), t')))"
proof -
  let ?nc = "drop_stale nc"
  obtain rs s1 where rs: "resolveImages c ?nc s = (Ok rs, s1)"
    and rep: "report_images cs c ?nc (merge_results (previous_ids (nc_ResolvedImages ?nc)) rs) s1 = (Ok nc', s')"
    using assms(3) by (auto simp: reconcile_images_def Let_def bind_call_ok_iff)
  define m where "m = merge_results (previous_ids (nc_ResolvedImages ?nc)) rs"
  have again: "merge_results (previous_ids (mg_resolved m)) rs = m"
    using resolve_two [OF rs] merge_again unfolding m_def by blast
  have "\<exists>t'. reconcile_images cs c nd t = (Ok (write_of cs ConditionTypeImagesReady (images_write m) nd), t')"
    if nd: "nc_Spec nd = nc_Spec nc" "drop_stale nd = nd" "nc_ResolvedImages nd = mg_resolved m"
    for nd and t :: "('w, 'z) env_scheme"
  proof -
    have "resolveImages c nd t = resolveImages c ?nc t" using nd(1) by (simp add: resolve_same_spec [of nd ?nc])
    then obtain t1 where t1: "resolveImages c nd t = (Ok rs, t1)"
      using statelessD [OF stateless_resolveImages [OF c] rs, of t] by auto
    have upd: "nd\<lparr>nc_ResolvedImages := mg_resolved m\<rparr> = nd" by (simp flip: nd(3))
    obtain t2 where "report_images cs c nd m t1 = (Ok (write_of cs ConditionTypeImagesReady (images_write m) nd), t2)"
      using report_images_same [OF rep, of nd t1] unfolding m_def [symmetric] upd by blast
    then show ?thesis
      by (simp add: reconcile_images_def Let_def bind_call_step t1 nd(2,3) again)
  qed
  then show ?thesis using report_images_write [OF rep] unfolding m_def [symmetric] by blast
qed

section \<open>A second pass\<close>

lemma same_conds_trans: "same_conds ts nc nd \<Longrightarrow> same_conds ts nd ne \<Longrightarrow> same_conds ts nc ne"
  by (simp add: same_conds_def)

text \<open>After a pass every condition is written as the pass would write it again.\<close>

lemma pass_written:
  assumes cs: "cond_spec cs" and st: "settles cs"
    and nc': "nc' = write_of cs ConditionTypeImagesReady w (nc2\<lparr>nc_ResolvedImages := ris\<rparr>)"
    and nc2: "nc2 = validate_writes cs n r u nc \<or> nc2 = drop_stale (validate_writes cs n r u nc)"
  shows "written cs ConditionTypeNetworkReady n nc' \<and> written cs ConditionTypeResourcesReady r nc' \<and>
    written cs ConditionTypeUserDataReady u nc' \<and> written cs ConditionTypeImagesReady w nc'"
proof -
  let ?n = "write_of cs ConditionTypeNetworkReady n nc"
  let ?r = "write_of cs ConditionTypeResourcesReady r ?n"
  let ?u = "write_of cs ConditionTypeUserDataReady u ?r"
  let ?i = "nc2\<lparr>nc_ResolvedImages := ris\<rparr>"
  note found = written_find [OF cs st]
  note others = write_of_others [OF cs]
  have i: "same_conds ts ?u ?i" for ts
    using nc2 by (auto simp: same_conds_def validate_writes_def)
  have n1: "same_conds {ConditionTypeNetworkReady} ?n ?r" by (rule others) (simp_all add: found)
  have n2: "same_conds {ConditionTypeNetworkReady} ?r ?u"
    by (rule others) (use n1 found [of ConditionTypeNetworkReady n nc] in \<open>simp_all add: same_conds_def\<close>)
  have n3: "same_conds {ConditionTypeNetworkReady} ?n ?i" by (rule same_conds_trans [OF same_conds_trans [OF n1 n2] i])
  have n4: "same_conds {ConditionTypeNetworkReady} ?i nc'" unfolding nc'
    by (rule others) (use n3 found [of ConditionTypeNetworkReady n nc] in \<open>simp_all add: same_conds_def\<close>)
  have r1: "same_conds {ConditionTypeResourcesReady} ?r ?u" by (rule others) (simp_all add: found)
  have r2: "same_conds {ConditionTypeResourcesReady} ?r ?i" by (rule same_conds_trans [OF r1 i])
  have r3: "same_conds {ConditionTypeResourcesReady} ?i nc'" unfolding nc'
    by (rule others) (use r2 found [of ConditionTypeResourcesReady r ?n] in \<open>simp_all add: same_conds_def\<close>)
  have u1: "same_conds {ConditionTypeUserDataReady} ?i nc'" unfolding nc'
    by (rule others) (use i [of "{ConditionTypeUserDataReady}"] found [of ConditionTypeUserDataReady u ?r] in \<open>simp_all add: same_conds_def\<close>)
  note wr = write_of_written [OF cs st]
  show ?thesis
    using wr [OF _ same_conds_trans [OF n3 n4]] wr [OF _ same_conds_trans [OF r2 r3]]
      wr [OF _ same_conds_trans [OF i u1]] wr [of ConditionTypeImagesReady w ?i nc']
    by (simp add: nc' same_conds_def)
qed

text \<open>C5: Reconciling settles. When the clients answer as they did and nobody edits the NodeClass, a pass
  over the status the pass before has written comes to exactly that status -- the same conditions with
  the same messages, the same images in the same order, also when a lookup failed and its image was
  carried forward -- so the second reconcile writes nothing and only asks to be called again in five
  minutes; a status write never chases its own tail.\<close>

theorem reconcile_settles:
  fixes s t :: "('w, 'z) env_scheme"
  assumes "cond_spec cs" and "settles cs" and "steady c" and "reconcile_pass cs c nc s = (Ok nc', s')"
  shows "\<exists>t'. reconcile_pass cs c nc' t = (Ok nc', t') \<and> Reconcile cs c nc' t = (Ok resyncInterval, t')"
proof -
  obtain nc3 s3 where v0: "validate_pass cs c nc s = (Ok nc3, s3)" and i0: "reconcile_images cs c nc3 s3 = (Ok nc', s')"
    using assms(4) by (auto simp: reconcile_pass_def bind_call_ok_iff)
  obtain n r u where v: "nc3 = validate_writes cs n r u nc"
      "\<And>nd t :: ('w, 'z) env_scheme. nc_Spec nd = nc_Spec nc \<Longrightarrow>
         \<exists>t'. validate_pass cs c nd t = (Ok (validate_writes cs n r u nd), t')"
    using validate_stage [OF assms(1,3) v0] by blast
  obtain m where i: "nc' = write_of cs ConditionTypeImagesReady (images_write m) ((drop_stale nc3)\<lparr>nc_ResolvedImages := mg_resolved m\<rparr>)"
      "\<And>nd t :: ('w, 'z) env_scheme. nc_Spec nd = nc_Spec nc3 \<Longrightarrow> drop_stale nd = nd \<Longrightarrow>
         nc_ResolvedImages nd = mg_resolved m \<Longrightarrow>
         \<exists>t'. reconcile_images cs c nd t = (Ok (write_of cs ConditionTypeImagesReady (images_write m) nd), t')"
    using image_stage [OF assms(1,3) i0] by blast
  have sp3: "nc_Spec nc3 = nc_Spec nc" by (simp add: v(1) validate_writes_def write_of_spec [OF assms(1)])
  have same: "same_object ((drop_stale nc3)\<lparr>nc_ResolvedImages := mg_resolved m\<rparr>) nc'"
    unfolding i(1) by (rule write_of_same [OF assms(1)]) simp
  then have sp: "nc_Spec nc' = nc_Spec nc" "nc_ResolvedImages nc' = mg_resolved m"
    by (simp_all add: same_object_def sp3)
  have w: "written cs ConditionTypeNetworkReady n nc'" "written cs ConditionTypeResourcesReady r nc'"
    "written cs ConditionTypeUserDataReady u nc'" "written cs ConditionTypeImagesReady (images_write m) nc'"
    using pass_written [OF assms(1,2) i(1), of n r u nc] v(1) by blast+
  have all: "cs_For cs nc' = nc'" unfolding i(1) by (rule write_of_complete [OF assms(2)]) simp
  have idle: "validate_writes cs n r u nc' = nc'" "write_of cs ConditionTypeImagesReady (images_write m) nc' = nc'"
    using write_of_idle [OF all] w by (simp_all add: validate_writes_def)
  obtain x a s4 s5 st where "reported nc' ConditionTypeImagesReady st"
    by (rule reconcile_images_result [OF assms(1) i0]) blast
  then have "drop_stale nc' = nc'"
    by (auto simp: drop_stale_def reported_def ResolvedImagesGeneration_def images_ready_generation_find)
  note again = i(2) [of nc', OF _ this sp(2)]
  obtain t1 where t1: "validate_pass cs c nc' t = (Ok nc', t1)" using v(2) [OF sp(1), of t] idle(1) by auto
  obtain t2 where t2: "reconcile_images cs c nc' t1 = (Ok nc', t2)" using again [of t1] sp(1) sp3 idle(2) by auto
  have p: "reconcile_pass cs c nc' t = (Ok nc', t2)" by (simp add: reconcile_pass_def bind_call_step t1 t2)
  then have "Reconcile cs c nc' t = (Ok resyncInterval, t2)"
    by (simp add: Reconcile_def bind_call_step return_call_def)
  with p show ?thesis by blast
qed

section \<open>A settled run\<close>

text \<open>The concrete condition set, with writes that keep what is there already.\<close>

definition keep_cond ::
  "cond_status \<Rightarrow> cond_type \<Rightarrow> string \<Rightarrow> cond_message \<Rightarrow> node_class \<Rightarrow> node_class" where
  "keep_cond st t reason msg nc =
     (if find_cond t (nc_Conditions nc) =
         Some \<lparr>cond_Type = t, cond_Status = st, cond_Reason = reason, cond_Message = msg,
               cond_ObservedGeneration = nc_Generation nc\<rparr>
      then nc else write_cond st t reason msg nc)"

definition keeping_conds :: cond_set where
  "keeping_conds =
     example_conds\<lparr>cs_SetTrue := (\<lambda>t. keep_cond CondTrue t ''Ready'' MsgNone),
                   cs_SetFalse := keep_cond CondFalse, cs_SetUnknown := keep_cond CondUnknown\<rparr>"

lemma keep_cond_sel [simp]:
  "nc_Generation (keep_cond st t r m nc) = nc_Generation nc"
  "find_cond t' (nc_Conditions (keep_cond st t r m nc)) =
     (if t' = t then Some \<lparr>cond_Type = t, cond_Status = st, cond_Reason = r, cond_Message = m,
                           cond_ObservedGeneration = nc_Generation nc\<rparr>
      else find_cond t' (nc_Conditions nc))"
  by (simp_all add: keep_cond_def)

lemma keep_cond_writes: "writes_cond (keep_cond st t r m) t st"
proof -
  have "cond_frame (keep_cond st t r m)"
    by (simp add: cond_frame_def keep_cond_def write_cond_def)
  then show ?thesis by (simp add: writes_cond_def)
qed

lemma init_conds_keeps: "\<forall>t \<in> set ts. find_cond t (nc_Conditions nc) \<noteq> None \<Longrightarrow> init_conds ts nc = nc"
  by (induction ts) auto

lemma keeping_sets:
  "cs_For keeping_conds = cs_For example_conds"
  "cs_SetTrue keeping_conds t = keep_cond CondTrue t ''Ready'' MsgNone"
  "cs_SetFalse keeping_conds = keep_cond CondFalse" "cs_SetUnknown keeping_conds = keep_cond CondUnknown"
  by (simp_all add: keeping_conds_def)

lemma keeping_spec: "cond_spec keeping_conds"
  using example_conds_spec unfolding cond_spec_def keeping_sets by (blast intro: keep_cond_writes)

lemma keeping_write: "\<exists>st r m. raw_write keeping_conds t w = keep_cond st t r m"
  by (cases w) (auto simp: keeping_sets fun_eq_iff)

lemma keeping_For: "cs_For keeping_conds nc = nc \<longleftrightarrow> (\<forall>t \<in> conditionTypes. find_cond t (nc_Conditions nc) \<noteq> None)"
proof -
  have found: "find_cond t (nc_Conditions (cs_For keeping_conds nc)) \<noteq> None" if "t \<in> conditionTypes" for t
    using that by (auto simp: keeping_sets example_For find_cond_init conditionTypes_def simp del: init_conds.simps
        split: option.splits)
  have "cs_For keeping_conds nc = nc" if "\<forall>t \<in> conditionTypes. find_cond t (nc_Conditions nc) \<noteq> None"
    unfolding keeping_sets example_For by (rule init_conds_keeps) (use that in \<open>auto simp: conditionTypes_def\<close>)
  with found show ?thesis by metis
qed

lemma keeping_settles: "settles keeping_conds"
proof -
  have twice: "cs_For keeping_conds (cs_For keeping_conds nc) = cs_For keeping_conds nc" for nc
  proof -
    have "find_cond t (nc_Conditions (cs_For keeping_conds nc)) \<noteq> None" if "t \<in> conditionTypes" for t
      using that by (auto simp: keeping_sets example_For find_cond_init conditionTypes_def simp del: init_conds.simps
          split: option.splits)
    then show ?thesis by (simp add: keeping_For)
  qed
  have stays: "cs_For keeping_conds (raw_write keeping_conds t w nc) = raw_write keeping_conds t w nc"
    if "cs_For keeping_conds nc = nc" for t w nc
    using that keeping_write [of t w] unfolding keeping_For by auto
  have content: "\<exists>content. \<forall>nc. find_cond t (nc_Conditions (raw_write keeping_conds t w nc)) = Some (content (nc_Generation nc)) \<and>
      (find_cond t (nc_Conditions nc) = Some (content (nc_Generation nc)) \<longrightarrow> raw_write keeping_conds t w nc = nc)" for t w
  proof -
    obtain st r m where w: "raw_write keeping_conds t w = keep_cond st t r m" using keeping_write by blast
    show ?thesis unfolding w
      by (rule exI [of _ "\<lambda>g. \<lparr>cond_Type = t, cond_Status = st, cond_Reason = r, cond_Message = m,
                                cond_ObservedGeneration = g\<rparr>"]) (simp add: keep_cond_def)
  qed
  from twice stays content show ?thesis unfolding settles_def by blast
qed

lemma still_steady: "steady (still_controller r)"
  by (simp add: steady_def same_answers_def still_controller_def still_kube_def still_images_def)

text \<open>The NodeClass was edited and the catalogue cannot be read: the first pass reports \<open>Unknown\<close> for
  the new generation; the second reports the same and changes nothing.\<close>

lemma reconcile_settles_witness:
  "\<exists>nc' s' t'. reconcile_pass keeping_conds (still_controller (Err (SdkError None ''503'')))
       (example_class\<lparr>nc_Generation := 4\<rparr>) still_env = (Ok nc', s') \<and>
     nc' \<noteq> example_class\<lparr>nc_Generation := 4\<rparr> \<and>
     Reconcile keeping_conds (still_controller (Err (SdkError None ''503''))) nc' s' = (Ok resyncInterval, t')"
proof -
  let ?c = "still_controller (Err (SdkError None ''503''))" and ?nc = "example_class\<lparr>nc_Generation := 4\<rparr>"
  have "clients_return ?c" by (rule still_controller_returns) simp
  then obtain nc' s' where p: "reconcile_pass keeping_conds ?c ?nc still_env = (Ok nc', s')"
    using total_callE [OF total_reconcile_pass] by metis
  obtain nc3 s3 where i: "reconcile_images keeping_conds ?c nc3 s3 = (Ok nc', s')"
    by (rule reconcile_pass_stages [OF keeping_spec p])
  obtain st where "reported nc' ConditionTypeImagesReady st"
    by (rule reconcile_images_result [OF keeping_spec i]) blast
  then have "nc' \<noteq> ?nc" by (auto simp: reported_def example_class_def)
  with p reconcile_settles [OF keeping_spec keeping_settles still_steady p, of s'] show ?thesis by blast
qed

end
