(* ===== verification/Placement_Groups.thy ===== *)
theory Placement_Groups
  imports Instance_Correct
begin

text \<open>
  Many calls of \<open>Create\<close> at once. A placement group is looked up and, when there is none, created: two
  requests with other goroutines, other replicas and other clusters in between. The model of one call,
  \<open>getOrCreatePlacementGroup\<close>, is taken apart into those two steps; that the servers of a node pool still
  end up in one group rests on the API, which refuses a second group of the same name.
\<close>

section \<open>What the API documents\<close>

text \<open>
  \<open>groups\<close> reads the project's spread groups off the world: names are unique, and so are IDs. A lookup
  by name answers from what exists; a create adds a group of a new ID, or fails, then perhaps after the
  group was made.
\<close>

definition looks_up_groups :: "'w placement_group_client \<Rightarrow> ('w \<Rightarrow> string \<rightharpoonup> int64) \<Rightarrow> bool" where
  "looks_up_groups pgc groups \<longleftrightarrow>
     (\<forall>name w r w'. pgc_AllWithOpts pgc name w = (r, w') \<longrightarrow>
        groups w' = groups w \<and>
        (\<forall>gs. r = Ok gs \<longrightarrow> gs = (case groups w name of None \<Rightarrow> [] | Some g \<Rightarrow> [g])))"

definition creates_groups :: "'w placement_group_client \<Rightarrow> ('w \<Rightarrow> string \<rightharpoonup> int64) \<Rightarrow> bool" where
  "creates_groups pgc groups \<longleftrightarrow>
     (\<forall>name w r w'. pgc_Create pgc name w = (r, w') \<longrightarrow>
        (groups w' = groups w \<or> groups w name = None \<and> (\<exists>g. groups w' = (groups w)(name \<mapsto> g))) \<and>
        (\<forall>p. r = Ok p \<longrightarrow> groups w name = None \<and> (\<exists>g. p = Some g \<and> groups w' = (groups w)(name \<mapsto> g))))"

definition group_spec :: "'w placement_group_client \<Rightarrow> ('w \<Rightarrow> string \<rightharpoonup> int64) \<Rightarrow> bool" where
  "group_spec pgc groups \<longleftrightarrow>
     looks_up_groups pgc groups \<and> creates_groups pgc groups \<and> (\<forall>w. inj_on (groups w) (dom (groups w)))"

text \<open>Whoever else changes the project takes no group away.\<close>

definition keeps_groups :: "('w \<Rightarrow> 'w \<Rightarrow> bool) \<Rightarrow> ('w \<Rightarrow> string \<rightharpoonup> int64) \<Rightarrow> bool" where
  "keeps_groups others groups \<longleftrightarrow> (\<forall>w w'. others w w' \<longrightarrow> groups w \<subseteq>\<^sub>m groups w')"

section \<open>The steps\<close>

datatype group_phase =
    NoCall
  | Listing string
  | Missing string
  | Resolved_group string "(err, int64) outcome"

text \<open>\<open>gs_answers\<close> remembers every group a call has returned.\<close>

record 'w group_state =
  gs_world :: 'w
  gs_phase :: "nat \<Rightarrow> group_phase"
  gs_answers :: "(string \<times> int64) set"

fun answer :: "string \<Rightarrow> (err, int64) outcome \<Rightarrow> (string \<times> int64) set" where
  "answer name (Ok g) = {(name, g)}"
| "answer name _ = {}"

definition resolves :: "nat \<Rightarrow> string \<Rightarrow> (err, int64) outcome \<Rightarrow> 'w group_state \<Rightarrow> 'w group_state" where
  "resolves i name r s =
     s\<lparr>gs_phase := (gs_phase s)(i := Resolved_group name r), gs_answers := answer name r \<union> gs_answers s\<rparr>"

inductive group_step ::
  "'w placement_group_client \<Rightarrow> ('w \<Rightarrow> 'w \<Rightarrow> bool) \<Rightarrow> 'w group_state \<Rightarrow> 'w group_state \<Rightarrow> bool"
  for pgc others where
  calls: "gs_phase s i = NoCall \<Longrightarrow> group_step pgc others s (s\<lparr>gs_phase := (gs_phase s)(i := Listing name)\<rparr>)"
| list_fails: "gs_phase s i = Listing name \<Longrightarrow> pgc_AllWithOpts pgc name (gs_world s) = (Err e, w) \<Longrightarrow>
     group_step pgc others s
       (resolves i name (Err (ErrWrap ''listing placement groups: %w'' [] (ErrSdk e))) (s\<lparr>gs_world := w\<rparr>))"
| exists: "gs_phase s i = Listing name \<Longrightarrow> pgc_AllWithOpts pgc name (gs_world s) = (Ok (g # gs), w) \<Longrightarrow>
     group_step pgc others s (resolves i name (Ok g) (s\<lparr>gs_world := w\<rparr>))"
| missing: "gs_phase s i = Listing name \<Longrightarrow> pgc_AllWithOpts pgc name (gs_world s) = (Ok [], w) \<Longrightarrow>
     group_step pgc others s (s\<lparr>gs_world := w, gs_phase := (gs_phase s)(i := Missing name)\<rparr>)"
| create_fails: "gs_phase s i = Missing name \<Longrightarrow> pgc_Create pgc name (gs_world s) = (Err e, w) \<Longrightarrow>
     group_step pgc others s
       (resolves i name (Err (ErrWrap ''creating placement group %q: %w'' [AStr name] (ErrSdk e))) (s\<lparr>gs_world := w\<rparr>))"
| created: "gs_phase s i = Missing name \<Longrightarrow> pgc_Create pgc name (gs_world s) = (Ok p, w) \<Longrightarrow>
     group_step pgc others s (resolves i name (deref p) (s\<lparr>gs_world := w\<rparr>))"
| returns: "gs_phase s i = Resolved_group name r \<Longrightarrow> group_step pgc others s (s\<lparr>gs_phase := (gs_phase s)(i := NoCall)\<rparr>)"
| others_act: "others (gs_world s) w \<Longrightarrow> group_step pgc others s (s\<lparr>gs_world := w\<rparr>)"

inductive_cases group_stepE: "group_step pgc others s s'"

lemmas group_step_cases [consumes 1, case_names calls list_fails exists missing create_fails created returns others_act] =
  group_stepE

definition group_initial :: "'w group_state \<Rightarrow> bool" where
  "group_initial s \<longleftrightarrow> (\<forall>i. gs_phase s i = NoCall) \<and> gs_answers s = {}"

definition group_reachable ::
  "'w placement_group_client \<Rightarrow> ('w \<Rightarrow> 'w \<Rightarrow> bool) \<Rightarrow> 'w group_state \<Rightarrow> bool" where
  "group_reachable pgc others s \<longleftrightarrow> (\<exists>s0. group_initial s0 \<and> (group_step pgc others)\<^sup>*\<^sup>* s0 s)"

section \<open>One call alone\<close>

lemma getOrCreate_requests:
  "getOrCreatePlacementGroup pgc name e =
     (case pgc_AllWithOpts pgc name (env_world e) of
        (Err x, w) \<Rightarrow> (Err (ErrWrap ''listing placement groups: %w'' [] (ErrSdk x)), e\<lparr>env_world := w\<rparr>)
      | (Panic, w) \<Rightarrow> (Panic, e\<lparr>env_world := w\<rparr>)
      | (Ok (g # gs), w) \<Rightarrow> (Ok g, e\<lparr>env_world := w\<rparr>)
      | (Ok [], w) \<Rightarrow>
          (case pgc_Create pgc name w of
             (Err x, w2) \<Rightarrow> (Err (ErrWrap ''creating placement group %q: %w'' [AStr name] (ErrSdk x)), e\<lparr>env_world := w2\<rparr>)
           | (Panic, w2) \<Rightarrow> (Panic, e\<lparr>env_world := w2\<rparr>)
           | (Ok p, w2) \<Rightarrow> (deref p, e\<lparr>env_world := w2\<rparr>)))"
  by (simp add: getOrCreatePlacementGroup_def bind_call_def wrap_call_def on_world_def return_call_def lift_outcome_def
      split: prod.split outcome.split list.split)

text \<open>With nobody in between, the steps are \<open>getOrCreatePlacementGroup\<close>.\<close>

lemma group_alone:
  assumes "getOrCreatePlacementGroup pgc name e = (r, e')" and "r \<noteq> Panic"
    and "gs_phase s i = NoCall" and "gs_world s = env_world e"
  shows "(group_step pgc others)\<^sup>*\<^sup>* s (resolves i name r (s\<lparr>gs_world := env_world e'\<rparr>))"
proof -
  let ?s1 = "s\<lparr>gs_phase := (gs_phase s)(i := Listing name)\<rparr>"
  have 1: "group_step pgc others s ?s1" using assms(3) by (rule group_step.calls)
  have end_at: "(group_step pgc others)\<^sup>*\<^sup>* s (resolves i name r (s\<lparr>gs_world := env_world e'\<rparr>))"
    if "(group_step pgc others)\<^sup>*\<^sup>* s t" "group_step pgc others t (resolves i name r (t\<lparr>gs_world := env_world e'\<rparr>))"
      "gs_answers t = gs_answers s" "\<exists>ph. gs_phase t = (gs_phase s)(i := ph)" for t
  proof -
    have "resolves i name r (t\<lparr>gs_world := env_world e'\<rparr>) = resolves i name r (s\<lparr>gs_world := env_world e'\<rparr>)"
      using that(3,4) by (auto simp: resolves_def)
    with that(1,2) show ?thesis by (metis rtranclp.rtrancl_into_rtrancl)
  qed
  obtain l w where l: "pgc_AllWithOpts pgc name (env_world e) = (l, w)" by fastforce
  have lw: "pgc_AllWithOpts pgc name (gs_world ?s1) = (l, w)" using l assms(4) by simp
  consider (fail) x where "l = Err x" | (found) g gs where "l = Ok (g # gs)" | (none) "l = Ok []" | (panic) "l = Panic"
    by (metis list.exhaust outcome.exhaust)
  then show ?thesis
  proof cases
    case fail
    then have r: "r = Err (ErrWrap ''listing placement groups: %w'' [] (ErrSdk x))" "env_world e' = w"
      using assms(1) l by (auto simp: getOrCreate_requests)
    show ?thesis
      by (rule end_at [of ?s1]) (use 1 lw fail in \<open>auto simp: r intro: group_step.list_fails\<close>)
  next
    case found
    then have r: "r = Ok g" "env_world e' = w" using assms(1) l by (auto simp: getOrCreate_requests)
    show ?thesis
      by (rule end_at [of ?s1]) (use 1 lw found in \<open>auto simp: r intro: group_step.exists\<close>)
  next
    case none
    let ?s2 = "?s1\<lparr>gs_world := w, gs_phase := (gs_phase ?s1)(i := Missing name)\<rparr>"
    have "group_step pgc others ?s1 ?s2" using lw none by (intro group_step.missing) simp_all
    with 1 have 2: "(group_step pgc others)\<^sup>*\<^sup>* s ?s2" by auto
    obtain c w2 where c: "pgc_Create pgc name w = (c, w2)" by fastforce
    have cw: "pgc_Create pgc name (gs_world ?s2) = (c, w2)" using c by simp
    have r: "env_world e' = w2" "c \<noteq> Panic" "\<And>p. c = Ok p \<Longrightarrow> r = deref p"
        "\<And>x. c = Err x \<Longrightarrow> r = Err (ErrWrap ''creating placement group %q: %w'' [AStr name] (ErrSdk x))"
      using assms(1,2) l c none by (auto simp: getOrCreate_requests split: outcome.splits)
    have "group_step pgc others ?s2 (resolves i name r (?s2\<lparr>gs_world := env_world e'\<rparr>))"
    proof (cases c)
      case (Ok p)
      show ?thesis unfolding r(1) r(3) [OF Ok] by (rule group_step.created) (use cw Ok in simp_all)
    next
      case (Err x)
      show ?thesis unfolding r(1) r(4) [OF Err] by (rule group_step.create_fails) (use cw Err in simp_all)
    qed (use r(2) in simp)
    with 2 show ?thesis by (rule end_at) auto
  next
    case panic
    then show ?thesis using assms(1,2) l by (simp add: getOrCreate_requests)
  qed
qed

section \<open>One group for a name\<close>

text \<open>Every group a call has returned exists, under the name it was asked for.\<close>

definition answers_exist :: "('w \<Rightarrow> string \<rightharpoonup> int64) \<Rightarrow> 'w group_state \<Rightarrow> bool" where
  "answers_exist groups s \<longleftrightarrow> (\<forall>(name, g) \<in> gs_answers s. groups (gs_world s) name = Some g)"

lemma listed_groups:
  assumes "group_spec pgc groups" and "pgc_AllWithOpts pgc name w = (r, w')"
  shows "groups w' = groups w" "r = Ok (g # gs) \<Longrightarrow> groups w' name = Some g"
proof -
  have l: "groups w' = groups w" "\<And>gs. r = Ok gs \<Longrightarrow> gs = (case groups w name of None \<Rightarrow> [] | Some g \<Rightarrow> [g])"
    using assms unfolding group_spec_def looks_up_groups_def by blast+
  from l(1) show "groups w' = groups w" .
  from l show "r = Ok (g # gs) \<Longrightarrow> groups w' name = Some g" by (auto split: option.splits)
qed

lemma created_groups:
  assumes "group_spec pgc groups" and "pgc_Create pgc name w = (r, w')"
  shows "groups w \<subseteq>\<^sub>m groups w'" "r = Ok p \<Longrightarrow> \<exists>g. p = Some g \<and> groups w' name = Some g"
proof -
  have c: "groups w' = groups w \<or> groups w name = None \<and> (\<exists>g. groups w' = (groups w)(name \<mapsto> g))"
    "r = Ok p \<Longrightarrow> \<exists>g. p = Some g \<and> groups w' = (groups w)(name \<mapsto> g)"
    using assms unfolding group_spec_def creates_groups_def by blast+
  from c(1) show "groups w \<subseteq>\<^sub>m groups w'" by (auto simp: map_le_def dom_def)
  from c(2) show "r = Ok p \<Longrightarrow> \<exists>g. p = Some g \<and> groups w' name = Some g" by auto
qed

lemma answers_kept:
  assumes "answers_exist groups s" and "groups (gs_world s) \<subseteq>\<^sub>m groups w"
    and "\<And>g. r = Ok g \<Longrightarrow> groups w name = Some g"
  shows "answers_exist groups (resolves i name r (s\<lparr>gs_world := w\<rparr>))" "answers_exist groups (s\<lparr>gs_world := w\<rparr>)"
  using assms by (cases r; force simp: answers_exist_def resolves_def map_le_def dom_def)+

lemma answers_exist_phase [simp]: "answers_exist groups (s\<lparr>gs_phase := ph\<rparr>) = answers_exist groups s"
  by (simp add: answers_exist_def)

lemma answers_exist_step:
  assumes "group_spec pgc groups" and "keeps_groups others groups"
    and "group_step pgc others s s'" and "answers_exist groups s"
  shows "answers_exist groups s'"
  using assms(3)
proof (cases rule: group_step_cases)
  case (list_fails i name e w)
  then show ?thesis using listed_groups(1) [OF assms(1)] by (auto intro!: answers_kept [OF assms(4)])
next
  case (exists i name g gs w)
  then show ?thesis using listed_groups [OF assms(1)] by (auto intro!: answers_kept [OF assms(4)])
next
  case (missing i name w)
  have "answers_exist groups (s\<lparr>gs_world := w\<rparr>)"
    by (rule answers_kept(2) [OF assms(4), of w "Panic"]) (use listed_groups(1) [OF assms(1) missing(3)] in auto)
  then show ?thesis using missing(1) by (simp add: answers_exist_def)
next
  case (create_fails i name e w)
  then show ?thesis using created_groups(1) [OF assms(1)] by (auto intro!: answers_kept [OF assms(4)])
next
  case (created i name p w)
  then show ?thesis using created_groups [OF assms(1) created(3)] by (auto intro!: answers_kept [OF assms(4)])
next
  case (others_act w)
  then show ?thesis using assms(2)
    by (auto simp: keeps_groups_def intro!: answers_kept(2) [OF assms(4), of w "Panic"])
qed (use assms(4) in simp_all)

interpretation creators: transition_system group_initial "group_step pgc others"
  "\<lambda>s. group_spec pgc groups \<and> keeps_groups others groups \<longrightarrow> answers_exist groups s" for pgc others groups
proof unfold_locales
  show "group_initial s \<Longrightarrow> group_spec pgc groups \<and> keeps_groups others groups \<longrightarrow> answers_exist groups s" for s
    by (simp add: answers_exist_def group_initial_def)
qed (blast intro: answers_exist_step)

text \<open>C4: However many calls create servers at once -- goroutines, replicas, other clusters, in any order of
  their requests -- all servers of a node pool are put in one placement group, which exists, and servers
  of different pools of a cluster in different ones.\<close>

theorem pool_shares_one_group:
  assumes "group_spec pgc groups" and "keeps_groups others groups" and "group_reachable pgc others s"
    and "(placementGroupName c pool, g) \<in> gs_answers s" and "(placementGroupName c pool', h) \<in> gs_answers s"
  shows "(g = h \<longleftrightarrow> pool = pool') \<and> groups (gs_world s) (placementGroupName c pool) = Some g"
proof -
  have "answers_exist groups s"
    using creators.reachable_inv [of _ pgc others s groups] assms(1-3) unfolding group_reachable_def by blast
  then have gh: "groups (gs_world s) (placementGroupName c pool) = Some g"
      "groups (gs_world s) (placementGroupName c pool') = Some h"
    using assms(4,5) by (auto simp: answers_exist_def)
  have "inj_on (groups (gs_world s)) (dom (groups (gs_world s)))" using assms(1) by (simp add: group_spec_def)
  then have "g = h \<longleftrightarrow> placementGroupName c pool = placementGroupName c pool'"
    using gh by (metis domI inj_on_def option.inject)
  with gh(1) show ?thesis using placement_group_names [of c pool c pool'] by blast
qed

text \<open>A call that lost the race to another fails; the next one finds the winner's group.\<close>

lemma lost_race:
  assumes "group_spec pgc groups" and "groups (env_world e) name = Some g"
  shows "pgc_Create pgc name (env_world e) = (r, w) \<Longrightarrow> \<not> is_ok r \<and> groups w = groups (env_world e)"
    and "getOrCreatePlacementGroup pgc name e = (q, e') \<Longrightarrow>
      fst (pgc_AllWithOpts pgc name (env_world e)) = Ok gs \<Longrightarrow> q = Ok g"
proof -
  assume "pgc_Create pgc name (env_world e) = (r, w)"
  with assms show "\<not> is_ok r \<and> groups w = groups (env_world e)"
    unfolding group_spec_def creates_groups_def by (cases r) fastforce+
next
  assume q: "getOrCreatePlacementGroup pgc name e = (q, e')"
    and gs: "fst (pgc_AllWithOpts pgc name (env_world e)) = Ok gs"
  then have "pgc_AllWithOpts pgc name (env_world e) = (Ok gs, snd (pgc_AllWithOpts pgc name (env_world e)))"
    by (metis prod.collapse)
  moreover from this assms have "gs = [g]"
    unfolding group_spec_def looks_up_groups_def by fastforce
  ultimately show "q = Ok g" using q by (simp add: getOrCreate_requests split: prod.splits)
qed

section \<open>A race\<close>

text \<open>A project with room for two groups.\<close>

type_synonym two_groups = "string option \<times> string option"

fun two_groups_of :: "two_groups \<Rightarrow> string \<rightharpoonup> int64" where
  "two_groups_of (a, b) = (\<lambda>name. if a = Some name then Some 1 else if b = Some name then Some 2 else None)"

fun two_create :: "string \<Rightarrow> (two_groups, int64 option) sdk_call" where
  "two_create name (a, b) =
     (if a = Some name \<or> b = Some name then (Err (SdkError None ''name is already used''), (a, b))
      else if a = None then (Ok (Some 1), (Some name, b))
      else if b = None then (Ok (Some 2), (a, Some name))
      else (Err (SdkError None ''limit exceeded''), (a, b)))"

definition two_client :: "two_groups placement_group_client" where
  "two_client =
     \<lparr>pgc_AllWithOpts = (\<lambda>name w. (Ok (case two_groups_of w name of None \<Rightarrow> [] | Some g \<Rightarrow> [g]), w)),
      pgc_Create = two_create\<rparr>"

lemma two_spec: "group_spec two_client two_groups_of"
proof -
  have "inj_on (two_groups_of w) (dom (two_groups_of w))" for w
    by (cases w) (auto simp: inj_on_def split: if_splits)
  moreover have "looks_up_groups two_client two_groups_of"
    by (simp add: looks_up_groups_def two_client_def)
  moreover have "creates_groups two_client two_groups_of"
    by (auto simp: creates_groups_def two_client_def fun_eq_iff split: if_splits)
  ultimately show ?thesis by (simp add: group_spec_def)
qed

text \<open>Nobody else is there.\<close>

definition nobody :: "'w \<Rightarrow> 'w \<Rightarrow> bool" where
  "nobody w w' \<longleftrightarrow> w' = w"

text \<open>Two goroutines need the group of pool \<open>p\<close> and both find it missing; one creates it and the other's create
  is refused. That one asks again and is answered with the group; then it asks for pool \<open>q\<close>.\<close>

definition p_group :: string where "p_group = placementGroupName ''prod'' ''p''"
definition q_group :: string where "q_group = placementGroupName ''prod'' ''q''"

definition before_race :: "two_groups group_state" where
  "before_race = \<lparr>gs_world = (None, None), gs_phase = (\<lambda>_. NoCall), gs_answers = {}\<rparr>"

definition refused :: err where
  "refused = ErrWrap ''creating placement group %q: %w'' [AStr p_group]
     (ErrSdk (SdkError None ''name is already used''))"

definition after_race :: "two_groups group_state" where
  "after_race =
     \<lparr>gs_world = (Some p_group, None), gs_phase = (\<lambda>_. NoCall)(0 := Resolved_group p_group (Ok 1), 1 := Resolved_group p_group (Err refused)),
      gs_answers = {(p_group, 1)}\<rparr>"

lemma race: "(group_step two_client nobody)\<^sup>*\<^sup>* before_race after_race"
proof -
  let ?st = "\<lambda>w ph as. \<lparr>gs_world = w, gs_phase = ph, gs_answers = as\<rparr> :: two_groups group_state"
  let ?l0 = "(\<lambda>_. NoCall)(0 := Listing p_group)" let ?l1 = "?l0(1 := Listing p_group)"
  let ?m0 = "?l1(0 := Missing p_group)" let ?m1 = "?m0(1 := Missing p_group)"
  let ?c0 = "?m1(0 := Resolved_group p_group (Ok 1))"
  let ?go = "group_step two_client nobody"
  have "?go before_race (?st (None, None) ?l0 {})"
    using group_step.calls [of before_race 0 two_client nobody p_group] by (simp add: before_race_def)
  moreover have "?go (?st (None, None) ?l0 {}) (?st (None, None) ?l1 {})"
    using group_step.calls [of "?st (None, None) ?l0 {}" 1 two_client nobody p_group] by simp
  moreover have "?go (?st (None, None) ?l1 {}) (?st (None, None) ?m0 {})"
    using group_step.missing [of "?st (None, None) ?l1 {}" 0 p_group two_client "(None, None)" nobody]
    by (simp add: two_client_def)
  moreover have "?go (?st (None, None) ?m0 {}) (?st (None, None) ?m1 {})"
    using group_step.missing [of "?st (None, None) ?m0 {}" 1 p_group two_client "(None, None)" nobody]
    by (simp add: two_client_def)
  moreover have "?go (?st (None, None) ?m1 {}) (?st (Some p_group, None) ?c0 {(p_group, 1)})"
    using group_step.created [of "?st (None, None) ?m1 {}" 0 p_group two_client "Some 1" "(Some p_group, None)" nobody]
    by (simp add: two_client_def resolves_def)
  moreover have "?go (?st (Some p_group, None) ?c0 {(p_group, 1)}) after_race"
    using group_step.create_fails [of "?st (Some p_group, None) ?c0 {(p_group, 1)}" 1 p_group two_client
        "SdkError None ''name is already used''" "(Some p_group, None)" nobody]
    by (simp add: two_client_def resolves_def after_race_def refused_def fun_upd_twist)
  ultimately show ?thesis by (meson converse_rtranclp_into_rtranclp rtranclp.rtrancl_refl)
qed

definition group_env :: "two_groups \<Rightarrow> two_groups env" where
  "group_env w = \<lparr>env_world = w, env_metrics = initial_metrics\<rparr>"

theorem pool_shares_one_group_witness:
  "\<exists>s. group_reachable two_client nobody s \<and> (p_group, 1) \<in> gs_answers s \<and> (q_group, 2) \<in> gs_answers s \<and>
     (1 = (2 :: int64) \<longleftrightarrow> ''p'' = ''q'') \<and> two_groups_of (gs_world s) p_group = Some 1"
proof -
  have names: "p_group \<noteq> q_group" by (simp add: p_group_def q_group_def placementGroupName_def)
  have found: "getOrCreatePlacementGroup two_client p_group (group_env (Some p_group, None)) =
      (Ok 1, group_env (Some p_group, None))"
    by (simp add: getOrCreate_requests group_env_def two_client_def)
  have made: "getOrCreatePlacementGroup two_client q_group (group_env (Some p_group, None)) =
      (Ok 2, group_env (Some p_group, Some q_group))"
    using names by (simp add: getOrCreate_requests group_env_def two_client_def)
  let ?go = "group_step two_client nobody"
  let ?s1 = "after_race\<lparr>gs_phase := (gs_phase after_race)(1 := NoCall)\<rparr>"
  have 1: "?go after_race ?s1" by (rule group_step.returns) (simp add: after_race_def)
  obtain s2 where s2: "?go\<^sup>*\<^sup>* ?s1 s2" "s2 = resolves 1 p_group (Ok 1) (?s1\<lparr>gs_world := (Some p_group, None)\<rparr>)"
    using group_alone [OF found, of ?s1 1 nobody] by (auto simp: after_race_def group_env_def)
  let ?s3 = "s2\<lparr>gs_phase := (gs_phase s2)(1 := NoCall)\<rparr>"
  have 3: "?go s2 ?s3" by (rule group_step.returns) (simp add: s2(2) resolves_def)
  obtain s4 where s4: "?go\<^sup>*\<^sup>* ?s3 s4" "s4 = resolves 1 q_group (Ok 2) (?s3\<lparr>gs_world := (Some p_group, Some q_group)\<rparr>)"
    using group_alone [OF made, of ?s3 1 nobody] by (auto simp: s2(2) resolves_def group_env_def)
  have "?go\<^sup>*\<^sup>* before_race s4"
    using race 1 s2(1) 3 s4(1) by (meson rtranclp.rtrancl_into_rtrancl rtranclp_trans)
  then have r: "group_reachable two_client nobody s4"
    unfolding group_reachable_def by (intro exI [of _ before_race]) (simp add: group_initial_def before_race_def)
  have a: "(p_group, 1) \<in> gs_answers s4" "(q_group, 2) \<in> gs_answers s4" by (simp_all add: s4(2) s2(2) resolves_def)
  have "keeps_groups nobody two_groups_of" by (simp add: keeps_groups_def nobody_def)
  from pool_shares_one_group [OF two_spec this r, of "''prod''" "''p''" 1 "''q''" 2] r a show ?thesis
    unfolding p_group_def [symmetric] q_group_def [symmetric] by blast
qed

end
