(* ===== verification/Spec2Isabelle.thy ===== *)
theory Spec2Isabelle
  imports Operator_Correct Drift Readiness Type_Cache_Conc Catalogue_Heap Deep_Copy_Correct Scheme
    Server_Lifecycle Capacity_Retries Settled Placement_Groups
begin

text \<open>
  Karpenter's provider for Hetzner Cloud, as a model of the Go code under \<open>src/pkg\<close> and
  \<open>src/cmd\<close>, and what makes it correct.

  \<^bold>\<open>The program.\<close> Karpenter core asks the cloud provider (\<open>cloudprovider.go\<close>) to create, find, list and
  delete servers for its NodeClaims and to say which instance types could be had. \<open>Create\<close> reads the
  claim's \<open>HCloudNodeClass\<close>, lists the instance types (\<open>instancetype.go\<close>, a catalogue cached for six
  hours with the offerings that recently failed marked for five minutes, \<open>unavailable.go\<close>), keeps
  those whose architecture has an image, takes the cheapest offering, and has the server provider
  (\<open>instance.go\<close>) create the server. The nodeclass controller (\<open>controller.go\<close>) checks each
  \<open>HCloudNodeClass\<close> and resolves its images (\<open>imagefamily.go\<close>) into its status, which selection and
  launch read back. \<open>operator/config.go\<close>, \<open>operator/operator.go\<close> and \<open>main.go\<close> read the environment and
  wire all this to one hcloud client.

  \<^bold>\<open>How the code is modelled.\<close> A function with effects is a function from the state to an outcome --
  a value, an error or a panic -- and the next state (\<open>Go_Prelude\<close>). The state is a world the outside
  services live in, the metrics, and for the cloud provider the instance-type provider's cache. Every
  hcloud client, the API server's client, the clock, karpenter core's scheduling functions
  (\<open>karp_core\<close> with \<open>core_spec\<close>) and operatorpkg's condition sets (\<open>cond_set\<close> with \<open>cond_spec\<close>) are
  parameters. What is documented of them is a named hypothesis where a property needs it, shown
  satisfiable by a concrete instance: \<open>core_spec\<close> and \<open>cond_spec\<close> (with \<open>settles\<close>: writing what is there
  changes nothing), \<open>cloud_spec\<close> with \<open>only_servers\<close> (what the hcloud calls do to the servers, read off the
  world by a \<open>cloud_view\<close>: deletion is accepted first and carried out later, and a create that fails may
  have made its server), \<open>group_spec\<close> (a name has one placement group), \<open>meta_copies_equal\<close> (the library's
  own deep copies), \<open>clients_return\<close>, \<open>holds_object\<close> (only a successful status write changes the stored
  object) and \<open>steady\<close>. Errors are values of \<open>err\<close> with the chain that \<open>errors.As\<close> walks. An \<open>int64\<close> is a 64-bit
  word, a \<open>float64\<close> an IEEE value computed exactly by rational rounding, a Go map an association list
  in its iteration order, a string a list of bytes.

  \<^bold>\<open>The theories.\<close>
  \<^item> \<open>Go_Prelude\<close>, \<open>Go_Strings\<close>, \<open>Go_Numbers\<close>, \<open>Go_Parse\<close>: calls, maps, scans, transition systems; the
    parts of \<open>strings\<close>, \<open>strconv\<close>, \<open>math\<close> and \<open>time\<close> the code uses. \<open>Go_Heap\<close>: arenas of cells, slices, maps
    and pointers in them, and copies of fields.
  \<^item> \<open>Errors\<close>, \<open>Metrics\<close>, \<open>Hcloud_Api\<close>, \<open>Kube_Api\<close>, \<open>Karp_Core\<close>: errors, counters and the interfaces.
  \<^item> \<open>Apis_V1\<close>: \<open>pkg/apis/v1\<close>, the object, its accessors and the labels; \<open>Scheme\<close>: its registration with the
    runtime scheme (\<open>register.go\<close>); \<open>Deep_Copy\<close>, \<open>Deep_Copy_Correct\<close>: the generated deep copies
    (\<open>zz_generated.deepcopy.go\<close>) on an explicit store.
  \<^item> \<open>Provider_Id\<close>, \<open>Instance\<close>, \<open>Instance_Correct\<close>: \<open>pkg/providers/instance\<close>; \<open>Placement_Groups\<close>: its lookup
    or creation of a placement group by many callers at once.
  \<^item> \<open>Unavailable_Cache\<close>, \<open>Instance_Type\<close>, \<open>Type_Cache\<close>, \<open>Type_Cache_Correct\<close>: \<open>pkg/providers/instancetype\<close>
    one call at a time; \<open>Type_Cache_Conc\<close>: the same \<open>List\<close> by many goroutines.
  \<^item> \<open>Image_Family\<close>: \<open>pkg/providers/imagefamily\<close>.
  \<^item> \<open>Cloud_Provider\<close>, with \<open>Selection\<close>, \<open>Launch\<close> and \<open>Drift\<close>: \<open>pkg/cloudprovider\<close>; \<open>Catalogue_Heap\<close>: its marking
    and the catalogue passes once more, on an explicit store; \<open>Capacity_Retries\<close>: many workers that run \<open>Create\<close>
    at once while capacity is missing; \<open>Server_Lifecycle\<close>: create, list and delete against the servers
    that exist, call by call and as any interleaving of the requests of many callers.
  \<^item> \<open>Node_Class_Controller\<close>, \<open>Node_Class_Correct\<close>: one reconcile of \<open>pkg/controllers/nodeclass\<close>;
    \<open>Node_Class_Machine\<close>: reconciles, edits and lost writes over time; \<open>Settled\<close>: a reconcile over what the
    one before has written.
  \<^item> \<open>Operator\<close>, \<open>Operator_Correct\<close>: \<open>pkg/operator\<close> and \<open>cmd/controller\<close>.
  \<^item> \<open>Readiness\<close>: the controller and the cloud provider together.

  \<^bold>\<open>What is shown.\<close> Of selection: it returns a cheapest launchable offering whenever there is one,
  independently of the catalogue's order, what the scheduler is shown is exactly what it can launch,
  and an empty result names the right cause (\<open>Selection\<close>). Of \<open>Create\<close>: the claim returned describes the
  server created, in an allowed zone, from an unmarked offering and with an image of the right
  architecture; a failure for capacity marks exactly the pair attempted, which is then avoided for
  five minutes (\<open>Launch\<close>); a fresh server has not drifted unless its labels collide, and drift is
  reported exactly for the differences specified (\<open>Drift\<close>). However many \<open>Create\<close>s overlap, a pair fails for
  capacity at most once for each that was under way, and no \<open>Create\<close> that lists within five minutes of a
  failure attempts its pair (\<open>Capacity_Retries\<close>). Of the servers: however a \<open>Create\<close> ends, it leaves at most
  one server behind, and one that \<open>List\<close> finds; the deletion of what \<open>List\<close> shows reaches that server and
  no other; and over any interleaving of requests by any clusters, a cluster is shown its own servers
  and loses none whose deletion nobody asked for (\<open>Server_Lifecycle\<close>); and creates that race
  put the servers of a pool into one placement group (\<open>Placement_Groups\<close>). Of the catalogue: what a listing shows, how
  long it stays warm, that an API failure is served from the last catalogue (\<open>Type_Cache_Correct\<close>); that
  at most one refresh is in flight, that warm callers never wait and the lock is never leaked, and
  that the whole-call model is the interleaved one run alone (\<open>Type_Cache_Conc\<close>); that writing into a
  listing never reaches the cached catalogue it was made from (\<open>Catalogue_Heap\<close>). Of the generated
  copies: a copy reads as the original did, and writing to either never shows in the other
  (\<open>Deep_Copy_Correct\<close>). Of images: which image
  is taken and that a permanent error is a proof of absence (\<open>Image_Family\<close>). Of a reconcile: what it
  records and reports in each case, that it fails only on its status write and never panics
  (\<open>Node_Class_Correct\<close>); that it leaves the stored status current unless that write fails
  (\<open>Node_Class_Machine\<close>); that with unchanged answers the next reconcile finds nothing to write
  (\<open>Settled\<close>); and, over every interleaving, that status never offers an image for a
  selector it was not resolved under, so a launch never uses one (\<open>Node_Class_Machine\<close>, \<open>Readiness\<close>).
  Round trips of provider IDs, label selectors and timeouts, bounds of prices and of the
  configuration, and the error classes of create and delete complete the picture.

  \<^bold>\<open>Interfaces as locales.\<close> \<open>best_scan\<close> and \<open>ranked_scan\<close> (a scan for the best element, interpreted for the
  newest snapshot and the cheapest candidate), \<open>ttl_marks\<close> (marks that expire), \<open>catalogue\<close> (what the
  cloud provider relies on of the instance-type provider), \<open>image_source\<close> (what it and the controller
  rely on of the image provider), \<open>transition_system\<close> (invariants of the interleaved models), \<open>evolution\<close>
  (calls during which the state only moves along a preorder: time in which doomed servers go),
  \<open>heap_field\<close> (one arena of the store: what reading it sees of a write or an allocation), \<open>field_copier\<close>
  (a slice, map or pointer copied field by field) and \<open>deep_copier\<close> with \<open>pointer_copier\<close> (a generated
  \<open>DeepCopyInto\<close> and the \<open>DeepCopy\<close> made of it) are interpreted on the model's own definitions.

  \<^bold>\<open>Bounds and fuel.\<close> No definition needs fuel: every loop of the code runs over a finite list, and the
  number and duration parsers recurse on shorter strings.

  \<^bold>\<open>Abstractions.\<close> Case folding and trimming are those of ASCII strings. Log lines are left out. Mutexes
  make the accesses they guard atomic; the lookups of marks in one listing are taken at one moment. In
  \<open>Node_Class_Machine\<close> a status write may land on a newer object, which the API server's version check
  would refuse: the invariant does not need it. Outside the theories with an explicit store, objects
  are values: where the code makes a \<open>DeepCopy\<close> before it mutates the model has nothing to alias. For
  the NodeClass \<open>Deep_Copy_Correct\<close> justifies it, for the catalogue, whose copies are by hand,
  \<open>Catalogue_Heap\<close>; the \<open>DeepCopy\<close> of a NodeClaim is karpenter core's. In \<open>Server_Lifecycle\<close>
  servers disappear only after the API accepted their deletion, nobody edits their labels by hand, and
  the pages of one list are read as one request; in \<open>Capacity_Retries\<close> the two moments of a \<open>Create\<close> at which
  it meets the marks, its listing and the end of its launch, are one step each.

  \<^bold>\<open>Not modelled.\<close> Log lines and the help texts of collectors; the kubebuilder markers and JSON tags of
  the API types, read by tools; the insides of libraries, which are parameters: the runtime scheme, the
  Prometheus registry, the HTTP transport, controller-runtime's manager, and karpenter core with the
  constructors of its controllers that \<open>main\<close> calls.
\<close>

end
